(* ===== verification/Comms_Prelude.thy ===== *)
theory Comms_Prelude
  imports Main "HOL-Library.List_Lexorder" "HOL-Library.Char_ord" "HOL-Library.Product_Lexorder"
    "HOL-Library.Multiset"
begin

text \<open>
  The shared base of the development. Python exceptions are the datatype \<open>exn\<close>; code that may
  raise returns \<open>exn + 'a\<close>. Code that reads and writes the database is a function from the
  state to an exception or a value with the new state (\<open>('s, 'a) tx\<close>). An exception carries no
  state: every write of the modelled code happens inside a transaction that is rolled back when
  an exception leaves it. The section on guarantees gives one locale for every property of the
  form ``each run relates its start state to its end state by a preorder'', which is how both
  invariants and append-only or immutability properties are stated and proved.
\<close>

section \<open>Exceptions\<close>

datatype exn =
    ValueError string
  | TypeError string
  | RuntimeError string
  | KeyError string
  | IndexError
  | LifecycleError string
  | NotFound string
  | NoEligibleEndpoints
  | DirectoryError string
  | DirectoryNotFound string
  | GroupError string
  | IntegrityError string
  | PermissionError string
  | TransactionIOError string
  | AuditIntegrityDegraded
  | AnchorFailed
  | ChainError string
  | CommsError string
  | OverflowError string
  | EngineCrash string
  | MutationCrash string
  | NotImplementedError
  | DeliverError
  | AnchorError string
  | KeySlotError string

text \<open>The classes an \<open>except ValueError\<close> clause catches: \<open>LifecycleError\<close> derives from
  \<open>ValueError\<close>, \<open>NotFound\<close> and \<open>NoEligibleEndpoints\<close> derive from \<open>LifecycleError\<close>, and the
  directory errors derive from \<open>ValueError\<close> too.\<close>

fun is_ValueError :: "exn \<Rightarrow> bool" where
  "is_ValueError (ValueError _) = True"
| "is_ValueError (LifecycleError _) = True"
| "is_ValueError (NotFound _) = True"
| "is_ValueError NoEligibleEndpoints = True"
| "is_ValueError (DirectoryError _) = True"
| "is_ValueError (DirectoryNotFound _) = True"
| "is_ValueError _ = False"

section \<open>State passing with exceptions\<close>

type_synonym 'a res = "exn + 'a"
type_synonym ('s, 'a) tx = "'s \<Rightarrow> exn + 'a \<times> 's"

definition tx_return :: "'a \<Rightarrow> ('s, 'a) tx" where
  "tx_return x s = Inr (x, s)"

definition tx_raise :: "exn \<Rightarrow> ('s, 'a) tx" where
  "tx_raise e s = Inl e"

definition tx_bind :: "('s, 'a) tx \<Rightarrow> ('a \<Rightarrow> ('s, 'b) tx) \<Rightarrow> ('s, 'b) tx" where
  "tx_bind m f s = (case m s of Inl e \<Rightarrow> Inl e | Inr (x, t) \<Rightarrow> f x t)"

definition tx_then :: "('s, 'a) tx \<Rightarrow> ('s, 'b) tx \<Rightarrow> ('s, 'b) tx" where
  "tx_then m k = tx_bind m (\<lambda>_. k)"

text \<open>A query: a value computed from the state.\<close>

definition tx_reads :: "('s \<Rightarrow> 'a) \<Rightarrow> ('s, 'a) tx" where
  "tx_reads q s = Inr (q s, s)"

definition tx_modify :: "('s \<Rightarrow> 's) \<Rightarrow> ('s, unit) tx" where
  "tx_modify f s = Inr ((), f s)"

text \<open>\<open>if not b: raise e\<close>.\<close>

definition tx_guard :: "bool \<Rightarrow> exn \<Rightarrow> ('s, unit) tx" where
  "tx_guard b e s = (if b then Inr ((), s) else Inl e)"

text \<open>A computation that does not touch the state.\<close>

definition tx_lift :: "'a res \<Rightarrow> ('s, 'a) tx" where
  "tx_lift r s = (case r of Inl e \<Rightarrow> Inl e | Inr x \<Rightarrow> Inr (x, s))"

text \<open>\<open>fetchone()\<close> where the code subscripts the row at once: \<open>None\<close> raises.\<close>

definition tx_the :: "exn \<Rightarrow> 'a option \<Rightarrow> ('s, 'a) tx" where
  "tx_the e v s = (case v of None \<Rightarrow> Inl e | Some x \<Rightarrow> Inr (x, s))"

text \<open>A \<open>for\<close> loop that collects one value per item.\<close>

fun tx_each :: "('a \<Rightarrow> ('s, 'b) tx) \<Rightarrow> 'a list \<Rightarrow> ('s, 'b list) tx" where
  "tx_each f [] = tx_return []"
| "tx_each f (x # xs) =
     tx_bind (f x) (\<lambda>y. tx_bind (tx_each f xs) (\<lambda>ys. tx_return (y # ys)))"

definition res_bind :: "'a res \<Rightarrow> ('a \<Rightarrow> 'b res) \<Rightarrow> 'b res" where
  "res_bind r f = (case r of Inl e \<Rightarrow> Inl e | Inr x \<Rightarrow> f x)"

fun res_each :: "('a \<Rightarrow> 'b res) \<Rightarrow> 'a list \<Rightarrow> 'b list res" where
  "res_each f [] = Inr []"
| "res_each f (x # xs) = res_bind (f x) (\<lambda>y. res_bind (res_each f xs) (\<lambda>ys. Inr (y # ys)))"

text \<open>\<open>is_ok\<close>: the call returned, whatever its value.\<close>

definition is_ok :: "exn + 'a \<Rightarrow> bool" where
  "is_ok r \<longleftrightarrow> (case r of Inl _ \<Rightarrow> False | Inr _ \<Rightarrow> True)"

text \<open>\<open>ok_with P r\<close>: the call returned a value and a state that satisfy \<open>P\<close>.\<close>

definition ok_with :: "('a \<Rightarrow> 's \<Rightarrow> bool) \<Rightarrow> exn + 'a \<times> 's \<Rightarrow> bool" where
  "ok_with P r \<longleftrightarrow> (case r of Inl _ \<Rightarrow> False | Inr (x, t) \<Rightarrow> P x t)"

lemma ok_withD: "ok_with P r \<Longrightarrow> \<exists>x t. r = Inr (x, t) \<and> P x t"
  by (auto simp: ok_with_def split: sum.splits)

lemma ok_with_Inr [simp]: "ok_with P (Inr (x, t)) \<longleftrightarrow> P x t"
  by (simp add: ok_with_def)

named_theorems tx_run \<open>how each combinator runs\<close>
named_theorems tx_inr \<open>when each combinator returns, and what\<close>

lemma tx_run_simps [tx_run, simp]:
  "tx_return x s = Inr (x, s)"
  "tx_raise e s = Inl e"
  "tx_reads q s = Inr (q s, s)"
  "tx_modify f s = Inr ((), f s)"
  by (simp_all add: tx_return_def tx_raise_def tx_reads_def tx_modify_def)

lemma tx_guard_True [simp]: "tx_guard True e = tx_return ()"
  by (simp add: tx_guard_def tx_return_def fun_eq_iff)

lemma tx_guard_False [simp]: "tx_guard False e = tx_raise e"
  by (simp add: tx_guard_def tx_raise_def fun_eq_iff)

lemma tx_bind_Inr [tx_inr]:
  "tx_bind m f s = Inr (y, u) \<longleftrightarrow> (\<exists>x t. m s = Inr (x, t) \<and> f x t = Inr (y, u))"
  by (auto simp: tx_bind_def split: sum.splits)

lemma tx_bind_Inr_iff:
  "tx_bind m f s = Inr r \<longleftrightarrow> (\<exists>x t. m s = Inr (x, t) \<and> f x t = Inr r)"
  by (cases r) (simp add: tx_bind_Inr)

lemma tx_bind_Inl:
  "tx_bind m f s = Inl e \<longleftrightarrow> m s = Inl e \<or> (\<exists>x t. m s = Inr (x, t) \<and> f x t = Inl e)"
  by (auto simp: tx_bind_def split: sum.splits)

lemma tx_then_Inr [tx_inr]:
  "tx_then m k s = Inr (y, u) \<longleftrightarrow> (\<exists>x t. m s = Inr (x, t) \<and> k t = Inr (y, u))"
  by (auto simp: tx_then_def tx_bind_Inr)

lemma tx_guard_Inr [tx_inr]: "tx_guard b e s = Inr (x, t) \<longleftrightarrow> b \<and> t = s"
  by (auto simp: tx_guard_def)

lemma tx_lift_Inr [tx_inr]: "tx_lift r s = Inr (x, t) \<longleftrightarrow> r = Inr x \<and> t = s"
  by (auto simp: tx_lift_def split: sum.splits)

lemma tx_the_Inr [tx_inr]: "tx_the e v s = Inr (x, t) \<longleftrightarrow> v = Some x \<and> t = s"
  by (auto simp: tx_the_def split: option.splits)

lemma tx_bind_run [tx_run]:
  "m s = Inr (x, t) \<Longrightarrow> tx_bind m f s = f x t"
  "m s = Inl e \<Longrightarrow> tx_bind m f s = Inl e"
  by (simp_all add: tx_bind_def)

lemma tx_then_run [tx_run]:
  "m s = Inr (x, t) \<Longrightarrow> tx_then m k s = k t"
  "m s = Inl e \<Longrightarrow> tx_then m k s = Inl e"
  by (simp_all add: tx_then_def tx_bind_def)

lemma tx_each_length: "tx_each f xs s = Inr (ys, t) \<Longrightarrow> length ys = length xs"
  by (induction xs arbitrary: s ys) (auto simp: tx_bind_Inr)

lemma res_bind_Inr [simp]: "res_bind r f = Inr y \<longleftrightarrow> (\<exists>x. r = Inr x \<and> f x = Inr y)"
  by (auto simp: res_bind_def split: sum.splits)

lemma is_ok_simps [simp]: "is_ok (Inr x)" "\<not> is_ok (Inl e)"
  by (simp_all add: is_ok_def)

section \<open>Guarantees of a run\<close>

text \<open>\<open>tx_within R m\<close>: whenever \<open>m\<close> returns, its start and end states are related by \<open>R\<close>.\<close>

definition tx_within :: "('s \<Rightarrow> 's \<Rightarrow> bool) \<Rightarrow> ('s, 'a) tx \<Rightarrow> bool" where
  "tx_within R m \<longleftrightarrow> (\<forall>s x t. m s = Inr (x, t) \<longrightarrow> R s t)"

lemma tx_withinI: "(\<And>s x t. m s = Inr (x, t) \<Longrightarrow> R s t) \<Longrightarrow> tx_within R m"
  by (simp add: tx_within_def)

lemma tx_withinD: "tx_within R m \<Longrightarrow> m s = Inr (x, t) \<Longrightarrow> R s t"
  by (auto simp: tx_within_def)

text \<open>
  The interface between a sequence of database steps and a property of the whole run: a preorder
  on states. The operations' sequencing, branching and looping preserve it, so a component only
  proves it of its primitive writes.
\<close>

locale tx_preorder =
  fixes R :: "'s \<Rightarrow> 's \<Rightarrow> bool"
  assumes R_refl: "R s s"
    and R_trans: "R s t \<Longrightarrow> R t u \<Longrightarrow> R s u"
begin

lemma within_return [intro!]: "tx_within R (tx_return x)"
  by (rule tx_withinI) (auto simp: R_refl)

lemma within_raise [intro!]: "tx_within R (tx_raise e)"
  by (rule tx_withinI) simp

lemma within_reads [intro!]: "tx_within R (tx_reads q)"
  by (rule tx_withinI) (auto simp: R_refl)

lemma within_guard [intro!]: "tx_within R (tx_guard b e)"
  by (rule tx_withinI) (auto simp: tx_guard_Inr R_refl)

lemma within_lift [intro!]: "tx_within R (tx_lift r)"
  by (rule tx_withinI) (auto simp: tx_lift_Inr R_refl)

lemma within_the [intro!]: "tx_within R (tx_the e v)"
  by (rule tx_withinI) (auto simp: tx_the_Inr R_refl)

lemma within_bind [intro]:
  assumes "tx_within R m" and "\<And>x. tx_within R (f x)"
  shows "tx_within R (tx_bind m f)"
proof (rule tx_withinI)
  fix s y u
  assume "tx_bind m f s = Inr (y, u)"
  then obtain x t where "m s = Inr (x, t)" and "f x t = Inr (y, u)"
    by (auto simp: tx_bind_Inr)
  then show "R s u"
    using assms by (blast intro: R_trans dest: tx_withinD)
qed

lemma within_then [intro]:
  assumes "tx_within R m" and "tx_within R k"
  shows "tx_within R (tx_then m k)"
  unfolding tx_then_def using assms by (intro within_bind)

lemma within_each [intro]:
  assumes "\<And>x. tx_within R (f x)"
  shows "tx_within R (tx_each f xs)"
proof (induction xs)
  case Nil
  show ?case unfolding tx_each.simps by (rule within_return)
next
  case (Cons x xs)
  then show ?case unfolding tx_each.simps by (intro within_bind within_return assms)
qed

lemma within_if [intro]:
  "(b \<Longrightarrow> tx_within R m) \<Longrightarrow> (\<not> b \<Longrightarrow> tx_within R k) \<Longrightarrow> tx_within R (if b then m else k)"
  by simp

lemma within_case_option [intro]:
  "tx_within R m \<Longrightarrow> (\<And>x. tx_within R (f x)) \<Longrightarrow>
     tx_within R (case v of None \<Rightarrow> m | Some x \<Rightarrow> f x)"
  by (cases v) simp_all

lemma within_case_prod [intro]:
  "(\<And>x y. tx_within R (f x y)) \<Longrightarrow> tx_within R (case p of (x, y) \<Rightarrow> f x y)"
  by (cases p) simp

lemma within_let [intro]: "(\<And>x. tx_within R (f x)) \<Longrightarrow> tx_within R (let x = v in f x)"
  by simp

lemmas within_intros =
  within_return within_raise within_reads within_guard within_lift within_the within_bind
  within_then within_each within_if within_case_option within_case_prod within_let

end

text \<open>An invariant is the preorder ``if it held before, it holds after''.\<close>

definition kept :: "('s \<Rightarrow> bool) \<Rightarrow> 's \<Rightarrow> 's \<Rightarrow> bool" where
  "kept I s t \<longleftrightarrow> (I s \<longrightarrow> I t)"

interpretation kept: tx_preorder "kept I" for I
  by unfold_locales (auto simp: kept_def)

section \<open>Rows\<close>

text \<open>SQLite's next INTEGER PRIMARY KEY: one more than the largest.\<close>

definition next_id :: "('r \<Rightarrow> nat) \<Rightarrow> 'r list \<Rightarrow> nat" where
  "next_id key rows = Suc (foldr (\<lambda>r m. max (key r) m) rows 0)"

lemma next_id_gt: "r \<in> set rows \<Longrightarrow> key r < next_id key rows"
  by (induction rows) (auto simp: next_id_def)

lemma next_id_fresh: "next_id key rows \<notin> key ` set rows"
  using next_id_gt by (metis imageE less_irrefl)

text \<open>\<open>UPDATE ... WHERE p\<close>.\<close>

definition update_where :: "('r \<Rightarrow> bool) \<Rightarrow> ('r \<Rightarrow> 'r) \<Rightarrow> 'r list \<Rightarrow> 'r list" where
  "update_where p f rows = map (\<lambda>r. if p r then f r else r) rows"

lemma length_update_where [simp]: "length (update_where p f rows) = length rows"
  by (simp add: update_where_def)

lemma set_update_where: "set (update_where p f rows) = (\<lambda>r. if p r then f r else r) ` set rows"
  by (simp add: update_where_def)

lemma map_update_where [simp]:
  assumes "\<And>r. p r \<Longrightarrow> key (f r) = key r"
  shows "map key (update_where p f rows) = map key rows"
  using assms by (simp add: update_where_def)

lemma image_update_where [simp]:
  assumes "\<And>r. p r \<Longrightarrow> key (f r) = key r"
  shows "key ` set (update_where p f rows) = key ` set rows"
  using arg_cong [OF map_update_where [of p key f rows, OF assms], of set] by simp

text \<open>A lookup by a unique key.\<close>

lemma find_key_unique:
  assumes "distinct (map key rows)" and "r \<in> set rows"
  shows "find (\<lambda>x. key x = key r) rows = Some r"
  using assms by (induction rows) auto

lemma find_Some_iff_key: "find p rows = Some r \<Longrightarrow> r \<in> set rows \<and> p r"
  by (induction rows) (auto split: if_splits)

lemma find_update_where:
  assumes "\<And>r. p r \<Longrightarrow> key (f r) = key r"
  shows "find (\<lambda>r. key r = k) (update_where p f rows)
       = map_option (\<lambda>r. if p r then f r else r) (find (\<lambda>r. key r = k) rows)"
  using assms by (induction rows) (auto simp: update_where_def)

lemma find_append:
  "find p (xs @ ys) = (case find p xs of None \<Rightarrow> find p ys | Some x \<Rightarrow> Some x)"
  by (induction xs) auto

section \<open>Lists\<close>

lemma list_all2_in_set2:
  "list_all2 P xs ys \<Longrightarrow> y \<in> set ys \<Longrightarrow> \<exists>x\<in>set xs. P x y"
  by (induction rule: list_all2_induct) auto

lemma list_all2_in_set1: "list_all2 P xs ys \<Longrightarrow> x \<in> set xs \<Longrightarrow> \<exists>y\<in>set ys. P x y"
  by (induction rule: list_all2_induct) auto

lemma res_each_Inr: "res_each f xs = Inr ys \<Longrightarrow> list_all2 (\<lambda>x y. f x = Inr y) xs ys"
  by (induction xs arbitrary: ys) auto

end
