(* ===== verification/Comms_Refs.thy ===== *)
theory Comms_Refs
  imports Comms_Prelude
begin

text \<open>
  Opaque references: \<open>core/opaque.py\<close> (minting from random bits, and the shape check) and
  \<open>core/refs.py\<close> (the prefix of each kind, \<open>mint\<close>, \<open>kind_of\<close>, \<open>check\<close>). The value drawn by
  \<open>secrets.randbits(130)\<close> is an argument. Strings are lists of 8-bit characters; the functions
  below accept ASCII only, as the code's regular expressions do.
\<close>

section \<open>core/opaque.py\<close>

definition char_between :: "char \<Rightarrow> char \<Rightarrow> char \<Rightarrow> bool" where
  "char_between lo hi c \<longleftrightarrow> of_char lo \<le> (of_char c :: nat) \<and> (of_char c :: nat) \<le> of_char hi"

definition is_az :: "char \<Rightarrow> bool" where
  "is_az c \<longleftrightarrow> char_between (CHR ''a'') (CHR ''z'') c"

definition is_body_char :: "char \<Rightarrow> bool" where
  "is_body_char c \<longleftrightarrow> is_az c \<or> char_between (CHR ''2'') (CHR ''7'') c"

text \<open>\<open>str.isalpha\<close> and \<open>str.islower\<close> together, on the code points below 256.\<close>

definition py_lower_alpha :: "char \<Rightarrow> bool" where
  "py_lower_alpha c \<longleftrightarrow> is_az c \<or>
     (let n = (of_char c :: nat) in n = 170 \<or> n = 181 \<or> n = 186 \<or>
        (223 \<le> n \<and> n \<le> 246) \<or> (248 \<le> n \<and> n \<le> 255))"

text \<open>\<open>int.to_bytes(w, "big")\<close>, most significant byte first.\<close>

definition to_bytes_be :: "nat \<Rightarrow> nat \<Rightarrow> nat list" where
  "to_bytes_be w n = map (\<lambda>i. n div 256 ^ (w - 1 - i) mod 256) [0..<w]"

lemma to_bytes_be_rec [code]:
  "to_bytes_be 0 n = []"
  "to_bytes_be (Suc w) n = to_bytes_be w (n div 256) @ [n mod 256]"
proof -
  have "n div 256 ^ (w - i) mod 256 = n div 256 div 256 ^ (w - 1 - i) mod 256" if "i < w" for i
  proof -
    have "w - i = Suc (w - 1 - i)" using that by simp
    then show ?thesis by (simp add: div_mult2_eq)
  qed
  then show "to_bytes_be (Suc w) n = to_bytes_be w (n div 256) @ [n mod 256]"
    by (simp add: to_bytes_be_def)
qed (simp add: to_bytes_be_def)

definition bits_of_byte :: "nat \<Rightarrow> bool list" where
  "bits_of_byte b = map (\<lambda>i. odd (b div 2 ^ (7 - i))) [0..<8]"

fun quintets :: "bool list \<Rightarrow> bool list list" where
  "quintets [] = []"
| "quintets (b # bs) = take 5 (b # bs) # quintets (drop 4 bs)"

text \<open>Five bits, most significant first; a short final group is padded with zero bits.\<close>

fun quintet_value :: "nat \<Rightarrow> bool list \<Rightarrow> nat" where
  "quintet_value 0 bs = 0"
| "quintet_value (Suc k) [] = 0"
| "quintet_value (Suc k) (b # bs) = (if b then 2 ^ k else 0) + quintet_value k bs"

definition b32_lower_alphabet :: string where
  "b32_lower_alphabet = ''abcdefghijklmnopqrstuvwxyz234567''"

text \<open>\<open>base64.b32encode(raw)\<close>, lowered: one character per five bits, then \<open>=\<close> padding to a
  multiple of eight characters.\<close>

definition b32encode_lower :: "nat list \<Rightarrow> string" where
  "b32encode_lower raw =
     (let cs = map (\<lambda>q. b32_lower_alphabet ! quintet_value 5 q)
                 (quintets (concat (map bits_of_byte raw)))
      in cs @ replicate ((8 - length cs mod 8) mod 8) (CHR ''=''))"

definition mint_opaque_ref :: "string \<Rightarrow> nat \<Rightarrow> string res" where
  "mint_opaque_ref prefix rand130 =
     (if prefix = [] \<or> last prefix \<noteq> CHR ''_'' \<or> butlast prefix = []
         \<or> \<not> list_all py_lower_alpha (butlast prefix)
      then Inl (ValueError ''invalid opaque-ref prefix'')
      else let raw = to_bytes_be 17 rand130;
               body = take 26 (b32encode_lower raw)
           in Inr (prefix @ body))"

text \<open>\<open>_REF_RE.fullmatch\<close>: a run of \<open>[a-z]\<close>, an underscore, then exactly 26 of \<open>[a-z2-7]\<close>.\<close>

definition validate_ref_format :: "string \<Rightarrow> string res" where
  "validate_ref_format ref =
     (let letters = takeWhile is_az ref
      in case dropWhile is_az ref of
           [] \<Rightarrow> Inl (ValueError ''invalid opaque-ref format'')
         | c # body \<Rightarrow>
             (if letters \<noteq> [] \<and> c = CHR ''_'' \<and> length body = 26 \<and> list_all is_body_char body
              then Inr (letters @ ''_'')
              else Inl (ValueError ''invalid opaque-ref format'')))"

section \<open>core/refs.py\<close>

definition CORE_PREFIXES :: "(string \<times> string) list" where
  "CORE_PREFIXES = [
     (''location'', ''loc_''), (''destination'', ''dst_''), (''recipient'', ''rcp_''),
     (''contact_point'', ''rct_''), (''audience'', ''cau_''), (''campaign'', ''cmp_''),
     (''generation'', ''gen_''), (''job'', ''djb_''), (''attempt'', ''dat_''),
     (''event'', ''cev_''), (''group'', ''grp_''), (''message'', ''cmg_''),
     (''invite'', ''inv_''), (''template'', ''ctp_''), (''topic'', ''top_''),
     (''media'', ''med_''), (''context'', ''ctx_''), (''cursor'', ''cur_''),
     (''operation'', ''op_''), (''request'', ''req_''), (''cutover'', ''cut_''),
     (''client'', ''cli_''), (''audit_event'', ''aev_''), (''audit_checkpoint'', ''ack_''),
     (''installation'', ''cin_''), (''staged_import'', ''cbi_''), (''upload'', ''upl_''),
     (''instagram_account'', ''iga_''), (''instagram_container'', ''igk_''),
     (''instagram_media'', ''igm_''), (''instagram_comment'', ''igc_''),
     (''instagram_person'', ''igp_'')]"

text \<open>\<open>_KIND_BY_PREFIX\<close>: the inverted dictionary; a later entry would win over an earlier one.\<close>

definition KIND_BY_PREFIX :: "(string \<times> string) list" where
  "KIND_BY_PREFIX = rev (map (\<lambda>(kind, prefix). (prefix, kind)) CORE_PREFIXES)"

definition mint :: "string \<Rightarrow> nat \<Rightarrow> string res" where
  "mint kind rand130 =
     (case map_of CORE_PREFIXES kind of
        None \<Rightarrow> Inl (ValueError ''unexpected ref'')
      | Some prefix \<Rightarrow> mint_opaque_ref prefix rand130)"

definition kind_of :: "string \<Rightarrow> string res" where
  "kind_of ref =
     (case validate_ref_format ref of
        Inl _ \<Rightarrow> Inl (ValueError ''unexpected ref'')
      | Inr prefix \<Rightarrow>
          (case map_of KIND_BY_PREFIX prefix of
             None \<Rightarrow> Inl (ValueError ''unexpected ref'')
           | Some kind \<Rightarrow> Inr kind))"

definition check :: "string \<Rightarrow> string \<Rightarrow> string res" where
  "check ref kind =
     (case kind_of ref of
        Inl e \<Rightarrow> Inl e
      | Inr k \<Rightarrow> (if k \<noteq> kind then Inl (ValueError ''unexpected ref'') else Inr ref))"

section \<open>Lemmas\<close>

lemma quintet_value_less: "quintet_value k bs < 2 ^ k"
proof (induction k bs rule: quintet_value.induct)
  case (3 k b bs)
  then show ?case by (cases b) auto
qed simp_all

lemma length_alphabet [simp]: "length b32_lower_alphabet = 32"
  by (simp add: b32_lower_alphabet_def)

lemma alphabet_body_chars: "list_all is_body_char b32_lower_alphabet"
  by (simp add: b32_lower_alphabet_def is_body_char_def is_az_def char_between_def)

lemma alphabet_nth_body_char: "k < 32 \<Longrightarrow> is_body_char (b32_lower_alphabet ! k)"
  using alphabet_body_chars by (simp add: list_all_length)

lemma quintets_body_chars:
  "list_all is_body_char (map (\<lambda>q. b32_lower_alphabet ! quintet_value 5 q) qs)"
  using quintet_value_less [of 5] by (auto simp: list_all_iff intro!: alphabet_nth_body_char)

lemma length_quintets: "length (quintets bs) = (length bs + 4) div 5"
proof (induction bs rule: quintets.induct)
  case (2 b bs)
  then show ?case by (simp add: div_if)
qed simp

lemma length_raw_bits: "length (concat (map bits_of_byte (to_bytes_be 17 n))) = 136"
  by (simp add: to_bytes_be_def bits_of_byte_def length_concat comp_def upt_rec)

text \<open>The 26 characters come from the first 26 of 28 groups, so no padding is in the body.\<close>

lemma minted_body:
  "take 26 (b32encode_lower (to_bytes_be 17 n))
   = map (\<lambda>q. b32_lower_alphabet ! quintet_value 5 q)
       (take 26 (quintets (concat (map bits_of_byte (to_bytes_be 17 n)))))"
  by (simp add: b32encode_lower_def Let_def length_quintets length_raw_bits take_map)

lemma minted_body_shape:
  "length (take 26 (b32encode_lower (to_bytes_be 17 n))) = 26"
  "list_all is_body_char (take 26 (b32encode_lower (to_bytes_be 17 n)))"
  by (simp_all add: minted_body length_quintets length_raw_bits quintets_body_chars)

lemma takeWhile_az_append:
  "list_all is_az p \<Longrightarrow> takeWhile is_az (p @ CHR ''_'' # b) = p"
  "list_all is_az p \<Longrightarrow> dropWhile is_az (p @ CHR ''_'' # b) = CHR ''_'' # b"
  by (induction p) (simp_all add: is_az_def char_between_def)

lemma validate_ref_format_intro:
  assumes "list_all is_az p" and "p \<noteq> []" and "length b = 26" and "list_all is_body_char b"
  shows "validate_ref_format (p @ CHR ''_'' # b) = Inr (p @ ''_'')"
  using assms by (simp add: validate_ref_format_def takeWhile_az_append)

lemma validate_ref_format_Inr:
  assumes "validate_ref_format ref = Inr prefix"
  shows "\<exists>p b. ref = p @ CHR ''_'' # b \<and> prefix = p @ ''_'' \<and> p \<noteq> [] \<and> list_all is_az p
           \<and> length b = 26 \<and> list_all is_body_char b"
proof -
  from assms obtain b where d: "dropWhile is_az ref = CHR ''_'' # b"
    and rest: "takeWhile is_az ref \<noteq> []" "length b = 26" "list_all is_body_char b"
    and pre: "prefix = takeWhile is_az ref @ ''_''"
    by (auto simp: validate_ref_format_def Let_def split: list.splits if_splits)
  have "ref = takeWhile is_az ref @ CHR ''_'' # b"
    using takeWhile_dropWhile_id [of is_az ref] d by simp
  moreover have "list_all is_az (takeWhile is_az ref)"
    by (auto simp: list_all_iff dest: set_takeWhileD)
  ultimately show ?thesis using rest pre by blast
qed

text \<open>Every prefix is letters then one underscore, and no two kinds share one.\<close>

lemma core_prefix_shape:
  assumes "map_of CORE_PREFIXES kind = Some prefix"
  shows "prefix \<noteq> [] \<and> last prefix = CHR ''_'' \<and> butlast prefix \<noteq> []
       \<and> list_all is_az (butlast prefix) \<and> map_of KIND_BY_PREFIX prefix = Some kind"
proof -
  have "(kind, prefix) \<in> set CORE_PREFIXES"
    using assms by (rule map_of_SomeD)
  moreover have "list_all (\<lambda>(k, p). p \<noteq> [] \<and> last p = CHR ''_'' \<and> butlast p \<noteq> []
      \<and> list_all is_az (butlast p) \<and> map_of KIND_BY_PREFIX p = Some k) CORE_PREFIXES"
    by code_simp
  ultimately show ?thesis by (auto simp: list_all_iff)
qed

lemma check_Inr: "check ref kind = Inr r \<longleftrightarrow> kind_of ref = Inr kind \<and> r = ref"
  by (auto simp: check_def split: sum.splits)

lemma check_Inl: "check ref kind = Inl e \<Longrightarrow> e = ValueError ''unexpected ref''"
  by (auto simp: check_def kind_of_def split: sum.splits option.splits if_splits)

end
