(* ===== verification/Comms_Json.thy ===== *)
theory Comms_Json
  imports Comms_Refs
begin

text \<open>
  Python values as they reach \<open>core/canonical.py\<close>, and TG-JCS-v1: the pre-walk that refuses
  non-canonical values, and the exact bytes of \<open>json.dumps(..., sort_keys=True,
  separators=(",", ":"), ensure_ascii=False)\<close> encoded as UTF-8. Text is a list of code points;
  bytes are 8-bit characters. A Python dict is an association list without repeated keys.
\<close>

type_synonym pytext = "nat list"
type_synonym bytes = string

datatype json =
    JNull
  | JBool bool
  | JInt int
  | JFloat
  | JStr pytext
  | JList "json list"
  | JObj "(json \<times> json) list"
  | JOther

text \<open>\<open>JFloat\<close> stands for any float and \<open>JOther\<close> for any value of another type (bytes, tuples,
  sets); dict keys may be any value, as in Python.\<close>

abbreviation jstr :: "string \<Rightarrow> json" where
  "jstr s \<equiv> JStr (map of_char s)"

definition is_surrogate :: "nat \<Rightarrow> bool" where
  "is_surrogate c \<longleftrightarrow> 55296 \<le> c \<and> c \<le> 57343"

lemma is_surrogate_code [code]: "is_surrogate c \<longleftrightarrow> (let i = int c in 55296 \<le> i \<and> i \<le> 57343)"
  by (simp add: is_surrogate_def Let_def)

fun walk_canonicalizable :: "json \<Rightarrow> unit res"
  and walk_items :: "(json \<times> json) list \<Rightarrow> unit res"
  and walk_list :: "json list \<Rightarrow> unit res" where
  "walk_canonicalizable JNull = Inr ()"
| "walk_canonicalizable (JBool _) = Inr ()"
| "walk_canonicalizable (JInt _) = Inr ()"
| "walk_canonicalizable JFloat = Inl (ValueError ''non-canonical float'')"
| "walk_canonicalizable (JStr cs) =
     (if list_ex is_surrogate cs then Inl (ValueError ''lone surrogate'') else Inr ())"
| "walk_canonicalizable (JObj kvs) = walk_items kvs"
| "walk_canonicalizable (JList xs) = walk_list xs"
| "walk_canonicalizable JOther = Inl (ValueError ''non-canonical value'')"
| "walk_items [] = Inr ()"
| "walk_items ((k, v) # kvs) =
     (case k of
        JStr cs \<Rightarrow>
          (if list_ex (\<lambda>c. 128 \<le> c) cs then Inl (ValueError ''non-ASCII key'')
           else res_bind (walk_canonicalizable v) (\<lambda>_. walk_items kvs))
      | _ \<Rightarrow> Inl (ValueError ''non-string key''))"
| "walk_list [] = Inr ()"
| "walk_list (x # xs) = res_bind (walk_canonicalizable x) (\<lambda>_. walk_list xs)"

section \<open>json.dumps\<close>

definition byte :: "nat \<Rightarrow> char" where
  "byte n = char_of n"

definition utf8_char :: "nat \<Rightarrow> bytes" where
  "utf8_char c =
     (if c < 128 then [byte c]
      else if c < 2048 then [byte (192 + c div 64), byte (128 + c mod 64)]
      else if c < 65536 then
        [byte (224 + c div 4096), byte (128 + c div 64 mod 64), byte (128 + c mod 64)]
      else
        [byte (240 + c div 262144), byte (128 + c div 4096 mod 64),
         byte (128 + c div 64 mod 64), byte (128 + c mod 64)])"

definition hex_digit :: "nat \<Rightarrow> char" where
  "hex_digit n = ''0123456789abcdef'' ! (n mod 16)"

text \<open>\<open>json.encoder.encode_basestring\<close>: the short escapes, \<open>\\u00xx\<close> for other controls.\<close>

definition escape_char :: "nat \<Rightarrow> bytes" where
  "escape_char c =
     (if c = 34 then [byte 92, byte 34]
      else if c = 92 then [byte 92, byte 92]
      else if c = 10 then [byte 92, CHR ''n'']
      else if c = 13 then [byte 92, CHR ''r'']
      else if c = 9 then [byte 92, CHR ''t'']
      else if c = 12 then [byte 92, CHR ''f'']
      else if c = 8 then [byte 92, CHR ''b'']
      else if c < 32 then [byte 92] @ ''u00'' @ [hex_digit (c div 16), hex_digit c]
      else utf8_char c)"

definition dump_str :: "pytext \<Rightarrow> bytes" where
  "dump_str cs = [byte 34] @ concat (map escape_char cs) @ [byte 34]"

fun dump_nat :: "nat \<Rightarrow> bytes" where
  "dump_nat n = (if n < 10 then [byte (48 + n)] else dump_nat (n div 10) @ [byte (48 + n mod 10)])"

declare dump_nat.simps [simp del]

definition dump_int :: "int \<Rightarrow> bytes" where
  "dump_int i = (if i < 0 then CHR ''-'' # dump_nat (nat (- i)) else dump_nat (nat i))"

fun intercalate :: "bytes \<Rightarrow> bytes list \<Rightarrow> bytes" where
  "intercalate sep [] = []"
| "intercalate sep [x] = x"
| "intercalate sep (x # y # xs) = x @ sep @ intercalate sep (y # xs)"

fun key_text :: "json \<Rightarrow> pytext" where
  "key_text (JStr cs) = cs"
| "key_text _ = []"

lemma size_list_insort_key:
  "size_list f (insort_key g x xs) = f x + size_list f xs + 1"
  by (induction xs) auto

lemma size_list_sort_key: "size_list f (sort_key g xs) = size_list f xs"
  by (induction xs) (simp_all add: size_list_insort_key)

lemma size_key_member:
  assumes "(k, v) \<in> set xs"
  shows "size v < size_list (size_prod size size) xs"
  using assms by (induction xs) auto

text \<open>After the walk only canonical values are left; the other constructors are unreachable.\<close>

function dumps :: "json \<Rightarrow> bytes" where
  "dumps JNull = ''null''"
| "dumps (JBool b) = (if b then ''true'' else ''false'')"
| "dumps (JInt i) = dump_int i"
| "dumps (JStr cs) = dump_str cs"
| "dumps (JList xs) = ''['' @ intercalate '','' (map dumps xs) @ '']''"
| "dumps (JObj kvs) =
     ''{'' @ intercalate '',''
       (map (\<lambda>kv. dump_str (key_text (fst kv)) @ '':'' @ dumps (snd kv))
          (sort_key (\<lambda>kv. key_text (fst kv)) kvs)) @ ''}''"
| "dumps JFloat = []"
| "dumps JOther = []"
  by pat_completeness auto
termination
proof (relation "measure size")
  fix kvs :: "(json \<times> json) list" and kv
  assume "kv \<in> set (sort_key (\<lambda>kv. key_text (fst kv)) kvs)"
  then have "(fst kv, snd kv) \<in> set kvs" by simp
  from size_key_member [OF this] show "(snd kv, JObj kvs) \<in> measure size" by simp
qed (auto simp: less_Suc_eq_le size_list_estimation')

definition jcs_dumps :: "json \<Rightarrow> bytes res" where
  "jcs_dumps obj = res_bind (walk_canonicalizable obj) (\<lambda>_. Inr (dumps obj))"

section \<open>Lemmas\<close>

lemma walk_list_iff: "walk_list xs = Inr () \<longleftrightarrow> (\<forall>x \<in> set xs. walk_canonicalizable x = Inr ())"
  by (induction xs) auto

lemma walk_items_iff:
  "walk_items kvs = Inr () \<longleftrightarrow>
     (\<forall>(k, v) \<in> set kvs. (\<exists>cs. k = JStr cs \<and> (\<forall>c \<in> set cs. c < 128))
        \<and> walk_canonicalizable v = Inr ())"
proof (induction kvs)
  case (Cons kv kvs)
  obtain k v where kv: "kv = (k, v)" by (cases kv)
  show ?case
    using Cons.IH unfolding kv
    by (cases k) (auto simp: list_ex_iff linorder_not_le [symmetric] split: if_splits)
qed simp

lemma jcs_dumps_Inr: "jcs_dumps v = Inr b \<longleftrightarrow> walk_canonicalizable v = Inr () \<and> b = dumps v"
  by (auto simp: jcs_dumps_def)

text \<open>The order in which a dict's items were inserted does not reach the bytes.\<close>

lemma sort_key_unique_perm:
  assumes "mset kvs = mset kvs'" and "distinct (map f kvs)"
  shows "sort_key f kvs = sort_key f kvs'"
proof (rule sort_key_inj_key_eq)
  show "mset kvs = mset (sort_key f kvs')" using assms(1) by simp
  show "inj_on f (set kvs)" using assms(2) by (simp add: distinct_map)
  show "sorted (map f (sort_key f kvs'))" by (simp add: sorted_sort_key)
qed

end
