(* ===== verification/Comms_Time.thy ===== *)
theory Comms_Time
  imports Comms_Prelude
begin

text \<open>
  \<open>core/timeutil.py\<close>: UTC instants and their stored form. An instant is the tuple (year, month,
  day, hour, minute, second, microsecond), ordered lexicographically, which is the order of time.
  \<open>Aware t\<close> is an aware \<open>datetime\<close> whose UTC fields are \<open>t\<close>; \<open>Naive\<close> has no offset. The year is
  written with four digits, as \<open>strftime("%Y")\<close> does on the platform the program runs on.
\<close>

type_synonym instant_t = "nat \<times> nat \<times> nat \<times> nat \<times> nat \<times> nat \<times> nat"

datatype datetime = Naive instant_t | Aware instant_t

definition days_in_month :: "nat \<Rightarrow> nat \<Rightarrow> nat" where
  "days_in_month y m =
     (if m = 2 then (if y mod 4 = 0 \<and> (y mod 100 \<noteq> 0 \<or> y mod 400 = 0) then 29 else 28)
      else if m \<in> {4, 6, 9, 11} then 30 else 31)"

fun valid_instant :: "instant_t \<Rightarrow> bool" where
  "valid_instant (y, mo, d, h, mi, s, us) \<longleftrightarrow>
     1 \<le> y \<and> y \<le> 9999 \<and> 1 \<le> mo \<and> mo \<le> 12 \<and> 1 \<le> d \<and> d \<le> days_in_month y mo \<and>
     h < 24 \<and> mi < 60 \<and> s < 60 \<and> us < 1000000"

definition digit :: "nat \<Rightarrow> char" where
  "digit n = char_of (48 + n mod 10)"

text \<open>Zero-padded decimal of width \<open>w\<close>.\<close>

fun padded :: "nat \<Rightarrow> nat \<Rightarrow> string" where
  "padded 0 n = []"
| "padded (Suc w) n = padded w (n div 10) @ [digit n]"

fun utc :: "datetime \<Rightarrow> instant_t res" where
  "utc (Aware t) = Inr t"
| "utc (Naive t) = Inl (ValueError ''a timezone-aware datetime is required'')"

fun format_instant :: "instant_t \<Rightarrow> string" where
  "format_instant (y, mo, d, h, mi, s, us) =
     padded 4 y @ ''-'' @ padded 2 mo @ ''-'' @ padded 2 d @ ''T'' @ padded 2 h @ '':'' @
     padded 2 mi @ '':'' @ padded 2 s @ ''.'' @ padded 6 us @ ''Z''"

definition iso :: "datetime \<Rightarrow> string res" where
  "iso dt = res_bind (utc dt) (\<lambda>t. Inr (format_instant t))"

definition is_digit :: "char \<Rightarrow> bool" where
  "is_digit c \<longleftrightarrow> 48 \<le> (of_char c :: nat) \<and> (of_char c :: nat) \<le> 57"

definition digits_value :: "string \<Rightarrow> nat" where
  "digits_value cs = foldl (\<lambda>n c. 10 * n + (of_char c - 48)) 0 cs"

text \<open>A shape: \<open>d\<close> marks a digit position, any other character stands for itself.\<close>

definition matches_shape :: "string \<Rightarrow> string \<Rightarrow> bool" where
  "matches_shape shape s \<longleftrightarrow> length s = length shape \<and>
     list_all2 (\<lambda>p c. if p = CHR ''d'' then is_digit c else c = p) shape s"

definition ISO_SHAPE :: string where
  "ISO_SHAPE = ''dddd-dd-ddTdd:dd:dd.ddddddZ''"

definition LEGACY_SHAPE :: string where
  "LEGACY_SHAPE = ''dddd-dd-ddTdd:dd:ddZ''"

definition field_at :: "nat \<Rightarrow> nat \<Rightarrow> string \<Rightarrow> nat" where
  "field_at i w s = digits_value (take w (drop i s))"

text \<open>\<open>datetime.strptime\<close> on a text of the right shape: out-of-range fields are a \<open>ValueError\<close>.\<close>

definition strptime :: "bool \<Rightarrow> string \<Rightarrow> instant_t res" where
  "strptime with_micros s =
     (let t = (field_at 0 4 s, field_at 5 2 s, field_at 8 2 s, field_at 11 2 s, field_at 14 2 s,
               field_at 17 2 s, if with_micros then field_at 20 6 s else 0)
      in if valid_instant t then Inr t else Inl (ValueError ''time data out of range''))"

definition parse_iso :: "string \<Rightarrow> instant_t res" where
  "parse_iso s =
     (if \<not> matches_shape ISO_SHAPE s then Inl (ValueError ''not a canonical UTC time'')
      else strptime True s)"

definition instant :: "string \<Rightarrow> instant_t res" where
  "instant s = (if matches_shape LEGACY_SHAPE s then strptime False s else parse_iso s)"

section \<open>Lemmas\<close>

lemma length_padded [simp]: "length (padded w n) = w"
  by (induction w arbitrary: n) auto

lemma of_char_digit: "(of_char (digit n) :: nat) = 48 + n mod 10"
  by (simp add: digit_def of_char_of)

lemma digit_less_iff: "digit a < digit b \<longleftrightarrow> a mod 10 < b mod 10"
  by (simp add: less_char_def of_char_digit)

lemma digit_eq_iff: "digit a = digit b \<longleftrightarrow> a mod 10 = b mod 10"
  by (metis add_left_cancel of_char_digit digit_def)

text \<open>Equal-length lists compare by their first difference.\<close>

lemma list_less_append_same_length:
  fixes xs ys us vs :: "'a::linorder list"
  assumes "length xs = length ys"
  shows "xs @ us < ys @ vs \<longleftrightarrow> xs < ys \<or> (xs = ys \<and> us < vs)"
  using assms by (induction xs ys rule: list_induct2) auto

lemma list_less_same_prefix:
  fixes us vs :: "'a::linorder list"
  shows "xs @ us < xs @ vs \<longleftrightarrow> us < vs"
  by (simp add: list_less_append_same_length)

lemma padded_inject: "n < 10 ^ w \<Longrightarrow> m < 10 ^ w \<Longrightarrow> padded w n = padded w m \<longleftrightarrow> n = m"
proof (induction w arbitrary: n m)
  case (Suc w)
  have "n div 10 < 10 ^ w" "m div 10 < 10 ^ w"
    using Suc.prems by (simp_all add: less_mult_imp_div_less mult.commute)
  with Suc.IH [of "n div 10" "m div 10"] show ?case
    by (simp add: digit_eq_iff) (metis div_mult_mod_eq)
qed simp

lemma decimal_less:
  fixes q r q' r' :: nat
  assumes "r < 10" and "r' < 10"
  shows "q < q' \<or> (q = q' \<and> r < r') \<longleftrightarrow> 10 * q + r < 10 * q' + r'"
  using assms by auto

lemma padded_less: "n < 10 ^ w \<Longrightarrow> m < 10 ^ w \<Longrightarrow> padded w n < padded w m \<longleftrightarrow> n < m"
proof (induction w arbitrary: n m)
  case (Suc w)
  have b: "n div 10 < 10 ^ w" "m div 10 < 10 ^ w"
    using Suc.prems by (simp_all add: less_mult_imp_div_less mult.commute)
  have "padded (Suc w) n < padded (Suc w) m \<longleftrightarrow>
      n div 10 < m div 10 \<or> (n div 10 = m div 10 \<and> n mod 10 < m mod 10)"
    using b by (simp add: list_less_append_same_length Suc.IH padded_inject digit_less_iff)
  also have "\<dots> \<longleftrightarrow> n < m"
    using decimal_less [of "n mod 10" "m mod 10" "n div 10" "m div 10"] by simp
  finally show ?case .
qed simp

lemma valid_instant_bounds:
  assumes "valid_instant (y, mo, d, h, mi, s, us)"
  shows "y < 10 ^ 4" "mo < 10 ^ 2" "d < 10 ^ 2" "h < 10 ^ 2" "mi < 10 ^ 2" "s < 10 ^ 2"
    "us < 10 ^ 6"
  using assms by (auto simp: days_in_month_def split: if_splits)

lemma lex_pair:
  fixes a c :: "'a::linorder" and b d :: "'b::linorder"
  shows "(a, b) < (c, d) \<longleftrightarrow> a < c \<or> (a = c \<and> b < d)"
  by auto

text \<open>Text comparison of stored times is time comparison.\<close>

lemma format_instant_less:
  assumes "valid_instant a" and "valid_instant b"
  shows "format_instant a < format_instant b \<longleftrightarrow> a < b"
proof -
  obtain y mo d h mi s us where a: "a = (y, mo, d, h, mi, s, us)" by (metis prod_cases7)
  obtain y' mo' d' h' mi' s' us' where b: "b = (y', mo', d', h', mi', s', us')"
    by (metis prod_cases7)
  note bounds = valid_instant_bounds [OF assms(1) [unfolded a]]
    valid_instant_bounds [OF assms(2) [unfolded b]]
  have split: "\<And>w n m us vs. n < 10 ^ w \<Longrightarrow> m < 10 ^ w \<Longrightarrow>
      padded w n @ us < padded w m @ vs \<longleftrightarrow> n < m \<or> (n = m \<and> us < (vs :: string))"
    by (simp add: list_less_append_same_length padded_less padded_inject)
  show ?thesis
    unfolding a b format_instant.simps
    by (simp only: split bounds list_less_same_prefix lex_pair) simp
qed

lemma of_char_digit_is_digit [simp]: "is_digit (digit n)"
  by (simp add: is_digit_def of_char_digit)

end
