(* ===== verification/Comms_Schema.thy ===== *)
theory Comms_Schema
  imports Comms_Json Comms_Time
begin

text \<open>
  The tables of \<open>comms.db\<close> (\<open>core/storage/migrations.py\<close>) and the transaction helpers of
  \<open>core/storage/db.py\<close>. A table is a list of rows in insertion order. Each INSERT and UPDATE the
  modelled code issues is one definition that applies the CHECK, UNIQUE and REFERENCES clauses and
  the triggers of its table and raises \<open>IntegrityError\<close> when one fails, as SQLite does. Columns
  holding JSON text hold the value itself. \<open>entropy\<close> and \<open>draws\<close> are the random source the
  references are minted from, and \<open>audit_appended\<close> is the flag of the open audited transaction.
\<close>

section \<open>Enumerated columns\<close>

datatype job_state =
    PENDING | IN_FLIGHT | ACCEPTED | DELIVERED | FAILED_TRANSIENT | FAILED_PERMANENT
  | OUTCOME_UNKNOWN | CANCELLED | SKIPPED_PLATFORM_POLICY | SKIPPED_REVALIDATION

datatype lifecycle = LC_DRAFT | LC_READY | LC_SCHEDULED | LC_SENDING | LC_COMPLETE | LC_CANCELLED

datatype summary =
  SUM_IN_PROGRESS | SUM_INDETERMINATE | SUM_SENT | SUM_PARTIAL | SUM_CANCELLED | SUM_FAILED

datatype gen_status = GEN_ACTIVE | GEN_DISCARDED

datatype disposition = Applied | Recorded | Refused | Pending_match

fun job_state_name :: "job_state \<Rightarrow> string" where
  "job_state_name PENDING = ''PENDING''"
| "job_state_name IN_FLIGHT = ''IN_FLIGHT''"
| "job_state_name ACCEPTED = ''ACCEPTED''"
| "job_state_name DELIVERED = ''DELIVERED''"
| "job_state_name FAILED_TRANSIENT = ''FAILED_TRANSIENT''"
| "job_state_name FAILED_PERMANENT = ''FAILED_PERMANENT''"
| "job_state_name OUTCOME_UNKNOWN = ''OUTCOME_UNKNOWN''"
| "job_state_name CANCELLED = ''CANCELLED''"
| "job_state_name SKIPPED_PLATFORM_POLICY = ''SKIPPED_PLATFORM_POLICY''"
| "job_state_name SKIPPED_REVALIDATION = ''SKIPPED_REVALIDATION''"

fun lifecycle_name :: "lifecycle \<Rightarrow> string" where
  "lifecycle_name LC_DRAFT = ''DRAFT''"
| "lifecycle_name LC_READY = ''READY''"
| "lifecycle_name LC_SCHEDULED = ''SCHEDULED''"
| "lifecycle_name LC_SENDING = ''SENDING''"
| "lifecycle_name LC_COMPLETE = ''COMPLETE''"
| "lifecycle_name LC_CANCELLED = ''CANCELLED''"

fun summary_name :: "summary \<Rightarrow> string" where
  "summary_name SUM_IN_PROGRESS = ''IN_PROGRESS''"
| "summary_name SUM_INDETERMINATE = ''INDETERMINATE''"
| "summary_name SUM_SENT = ''SENT''"
| "summary_name SUM_PARTIAL = ''PARTIAL''"
| "summary_name SUM_CANCELLED = ''CANCELLED''"
| "summary_name SUM_FAILED = ''FAILED''"

section \<open>Rows\<close>

type_synonym targets = "(string \<times> string list) list"

record location_row =
  loc_id :: nat
  loc_ref :: string
  loc_name :: string
  loc_enabled :: bool
  loc_created_at :: string

record recipient_row =
  rcp_id :: nat
  rcp_ref :: string
  rcp_enabled :: bool
  rcp_display_name :: "string option"
  rcp_created_at :: string

record identity_row =
  idn_id :: nat
  idn_transport :: string
  idn_identity :: string

record destination_row =
  dst_id :: nat
  dst_ref :: string
  dst_location_id :: nat
  dst_transport :: string
  dst_platform_identity :: string
  dst_identity_id :: nat
  dst_display_name :: string
  dst_capabilities :: json
  dst_enabled :: bool
  dst_created_at :: string
  dst_disabled_at :: "string option"

record contact_row =
  cp_id :: nat
  cp_ref :: string
  cp_recipient_id :: nat
  cp_transport :: string
  cp_platform_identity :: string
  cp_identity_id :: nat
  cp_enabled :: bool
  cp_opted_out_at :: "string option"
  cp_created_at :: string
  cp_disabled_at :: "string option"

record audience_row =
  aud_id :: nat
  aud_ref :: string
  aud_name :: string
  aud_created_at :: string

text \<open>Exactly one of the four member columns is not null, and none names its own audience.\<close>

datatype member = MLocation nat | MAudience nat | MDestination nat | MRecipient nat

record audience_member_row =
  am_id :: nat
  am_audience_id :: nat
  am_member :: member

record campaign_row =
  cmp_id :: nat
  cmp_ref :: string
  cmp_title :: string
  cmp_lifecycle :: lifecycle
  cmp_content :: json
  cmp_targets :: targets
  cmp_transports :: "string list"
  cmp_summary :: "summary option"
  cmp_generation_id :: "nat option"
  cmp_created_at :: string
  cmp_updated_at :: string

record generation_row =
  gen_id :: nat
  gen_ref :: string
  gen_campaign_id :: nat
  gen_created_at :: string
  gen_send_at :: string
  gen_content :: json
  gen_snapshot_digest :: string
  gen_status :: gen_status
  gen_commitment :: "string option"
  gen_commit_key_id :: "string option"

record job_row =
  job_id :: nat
  job_ref :: string
  job_generation_id :: nat
  job_transport :: string
  job_identity_id :: nat
  job_key :: string
  job_payload :: "bytes option"
  job_payload_digest :: "string option"
  job_skip_reason :: "string option"
  job_state :: job_state
  job_attempt_count :: nat

record origin_row =
  org_job_id :: nat
  org_endpoint_ref :: string
  org_path :: "string list"

record attempt_row =
  att_id :: nat
  att_ref :: string
  att_job_id :: nat
  att_no :: nat
  att_started_at :: string
  att_finished_at :: "string option"
  att_outcome :: "job_state option"
  att_provider_ref :: "string option"
  att_request_key :: "string option"
  att_actor :: "string option"
  att_outcome_code :: "string option"

record provider_event_row =
  pev_id :: nat
  pev_transport :: string
  pev_event_ref :: string
  pev_message_ref :: string
  pev_job_id :: "nat option"
  pev_attempt_id :: "nat option"
  pev_status :: job_state
  pev_disposition :: disposition
  pev_received_at :: string

record campaign_event_row =
  cev_seq :: nat
  cev_ref :: string
  cev_campaign_ref :: "string option"
  cev_type :: string
  cev_ts :: string
  cev_payload :: "(string \<times> json) list"
  cev_digest :: string

record audit_event_row =
  aev_event_id :: string
  aev_ts :: string
  aev_kind :: string
  aev_subject_ref :: "string option"
  aev_subject_digest :: "string option"
  aev_payload :: string
  aev_epoch :: nat
  aev_seq :: nat
  aev_prev_mac :: string
  aev_mac :: string

record checkpoint_row =
  ack_ref :: string
  ack_epoch :: nat
  ack_seq :: nat
  ack_last_event_id :: string
  ack_last_event_mac :: string
  ack_created_at :: string
  ack_reason :: string
  ack_signing_key_id :: string
  ack_signature :: string

record integrity_row =
  int_degraded :: bool
  int_reason :: "string option"
  int_since :: "string option"

record window_row =
  win_identity_id :: nat
  win_last_customer_message_at :: string
  win_observed_at :: string
  win_source_event_ref :: string

record template_row =
  tpl_campaign_id :: nat
  tpl_name :: string
  tpl_language :: string
  tpl_schema_version :: nat
  tpl_parameters :: "string list"
  tpl_bound_at :: string

record group_row =
  grp_id :: nat
  grp_ref :: string
  grp_destination_id :: nat
  grp_created_at :: string

record pending_group_row =
  pgc_id :: nat
  pgc_request_id :: string
  pgc_location_id :: nat
  pgc_name :: string
  pgc_created_at :: string
  pgc_destination_id :: "nat option"
  pgc_failed_at :: "string option"

record object_row =
  obj_id :: nat
  obj_ref :: string
  obj_kind :: string
  obj_transport :: string
  obj_actor :: string
  obj_destination_id :: "nat option"
  obj_provider_identity :: string
  obj_created_at :: string
  obj_last_seen_at :: string

record media_row =
  mf_object_id :: nat
  mf_kind :: string
  mf_mime :: string
  mf_size :: "int option"
  mf_origin :: string
  mf_recorded_at :: string

record mutation_row =
  mut_id :: nat
  mut_op_ref :: string
  mut_client :: string
  mut_request_id :: string
  mut_request_digest :: string
  mut_tool :: string
  mut_scope :: string
  mut_target_refs :: "string list"
  mut_actor :: "string option"
  mut_retry_class :: string
  mut_ambiguity_policy :: string
  mut_state :: string
  mut_audit_status :: string
  mut_provider_code :: "string option"
  mut_result :: "(string \<times> json) list option"
  mut_result_digest :: "string option"
  mut_retried :: bool
  mut_created_at :: string
  mut_finished_at :: "string option"

record step_row =
  stp_mutation_id :: nat
  stp_no :: nat
  stp_capability :: string
  stp_state :: string
  stp_request_key :: "string option"
  stp_provider_code :: "string option"

record comms_db =
  in_transaction :: bool
  locations :: "location_row list"
  recipients :: "recipient_row list"
  delivery_identities :: "identity_row list"
  destinations :: "destination_row list"
  contact_points :: "contact_row list"
  location_members :: "(nat \<times> nat) list"
  audiences :: "audience_row list"
  audience_members :: "audience_member_row list"
  campaigns :: "campaign_row list"
  generations :: "generation_row list"
  delivery_jobs :: "job_row list"
  job_origins :: "origin_row list"
  delivery_attempts :: "attempt_row list"
  provider_events :: "provider_event_row list"
  campaign_events :: "campaign_event_row list"
  audit_events :: "audit_event_row list"
  audit_checkpoints :: "checkpoint_row list"
  audit_integrity :: integrity_row
  endpoint_window :: "window_row list"
  template_bindings :: "template_row list"
  groups :: "group_row list"
  pending_group_creations :: "pending_group_row list"
  provider_objects :: "object_row list"
  media_facts :: "media_row list"
  mutations :: "mutation_row list"
  mutation_steps :: "step_row list"
  audit_appended :: bool
  entropy :: "nat \<Rightarrow> nat"
  draws :: nat

type_synonym 'a db_tx = "(comms_db, 'a) tx"

section \<open>Transactions (core/storage/db.py)\<close>

text \<open>\<open>BEGIN IMMEDIATE\<close> to \<open>COMMIT\<close>; an exception rolls back, and never nests.\<close>

definition write_tx :: "'a db_tx \<Rightarrow> 'a db_tx" where
  "write_tx body s =
     (if in_transaction s then Inl (RuntimeError ''nested comms.db transaction'')
      else case body (s\<lparr>in_transaction := True\<rparr>) of
             Inl e \<Rightarrow> Inl e
           | Inr (x, t) \<Rightarrow> Inr (x, t\<lparr>in_transaction := False\<rparr>))"

definition require_tx :: "unit db_tx" where
  "require_tx s =
     (if in_transaction s then Inr ((), s)
      else Inl (RuntimeError ''this write runs inside a comms.db transaction''))"

definition io_guard :: "unit db_tx" where
  "io_guard s =
     (if in_transaction s
      then Inl (TransactionIOError ''external I/O inside a comms.db transaction'')
      else Inr ((), s))"

text \<open>\<open>secrets.randbits(130)\<close>: the next draw of the random source, 130 bits of it. The second form
  is the one evaluation uses.\<close>

definition randbits130 :: "nat \<Rightarrow> nat" where
  "randbits130 n = n mod 2 ^ 130"

lemma randbits130_code [code]: "randbits130 n = nat (int n mod 2 ^ 130)"
  by (simp add: randbits130_def nat_mod_distrib)

text \<open>\<open>refs.mint(kind)\<close>.\<close>

definition mint_ref :: "string \<Rightarrow> string db_tx" where
  "mint_ref kind s =
     (case mint kind (randbits130 (entropy s (draws s))) of
        Inl e \<Rightarrow> Inl e
      | Inr r \<Rightarrow> Inr (r, s\<lparr>draws := Suc (draws s)\<rparr>))"

section \<open>Writes\<close>

definition violates :: "'a db_tx" where
  "violates = tx_raise (IntegrityError ''constraint failed'')"

definition TRANSPORT_NAMES :: "string list" where
  "TRANSPORT_NAMES = [''telegram'', ''whatsapp'']"

definition is_hex64 :: "string \<Rightarrow> bool" where
  "is_hex64 s \<longleftrightarrow> length s = 64 \<and> list_all (\<lambda>c. c \<in> set ''0123456789abcdef'') s"

definition OUTCOMES :: "job_state list" where
  "OUTCOMES = [ACCEPTED, DELIVERED, FAILED_TRANSIENT, FAILED_PERMANENT, OUTCOME_UNKNOWN]"

definition REPORTABLE :: "job_state list" where
  "REPORTABLE = [ACCEPTED, DELIVERED, FAILED_PERMANENT]"

definition campaign_check :: "campaign_row \<Rightarrow> bool" where
  "campaign_check c \<longleftrightarrow> (cmp_summary c = None) = (cmp_generation_id c = None)"

definition insert_campaign :: "campaign_row \<Rightarrow> unit db_tx" where
  "insert_campaign c s =
     (if cmp_ref c \<in> cmp_ref ` set (campaigns s) \<or> cmp_generation_id c \<noteq> None \<or> \<not> campaign_check c
      then violates s
      else Inr ((), s\<lparr>campaigns := campaigns s @ [c]\<rparr>))"

text \<open>\<open>UPDATE campaigns SET ... WHERE p\<close> of columns other than the generation; the row count.\<close>

definition update_campaigns :: "(campaign_row \<Rightarrow> bool) \<Rightarrow> (campaign_row \<Rightarrow> campaign_row) \<Rightarrow> nat db_tx" where
  "update_campaigns p f s =
     (let rows = update_where p f (campaigns s)
      in if list_all campaign_check rows
         then Inr (length (filter p (campaigns s)), s\<lparr>campaigns := rows\<rparr>)
         else violates s)"

text \<open>The generation pointer: the trigger wants an active generation of this campaign.\<close>

definition set_generation ::
  "nat \<Rightarrow> nat option \<Rightarrow> (campaign_row \<Rightarrow> campaign_row) \<Rightarrow> nat db_tx" where
  "set_generation cid g f s =
     (if (case g of None \<Rightarrow> True
          | Some gid \<Rightarrow> list_ex (\<lambda>r. gen_id r = gid \<and> gen_campaign_id r = cid \<and> gen_status r = GEN_ACTIVE)
                        (generations s))
      then update_campaigns (\<lambda>c. cmp_id c = cid) (\<lambda>c. f (c\<lparr>cmp_generation_id := g\<rparr>)) s
      else violates s)"

definition insert_generation :: "generation_row \<Rightarrow> unit db_tx" where
  "insert_generation g s =
     (if gen_ref g \<in> gen_ref ` set (generations s)
         \<or> gen_campaign_id g \<notin> cmp_id ` set (campaigns s)
         \<or> length (gen_snapshot_digest g) \<noteq> 64
         \<or> (case gen_commitment g of None \<Rightarrow> False | Some c \<Rightarrow> length c \<noteq> 64)
      then violates s
      else Inr ((), s\<lparr>generations := generations s @ [g]\<rparr>))"

text \<open>\<open>generations_status_one_way\<close>: only from active to discarded.\<close>

definition discard_generation :: "nat \<Rightarrow> unit db_tx" where
  "discard_generation gid s =
     (if list_all (\<lambda>g. gen_id g = gid \<longrightarrow> gen_status g = GEN_ACTIVE) (generations s)
      then Inr ((), s\<lparr>generations :=
             update_where (\<lambda>g. gen_id g = gid) (\<lambda>g. g\<lparr>gen_status := GEN_DISCARDED\<rparr>) (generations s)\<rparr>)
      else violates s)"

definition job_check :: "job_row \<Rightarrow> bool" where
  "job_check j \<longleftrightarrow>
     (job_payload j = None) = (job_payload_digest j = None) \<and>
     (job_payload j = None) = (job_skip_reason j \<noteq> None) \<and>
     (job_state j = SKIPPED_PLATFORM_POLICY) = (job_payload j = None) \<and>
     (case job_payload_digest j of None \<Rightarrow> True | Some d \<Rightarrow> is_hex64 d)"

definition insert_job :: "job_row \<Rightarrow> unit db_tx" where
  "insert_job j s =
     (if job_ref j \<in> job_ref ` set (delivery_jobs s)
         \<or> job_generation_id j \<notin> gen_id ` set (generations s)
         \<or> job_transport j \<notin> set TRANSPORT_NAMES
         \<or> \<not> list_ex (\<lambda>i. idn_id i = job_identity_id j \<and> idn_transport i = job_transport j)
               (delivery_identities s)
         \<or> length (job_key j) \<noteq> 64 \<or> job_key j \<in> job_key ` set (delivery_jobs s)
         \<or> (job_generation_id j, job_transport j, job_identity_id j)
             \<in> (\<lambda>r. (job_generation_id r, job_transport r, job_identity_id r)) ` set (delivery_jobs s)
         \<or> \<not> job_check j
      then violates s
      else Inr ((), s\<lparr>delivery_jobs := delivery_jobs s @ [j]\<rparr>))"

definition update_jobs :: "(job_row \<Rightarrow> bool) \<Rightarrow> (job_row \<Rightarrow> job_row) \<Rightarrow> nat db_tx" where
  "update_jobs p f s =
     (let rows = update_where p f (delivery_jobs s)
      in if list_all job_check rows
         then Inr (length (filter p (delivery_jobs s)), s\<lparr>delivery_jobs := rows\<rparr>)
         else violates s)"

text \<open>An origin's endpoint is a destination or contact point of its job's identity.\<close>

definition insert_origin :: "origin_row \<Rightarrow> unit db_tx" where
  "insert_origin r s =
     (if org_path r \<noteq> [] \<and> last (org_path r) = org_endpoint_ref r
         \<and> list_ex (\<lambda>j. job_id j = org_job_id r \<and>
              (list_ex (\<lambda>d. dst_ref d = org_endpoint_ref r \<and> dst_identity_id d = job_identity_id j
                            \<and> dst_transport d = job_transport j) (destinations s)
               \<or> list_ex (\<lambda>c. cp_ref c = org_endpoint_ref r \<and> cp_identity_id c = job_identity_id j
                            \<and> cp_transport c = job_transport j) (contact_points s)))
              (delivery_jobs s)
      then Inr ((), s\<lparr>job_origins := job_origins s @ [r]\<rparr>)
      else violates s)"

definition attempt_check :: "attempt_row \<Rightarrow> bool" where
  "attempt_check a \<longleftrightarrow>
     1 \<le> att_no a \<and> (att_finished_at a = None) = (att_outcome a = None) \<and>
     (case att_outcome a of None \<Rightarrow> True | Some k \<Rightarrow> k \<in> set OUTCOMES)"

definition insert_attempt :: "attempt_row \<Rightarrow> unit db_tx" where
  "insert_attempt a s =
     (if att_ref a \<in> att_ref ` set (delivery_attempts s)
         \<or> att_job_id a \<notin> job_id ` set (delivery_jobs s)
         \<or> (att_job_id a, att_no a) \<in> (\<lambda>r. (att_job_id r, att_no r)) ` set (delivery_attempts s)
         \<or> \<not> attempt_check a
      then violates s
      else Inr ((), s\<lparr>delivery_attempts := delivery_attempts s @ [a]\<rparr>))"

text \<open>\<open>UPDATE delivery_attempts SET outcome, finished_at\<close>.\<close>

definition update_attempt_outcome ::
  "(attempt_row \<Rightarrow> bool) \<Rightarrow> (attempt_row \<Rightarrow> attempt_row) \<Rightarrow> unit db_tx" where
  "update_attempt_outcome p f s =
     (let rows = update_where p f (delivery_attempts s)
      in if list_all attempt_check rows then Inr ((), s\<lparr>delivery_attempts := rows\<rparr>) else violates s)"

text \<open>\<open>attempts_provider_ref_set_once\<close>; the statement itself only touches rows without one.\<close>

definition bind_attempt_ref :: "nat \<Rightarrow> string \<Rightarrow> nat db_tx" where
  "bind_attempt_ref aid ref s =
     (let p = (\<lambda>a. att_id a = aid \<and> att_provider_ref a = None)
      in Inr (length (filter p (delivery_attempts s)),
              s\<lparr>delivery_attempts :=
                  update_where p (\<lambda>a. a\<lparr>att_provider_ref := Some ref\<rparr>) (delivery_attempts s)\<rparr>))"

text \<open>\<open>attempts_request_key_set_once\<close> and \<open>attempts_request_key_scoped_unique\<close>.\<close>

definition set_request_key :: "nat \<Rightarrow> string \<Rightarrow> string \<Rightarrow> unit db_tx" where
  "set_request_key aid key actor s =
     (if list_all (\<lambda>a. att_id a = aid \<longrightarrow> att_request_key a = None \<and> att_actor a = None \<and>
           \<not> list_ex (\<lambda>b. att_actor b = Some actor \<and> att_request_key b = Some key
                          \<and> att_job_id b \<noteq> att_job_id a) (delivery_attempts s))
           (delivery_attempts s)
      then Inr ((), s\<lparr>delivery_attempts :=
             update_where (\<lambda>a. att_id a = aid)
               (\<lambda>a. a\<lparr>att_request_key := Some key, att_actor := Some actor\<rparr>) (delivery_attempts s)\<rparr>)
      else violates s)"

definition set_outcome_code :: "nat \<Rightarrow> string \<Rightarrow> unit db_tx" where
  "set_outcome_code aid code s =
     (if list_all (\<lambda>a. att_id a = aid \<longrightarrow> att_outcome_code a = None) (delivery_attempts s)
      then Inr ((), s\<lparr>delivery_attempts :=
             update_where (\<lambda>a. att_id a = aid) (\<lambda>a. a\<lparr>att_outcome_code := Some code\<rparr>)
               (delivery_attempts s)\<rparr>)
      else violates s)"

definition provider_event_check :: "provider_event_row \<Rightarrow> bool" where
  "provider_event_check e \<longleftrightarrow>
     pev_transport e \<in> set TRANSPORT_NAMES \<and> pev_status e \<in> set REPORTABLE \<and>
     (pev_disposition e = Pending_match \<longrightarrow> pev_attempt_id e = None) \<and>
     (pev_disposition e \<in> {Applied, Recorded} \<longrightarrow> pev_attempt_id e \<noteq> None)"

definition insert_provider_event :: "provider_event_row \<Rightarrow> unit db_tx" where
  "insert_provider_event e s =
     (if (pev_transport e, pev_event_ref e)
           \<in> (\<lambda>r. (pev_transport r, pev_event_ref r)) ` set (provider_events s)
         \<or> (case pev_job_id e of None \<Rightarrow> False | Some j \<Rightarrow> j \<notin> job_id ` set (delivery_jobs s))
         \<or> (case pev_attempt_id e of None \<Rightarrow> False
            | Some a \<Rightarrow> a \<notin> att_id ` set (delivery_attempts s))
         \<or> \<not> provider_event_check e
      then violates s
      else Inr ((), s\<lparr>provider_events := provider_events s @ [e]\<rparr>))"

text \<open>\<open>provider_events_only_pending_resolves\<close>.\<close>

definition resolve_provider_event ::
  "nat \<Rightarrow> (provider_event_row \<Rightarrow> provider_event_row) \<Rightarrow> unit db_tx" where
  "resolve_provider_event eid f s =
     (let rows = update_where (\<lambda>e. pev_id e = eid) f (provider_events s)
      in if list_all (\<lambda>e. pev_id e = eid \<longrightarrow> pev_disposition e = Pending_match) (provider_events s)
            \<and> list_all provider_event_check rows
         then Inr ((), s\<lparr>provider_events := rows\<rparr>)
         else violates s)"

definition insert_campaign_event :: "campaign_event_row \<Rightarrow> unit db_tx" where
  "insert_campaign_event e s =
     (if cev_ref e \<in> cev_ref ` set (campaign_events s) then violates s
      else Inr ((), s\<lparr>campaign_events := campaign_events s @ [e]\<rparr>))"

definition insert_audit_event :: "audit_event_row \<Rightarrow> unit db_tx" where
  "insert_audit_event e s =
     (if aev_event_id e \<in> aev_event_id ` set (audit_events s)
         \<or> aev_epoch e < 1 \<or> aev_seq e < 1
         \<or> (aev_epoch e, aev_seq e) \<in> (\<lambda>r. (aev_epoch r, aev_seq r)) ` set (audit_events s)
      then violates s
      else Inr ((), s\<lparr>audit_events := audit_events s @ [e]\<rparr>))"

definition insert_checkpoint_row :: "checkpoint_row \<Rightarrow> unit db_tx" where
  "insert_checkpoint_row c s =
     (if ack_ref c \<in> ack_ref ` set (audit_checkpoints s) then violates s
      else Inr ((), s\<lparr>audit_checkpoints := audit_checkpoints s @ [c]\<rparr>))"

end
