(* ===== verification/Comms_Validators.thy ===== *)
theory Comms_Validators
  imports Comms_Schema
begin

text \<open>
  \<open>core/validators.py\<close>, the key purposes of \<open>core/keys/purposes.py\<close>, the capability names of
  \<open>core/providers/capability.py\<close>, and the typed audit events of \<open>core/audit/specs.py\<close>: every
  payload key has a validator over a finite domain and nothing else is accepted.
\<close>

section \<open>core/validators.py\<close>

type_synonym validator = "json \<Rightarrow> bool"

text \<open>A Python string whose code points are all below 256; every other string is refused by each
  of the validators below, since they all want ASCII.\<close>

definition latin :: "pytext \<Rightarrow> string option" where
  "latin cs = (if list_all (\<lambda>c. c < 256) cs then Some (map char_of cs) else None)"

definition on_str :: "(string \<Rightarrow> bool) \<Rightarrow> validator" where
  "on_str p v = (case v of JStr cs \<Rightarrow> (case latin cs of None \<Rightarrow> False | Some s \<Rightarrow> p s) | _ \<Rightarrow> False)"

definition ref_v :: "string \<Rightarrow> validator" where
  "ref_v kind = on_str (\<lambda>s. is_ok (check s kind))"

definition one_of :: "string list \<Rightarrow> validator" where
  "one_of values = on_str (\<lambda>s. s \<in> set values)"

text \<open>\<open>type(value) is int\<close>: a bool is not an int here.\<close>

definition count_v :: "int \<Rightarrow> validator" where
  "count_v minimum v = (case v of JInt i \<Rightarrow> minimum \<le> i | _ \<Rightarrow> False)"

definition digest_v :: validator where
  "digest_v = on_str is_hex64"

definition key_id_v :: validator where
  "key_id_v = on_str (\<lambda>s.
     list_ex (\<lambda>p. take (length p) s = p \<and> is_hex64 (drop (length p) s))
       [''hmac:sha256:'', ''ed25519:sha256:'', ''x25519:sha256:''])"

definition time_v :: validator where
  "time_v = on_str (\<lambda>s. is_ok (parse_iso s))"

definition nullable :: "validator \<Rightarrow> validator" where
  "nullable p v \<longleftrightarrow> v = JNull \<or> p v"

definition opaque_ref_v :: validator where
  "opaque_ref_v = on_str (\<lambda>s. is_ok (validate_ref_format s))"

section \<open>core/keys/purposes.py\<close>

datatype rotation = Seal_epoch | New_id | Invalidate | Rekey | Staged | Refused_rotation

datatype destroy =
    At_rotation | After_epoch_truncated | While_commitments_retained | At_once
  | After_verified_reopen | While_dependency_proven | Owner_runbook

record key_purpose =
  kp_name :: string
  kp_kind :: string
  kp_rotation :: rotation
  kp_public_registry :: bool
  kp_private_destroy :: destroy

definition purpose_row :: "string \<Rightarrow> string \<Rightarrow> rotation \<Rightarrow> bool \<Rightarrow> destroy \<Rightarrow> string \<times> key_purpose" where
  "purpose_row name kind rot public destroy =
     (name, \<lparr>kp_name = name, kp_kind = kind, kp_rotation = rot, kp_public_registry = public,
             kp_private_destroy = destroy\<rparr>)"

definition PURPOSES :: "(string \<times> key_purpose) list" where
  "PURPOSES = [
     purpose_row ''audit-chain-key'' ''hmac'' Seal_epoch False After_epoch_truncated,
     purpose_row ''audit-checkpoint-key'' ''ed25519'' New_id True At_rotation,
     purpose_row ''campaign-commit-key'' ''hmac'' New_id False While_commitments_retained,
     purpose_row ''backup-key'' ''ed25519'' New_id True At_rotation,
     purpose_row ''cursor-key'' ''hmac'' Invalidate False At_once,
     purpose_row ''comms-db-key'' ''raw256'' Rekey False After_verified_reopen,
     purpose_row ''cml1-client-seed'' ''hmac'' New_id False At_rotation,
     purpose_row ''oauth-signing-key'' ''ed25519'' New_id True At_rotation,
     purpose_row ''oauth-refresh-key'' ''hmac'' New_id False At_rotation,
     purpose_row ''oauth-registration-key'' ''hmac'' New_id False At_rotation,
     purpose_row ''telegram-session'' ''opaque'' Staged False At_rotation,
     purpose_row ''telegram-bot-token'' ''opaque'' Staged False At_rotation,
     purpose_row ''meta-access-token'' ''opaque'' Staged False At_rotation,
     purpose_row ''meta-app-secret'' ''opaque'' Staged False At_rotation,
     purpose_row ''meta-webhook-secret'' ''opaque'' Staged False At_rotation,
     purpose_row ''tls-key'' ''opaque'' New_id False At_rotation,
     purpose_row ''principal-key'' ''hmac'' Refused_rotation False While_dependency_proven,
     purpose_row ''privacy-key'' ''hmac'' Refused_rotation False While_dependency_proven,
     purpose_row ''disclosure-key'' ''ed25519'' Refused_rotation True Owner_runbook,
     purpose_row ''consent-approval-key'' ''p256'' Refused_rotation True Owner_runbook,
     purpose_row ''consent-transport-key'' ''p256'' Refused_rotation True Owner_runbook,
     purpose_row ''relay-age-key'' ''x25519'' New_id False At_rotation,
     purpose_row ''relay-pull-key'' ''hmac'' New_id False At_rotation]"

definition INSTAGRAM_TOKEN :: string where
  "INSTAGRAM_TOKEN = ''meta-ig-access-token.''"

definition is_alias_char :: "char \<Rightarrow> bool" where
  "is_alias_char c \<longleftrightarrow> is_az c \<or> is_digit c \<or> c = CHR ''_'' \<or> c = CHR ''-''"

fun contains_word :: "string \<Rightarrow> string \<Rightarrow> bool" where
  "contains_word w [] = (w = [])"
| "contains_word w (c # cs) = (take (length w) (c # cs) = w \<or> contains_word w cs)"

definition instagram_alias :: "string \<Rightarrow> string option" where
  "instagram_alias alias =
     (if 1 \<le> length alias \<and> length alias \<le> 32 \<and> list_all is_alias_char alias
         \<and> \<not> list_ex (\<lambda>w. contains_word w alias)
               [''token'', ''secret'', ''key'', ''password'', ''seed'']
      then Some alias else None)"

definition purpose_of :: "string \<Rightarrow> key_purpose option" where
  "purpose_of name =
     (case map_of PURPOSES name of
        Some p \<Rightarrow> Some p
      | None \<Rightarrow>
          (if take (length INSTAGRAM_TOKEN) name = INSTAGRAM_TOKEN
              \<and> instagram_alias (drop (length INSTAGRAM_TOKEN) name) \<noteq> None
           then Some (snd (purpose_row name ''opaque'' Staged False At_rotation))
           else None))"

section \<open>core/providers/capability.py\<close>

definition CAPABILITIES :: "string list" where
  "CAPABILITIES = [
    ''message.send'', ''message.edit'', ''message.delete'', ''message.forward'', ''message.pin'',
    ''member.list'', ''member.get'', ''member.add'', ''member.remove'', ''member.ban'',
    ''member.unban'', ''member.restrict'', ''member.tag'', ''reaction.remove'',
    ''reaction.clear'', ''phone_number.health'', ''admin.list'', ''admin.promote'',
    ''admin.demote'', ''admin.log.read'', ''invite.create'', ''invite.edit'', ''invite.revoke'',
    ''invite.list'', ''join_request.list'', ''join_request.approve'', ''join_request.reject'',
    ''chat.set_title'', ''chat.set_description'', ''chat.set_photo'', ''chat.set_permissions'',
    ''topic.list'', ''topic.create'', ''topic.edit'', ''topic.close'', ''topic.reopen'',
    ''history.read'', ''history.search'', ''group.create'', ''group.delete'', ''group.migrate'',
    ''message.reply'', ''message.mark_read'', ''message.send_text'', ''message.send_image'',
    ''message.send_video'', ''message.send_audio'', ''message.send_document'',
    ''message.send_location'', ''message.send_contacts'', ''message.send_interactive'',
    ''message.send_template'', ''media.upload'', ''media.retrieve'', ''media.delete'',
    ''template.list'', ''template.get'', ''template.create'', ''template.edit'',
    ''template.delete'', ''webhook.receive_message'', ''webhook.receive_status'',
    ''account.inspect'', ''phone_number.inspect'', ''group.list'', ''group.get'',
    ''group.members'', ''group.member.remove'', ''group.invite.get'', ''group.invite.reset'',
    ''group.settings.update'', ''group.message.send'', ''message.send_media'', ''profile.read'',
    ''media.list'', ''media.get'', ''insights.read'', ''comment.list'', ''tag.list'',
    ''publishing.quota_read'', ''media.container_create'', ''media.carousel_create'',
    ''media.publish'', ''comment.reply'', ''comment.hide'', ''comment.delete'',
    ''media.comments_toggle'']"

section \<open>core/audit/specs.py\<close>

definition RETENTION_PHASES :: "string list" where
  "RETENTION_PHASES = [''legacy_exposure'', ''legacy_chain'', ''legacy_receipts'',
     ''legacy_message_refs'', ''comms_chain'', ''campaign_bodies'', ''inbound_bodies'',
     ''identities'', ''public_keys'', ''secrets'']"

definition credential_v :: validator where
  "credential_v = on_str (\<lambda>s.
     case purpose_of s of None \<Rightarrow> False | Some p \<Rightarrow> kp_rotation p = Staged)"

definition tool_v :: validator where
  "tool_v = on_str (\<lambda>s. take 6 s = ''comms_'' \<and> 7 \<le> length s \<and> length s \<le> 70
     \<and> list_all (\<lambda>c. is_az c \<or> is_digit c \<or> c = CHR ''_'') (drop 6 s))"

definition is_upper_az :: "char \<Rightarrow> bool" where
  "is_upper_az c \<longleftrightarrow> char_between (CHR ''A'') (CHR ''Z'') c"

definition code_v :: validator where
  "code_v = on_str (\<lambda>s. case s of [] \<Rightarrow> False
     | c # cs \<Rightarrow> is_upper_az c \<and> length cs \<le> 39
         \<and> list_all (\<lambda>c. is_upper_az c \<or> c = CHR ''_'') cs)"

definition EVENT_TYPES :: "string list" where
  "EVENT_TYPES = [''campaign.created'', ''campaign.modified'', ''campaign.validated'',
     ''campaign.scheduled'', ''campaign.unscheduled'', ''campaign.send_started'',
     ''campaign.transport_completed'', ''campaign.retry_started'', ''campaign.completed'',
     ''campaign.summary_changed'', ''campaign.cancelled'', ''delivery.outcome_resolved'',
     ''delivery.provider_update_refused'']"

definition COMMITTED_EVENT_TYPES :: "string list" where
  "COMMITTED_EVENT_TYPES = [''campaign.send_started'', ''campaign.scheduled'']"

definition ACTORS :: "string list" where
  "ACTORS = [''telegram_bot'', ''telegram_user'', ''whatsapp_cloud'', ''whatsapp_webhooks'',
     ''instagram'']"

definition AUDIT_EVENT_SPECS :: "(string \<times> (string \<times> validator) list) list" where
  "AUDIT_EVENT_SPECS = [
     (''campaign_event'', [(''event_type'', one_of EVENT_TYPES)]),
     (''system.test_marker'', [(''count'', count_v 0)]),
     (''system.audit_cutover'', [
        (''legacy_checkpoint_digest'', digest_v), (''legacy_final_epoch'', count_v 1),
        (''legacy_final_head'', digest_v), (''legacy_checkpoint_key_id'', key_id_v),
        (''comms_chain_domain'', one_of [''comms-audit-chain/v1'']),
        (''comms_epoch'', count_v 1), (''comms_audit_key_id'', key_id_v)]),
     (''system.legacy_client_auth_revoked'', [
        (''revoked_count'', count_v 0), (''security_epoch'', count_v 1)]),
     (''campaign_event_committed'', [
        (''event_type'', one_of [''campaign.send_started'', ''campaign.scheduled'']),
        (''commitment'', digest_v), (''commit_key_id'', key_id_v),
        (''generation'', ref_v ''generation'')]),
     (''admin.signer_trust'', [
        (''key_id'', key_id_v),
        (''from_state'', one_of [''ACTIVE'', ''TRUSTED_RETIRED'', ''VERIFICATION_ONLY'']),
        (''to_state'', one_of [''TRUSTED_RETIRED'', ''VERIFICATION_ONLY'', ''REVOKED''])]),
     (''admin.credential_rotation'', [
        (''purpose'', credential_v), (''old_version'', count_v 0), (''new_version'', count_v 1)]),
     (''admin.credential_rotation_rolled_back'', [
        (''purpose'', credential_v), (''restored_version'', count_v 0),
        (''orphaned_version'', count_v 1)]),
     (''admin.credential_revoked'', [(''purpose'', credential_v), (''version'', count_v 1)]),
     (''admin.session_revoke'', [
        (''phase'', one_of [''started'', ''finished'']),
        (''outcome'', one_of [''pending'', ''confirmed'', ''failed'', ''unknown'', ''aborted'']),
        (''security_epoch'', count_v 1)]),
     (''maintenance.retention_purge'',
        map (\<lambda>phase. (phase, count_v 0)) RETENTION_PHASES @
        [(''comms_root'', nullable (ref_v ''audit_checkpoint'')),
         (''legacy_root'', nullable opaque_ref_v)]),
     (''admin.audit_repair'', [
        (''anchor_epoch'', count_v 1), (''anchor_seq'', count_v 1),
        (''head_epoch'', count_v 1), (''head_seq'', count_v 1)]),
     (''admin.backup_import'', [(''binding'', digest_v), (''chain_key_id'', key_id_v)]),
     (''admin.backup_adopt'', [(''old_binding'', digest_v), (''new_binding'', digest_v)]),
     (''admin.backup_export'', [
        (''binding'', digest_v), (''ciphertext_sha256'', digest_v), (''signer_key_id'', key_id_v)]),
     (''admin.key_rotation'', [
        (''purpose'', one_of (map fst PURPOSES)), (''old_version'', count_v 0),
        (''new_version'', count_v 1), (''key_id'', key_id_v)]),
     (''admin.mutation_started'', [
        (''tool'', tool_v), (''scope'', one_of [''local'', ''provider'']),
        (''actor'', nullable (one_of ACTORS))]),
     (''admin.mutation_step'', [
        (''step_no'', count_v 1), (''capability'', one_of CAPABILITIES),
        (''state'', one_of [''SUCCEEDED'', ''FAILED'', ''OUTCOME_UNKNOWN'']),
        (''provider_code'', nullable code_v)]),
     (''admin.mutation_finished'', [
        (''state'', one_of [''SUCCEEDED'', ''FAILED'', ''OUTCOME_UNKNOWN'']),
        (''provider_code'', nullable code_v)]),
     (''admin.instagram_account'', [
        (''action'', one_of [''added'', ''removed'', ''token_refreshed'', ''identity_mismatch''])])]"

definition SUBJECT_KINDS :: "(string \<times> string option) list" where
  "SUBJECT_KINDS = [
     (''campaign_event'', Some ''event''), (''system.test_marker'', None),
     (''system.audit_cutover'', Some ''cutover''),
     (''system.legacy_client_auth_revoked'', Some ''cutover''),
     (''campaign_event_committed'', Some ''event''), (''admin.signer_trust'', None),
     (''admin.credential_rotation'', None), (''admin.credential_rotation_rolled_back'', None),
     (''admin.credential_revoked'', None), (''admin.session_revoke'', None),
     (''maintenance.retention_purge'', None), (''admin.audit_repair'', None),
     (''admin.backup_import'', None), (''admin.backup_adopt'', None),
     (''admin.backup_export'', None), (''admin.key_rotation'', None),
     (''admin.mutation_started'', Some ''operation''),
     (''admin.mutation_step'', Some ''operation''),
     (''admin.mutation_finished'', Some ''operation''),
     (''admin.instagram_account'', Some ''instagram_account'')]"

definition validate_audit_event ::
  "string \<Rightarrow> string option \<Rightarrow> string option \<Rightarrow> (string \<times> json) list \<Rightarrow> unit res" where
  "validate_audit_event kind subject_ref subject_digest payload =
     (case map_of AUDIT_EVENT_SPECS kind of
        None \<Rightarrow> Inl (ValueError ''unknown audit event kind'')
      | Some spec \<Rightarrow>
          if set (map fst payload) \<noteq> set (map fst spec)
          then Inl (ValueError ''audit payload keys refused'')
          else if list_ex (\<lambda>(key, value).
                 case map_of spec key of None \<Rightarrow> True | Some p \<Rightarrow> \<not> p value) payload
          then Inl (ValueError ''audit payload field refused'')
          else case map_of SUBJECT_KINDS kind of
                 None \<Rightarrow> Inl (KeyError kind)
               | Some None \<Rightarrow>
                   if subject_ref \<noteq> None \<or> subject_digest \<noteq> None
                   then Inl (ValueError ''audit event takes no subject'') else Inr ()
               | Some (Some subject_kind) \<Rightarrow>
                   (case subject_ref of
                      None \<Rightarrow> Inl (ValueError ''audit subject refused'')
                    | Some r \<Rightarrow>
                        if \<not> is_ok (check r subject_kind)
                        then Inl (ValueError ''audit subject refused'')
                        else case subject_digest of
                               None \<Rightarrow> Inr ()
                             | Some d \<Rightarrow> if is_hex64 d then Inr ()
                                 else Inl (ValueError ''audit subject digest refused'')))"

end
