(* ===== verification/Comms_Chain.thy ===== *)
theory Comms_Chain
  imports Comms_Validators
begin

text \<open>
  The audit chain engine (\<open>core/audit/chain.py\<close>) at the comms profile, and key IDs
  (\<open>core/keys/ids.py\<close>). SHA-256, HMAC and Ed25519 are arguments (the record \<open>crypto\<close>): nothing
  about them is assumed here, and the theorems that depend on them say which collision or
  signature fact they rest on. Keys and digests are byte and hex strings.
\<close>

record crypto =
  sha256_hex :: "bytes \<Rightarrow> string"
  hmac_sha256_hex :: "bytes \<Rightarrow> bytes \<Rightarrow> string"
  ed25519_public :: "bytes \<Rightarrow> bytes"
  ed25519_sign_hex :: "bytes \<Rightarrow> bytes \<Rightarrow> string"
  ed25519_verify :: "bytes \<Rightarrow> bytes \<Rightarrow> bytes \<Rightarrow> bool"

section \<open>core/keys/ids.py\<close>

definition hmac_key_id :: "crypto \<Rightarrow> bytes \<Rightarrow> string" where
  "hmac_key_id cr secret = ''hmac:sha256:'' @ sha256_hex cr secret"

definition ed25519_key_id :: "crypto \<Rightarrow> bytes \<Rightarrow> string" where
  "ed25519_key_id cr public = ''ed25519:sha256:'' @ sha256_hex cr public"

definition opaque_key_id :: "crypto \<Rightarrow> bytes \<Rightarrow> string" where
  "opaque_key_id cr value = ''opaque:sha256:'' @ sha256_hex cr value"

definition x25519_key_id :: "crypto \<Rightarrow> bytes \<Rightarrow> string" where
  "x25519_key_id cr public = ''x25519:sha256:'' @ sha256_hex cr public"

section \<open>core/domains.py\<close>

definition domain_tag :: "string \<Rightarrow> bytes" where
  "domain_tag s = s @ [char_of (0 :: nat)]"

definition AUDIT_CHAIN :: bytes where "AUDIT_CHAIN = domain_tag ''comms-audit-chain/v1''"
definition AUDIT_GENESIS :: bytes where "AUDIT_GENESIS = domain_tag ''comms-audit-genesis/v1''"
definition AUDIT_CHECKPOINT :: bytes where
  "AUDIT_CHECKPOINT = domain_tag ''comms-audit-checkpoint/v1''"
definition AUDIT_HEAD_ANCHOR :: bytes where
  "AUDIT_HEAD_ANCHOR = domain_tag ''comms/audit-head-anchor/v1''"
definition IDEMPOTENCY :: bytes where "IDEMPOTENCY = domain_tag ''comms-delivery-idem/v1''"
definition SNAPSHOT :: bytes where "SNAPSHOT = domain_tag ''comms-campaign-snapshot/v1''"
definition TARGET :: bytes where "TARGET = domain_tag ''comms-campaign-target/v1''"
definition RECIPIENTS :: bytes where "RECIPIENTS = domain_tag ''comms-campaign-recipients/v1''"
definition CAMPAIGN_EVENT :: bytes where "CAMPAIGN_EVENT = domain_tag ''comms-campaign-event/v1''"
definition CAMPAIGN_COMMIT :: bytes where
  "CAMPAIGN_COMMIT = domain_tag ''comms-campaign-commit/v1''"

section \<open>Byte helpers of the standard library\<close>

definition u64 :: "nat \<Rightarrow> bytes res" where
  "u64 n = (if n < 2 ^ 64 then Inr (map char_of (to_bytes_be 8 n))
            else Inl (OverflowError ''int too big to convert''))"

lemma u64_code [code]:
  "u64 n = (if int n < 18446744073709551616 then Inr (map char_of (to_bytes_be 8 n))
            else Inl (OverflowError ''int too big to convert''))"
  by (simp add: u64_def)

definition hex_value :: "char \<Rightarrow> nat option" where
  "hex_value c =
     (let n = (of_char c :: nat)
      in if 48 \<le> n \<and> n \<le> 57 then Some (n - 48)
         else if 97 \<le> n \<and> n \<le> 102 then Some (n - 87)
         else if 65 \<le> n \<and> n \<le> 70 then Some (n - 55)
         else None)"

definition is_py_space :: "char \<Rightarrow> bool" where
  "is_py_space c \<longleftrightarrow> (of_char c :: nat) \<in> {9, 10, 11, 12, 13, 32}"

text \<open>\<open>bytes.fromhex\<close>: ASCII white space between bytes is skipped.\<close>

fun fromhex :: "string \<Rightarrow> bytes res" where
  "fromhex [] = Inr []"
| "fromhex [c] = (if is_py_space c then Inr []
                  else Inl (ValueError ''non-hexadecimal number found in fromhex() arg''))"
| "fromhex (c # d # cs) =
     (if is_py_space c then fromhex (d # cs)
      else case (hex_value c, hex_value d) of
             (Some x, Some y) \<Rightarrow> res_bind (fromhex cs) (\<lambda>bs. Inr (char_of (16 * x + y) # bs))
           | _ \<Rightarrow> Inl (ValueError ''non-hexadecimal number found in fromhex() arg''))"

section \<open>Events\<close>

record audit_event =
  ev_event_id :: string
  ev_ts :: string
  ev_kind :: string
  ev_subject_ref :: "string option"
  ev_subject_digest :: "string option"
  ev_payload :: string

definition event_of_row :: "audit_event_row \<Rightarrow> audit_event" where
  "event_of_row r = \<lparr>ev_event_id = aev_event_id r, ev_ts = aev_ts r, ev_kind = aev_kind r,
     ev_subject_ref = aev_subject_ref r, ev_subject_digest = aev_subject_digest r,
     ev_payload = aev_payload r\<rparr>"

definition jopt :: "string option \<Rightarrow> json" where
  "jopt v = (case v of None \<Rightarrow> JNull | Some s \<Rightarrow> jstr s)"

definition event_json :: "audit_event \<Rightarrow> json" where
  "event_json e = JObj [
     (jstr ''event_id'', jstr (ev_event_id e)), (jstr ''ts'', jstr (ev_ts e)),
     (jstr ''kind'', jstr (ev_kind e)), (jstr ''subject_ref'', jopt (ev_subject_ref e)),
     (jstr ''subject_digest'', jopt (ev_subject_digest e)), (jstr ''payload'', jstr (ev_payload e))]"

definition validate_comms_event :: "audit_event \<Rightarrow> unit res" where
  "validate_comms_event e =
     (if is_ok (check (ev_event_id e) ''audit_event'') then Inr ()
      else Inl (ChainError ''comms audit event id is invalid''))"

definition genesis_mac :: "crypto \<Rightarrow> nat \<Rightarrow> string res" where
  "genesis_mac cr epoch = res_bind (u64 epoch) (\<lambda>b. Inr (sha256_hex cr (AUDIT_GENESIS @ b)))"

definition mac_message :: "nat \<Rightarrow> nat \<Rightarrow> string \<Rightarrow> audit_event \<Rightarrow> bytes res" where
  "mac_message epoch seq prev event =
     res_bind (u64 epoch) (\<lambda>e.
     res_bind (u64 seq) (\<lambda>q.
     res_bind (fromhex prev) (\<lambda>p.
     res_bind (jcs_dumps (event_json event)) (\<lambda>body.
       Inr (AUDIT_CHAIN @ e @ q @ p @ body)))))"

definition event_mac :: "crypto \<Rightarrow> bytes \<Rightarrow> nat \<Rightarrow> nat \<Rightarrow> string \<Rightarrow> audit_event \<Rightarrow> string res" where
  "event_mac cr key epoch seq prev event =
     res_bind (mac_message epoch seq prev event) (\<lambda>m. Inr (hmac_sha256_hex cr key m))"

text \<open>\<open>ORDER BY chain_epoch, chain_seq\<close>.\<close>

definition chain_pos :: "audit_event_row \<Rightarrow> nat \<times> nat" where
  "chain_pos r = (aev_epoch r, aev_seq r)"

definition chain_rows :: "comms_db \<Rightarrow> audit_event_row list" where
  "chain_rows s = sort_key chain_pos (audit_events s)"

definition head :: "comms_db \<Rightarrow> audit_event_row option" where
  "head s = (case rev (chain_rows s) of [] \<Rightarrow> None | r # _ \<Rightarrow> Some r)"

definition require_chain_tx :: "unit db_tx" where
  "require_chain_tx s = (if in_transaction s then Inr ((), s)
     else Inl (ChainError ''an open BEGIN IMMEDIATE transaction is required''))"

definition insert_event :: "crypto \<Rightarrow> bytes \<Rightarrow> audit_event \<Rightarrow> nat \<Rightarrow> nat \<Rightarrow> string \<Rightarrow> audit_event_row db_tx" where
  "insert_event cr key event epoch seq prev =
     tx_then (tx_lift (validate_comms_event event))
     (tx_bind (tx_lift (event_mac cr key epoch seq prev event)) (\<lambda>mac.
      let row = \<lparr>aev_event_id = ev_event_id event, aev_ts = ev_ts event, aev_kind = ev_kind event,
                 aev_subject_ref = ev_subject_ref event,
                 aev_subject_digest = ev_subject_digest event, aev_payload = ev_payload event,
                 aev_epoch = epoch, aev_seq = seq, aev_prev_mac = prev, aev_mac = mac\<rparr>
      in tx_then (insert_audit_event row) (tx_return row)))"

definition chain_append :: "crypto \<Rightarrow> bytes \<Rightarrow> audit_event \<Rightarrow> audit_event_row db_tx" where
  "chain_append cr key event =
     tx_then require_chain_tx
     (tx_bind (tx_reads head) (\<lambda>current.
      case current of
        None \<Rightarrow> tx_bind (tx_lift (genesis_mac cr 1)) (\<lambda>g. insert_event cr key event 1 1 g)
      | Some h \<Rightarrow> insert_event cr key event (aev_epoch h) (aev_seq h + 1) (aev_mac h)))"

section \<open>Checkpoints\<close>

definition EPOCH_SEAL :: string where "EPOCH_SEAL = ''EPOCH_SEAL''"

definition checkpoint_message :: "checkpoint_row \<Rightarrow> bytes res" where
  "checkpoint_message c =
     res_bind (jcs_dumps (JObj [
       (jstr ''chain_epoch'', JInt (int (ack_epoch c))), (jstr ''chain_seq'', JInt (int (ack_seq c))),
       (jstr ''last_event_id'', jstr (ack_last_event_id c)),
       (jstr ''last_event_mac'', jstr (ack_last_event_mac c)),
       (jstr ''created_at'', jstr (ack_created_at c)), (jstr ''reason'', jstr (ack_reason c))]))
     (\<lambda>b. Inr (AUDIT_CHECKPOINT @ b))"

definition insert_checkpoint :: "crypto \<Rightarrow> bytes \<Rightarrow> string \<Rightarrow> string option \<Rightarrow> checkpoint_row db_tx" where
  "insert_checkpoint cr checkpoint_key now reason =
     tx_then require_chain_tx
     (case reason of
        None \<Rightarrow> tx_raise (ChainError ''checkpoint reason does not match the profile'')
      | Some why \<Rightarrow>
          tx_bind (tx_reads head) (\<lambda>current.
          case current of
            None \<Rightarrow> tx_raise (ChainError ''cannot checkpoint an empty chain'')
          | Some h \<Rightarrow>
              tx_bind (mint_ref ''audit_checkpoint'') (\<lambda>ref.
              let row = \<lparr>ack_ref = ref, ack_epoch = aev_epoch h, ack_seq = aev_seq h,
                         ack_last_event_id = aev_event_id h, ack_last_event_mac = aev_mac h,
                         ack_created_at = now, ack_reason = why,
                         ack_signing_key_id = ed25519_key_id cr (ed25519_public cr checkpoint_key),
                         ack_signature = []\<rparr>
              in tx_bind (tx_lift (checkpoint_message row)) (\<lambda>msg.
                 let signed = row\<lparr>ack_signature := ed25519_sign_hex cr checkpoint_key msg\<rparr>
                 in tx_then (insert_checkpoint_row signed) (tx_return signed)))))"

definition verify_signature :: "crypto \<Rightarrow> (string \<Rightarrow> bytes option) \<Rightarrow> checkpoint_row \<Rightarrow> unit res" where
  "verify_signature cr public_for c =
     (case public_for (ack_signing_key_id c) of
        None \<Rightarrow> Inl (ChainError ''checkpoint signing key is unknown'')
      | Some public \<Rightarrow>
          if ed25519_key_id cr public \<noteq> ack_signing_key_id c
          then Inl (ChainError ''checkpoint signing key is unknown'')
          else case (fromhex (ack_signature c), checkpoint_message c) of
                 (Inr sig, Inr msg) \<Rightarrow>
                   if ed25519_verify cr public sig msg then Inr ()
                   else Inl (ChainError ''checkpoint signature does not verify'')
               | _ \<Rightarrow> Inl (ChainError ''checkpoint signature does not verify''))"

definition checkpoint_rows :: "(checkpoint_row \<Rightarrow> bool) \<Rightarrow> comms_db \<Rightarrow> checkpoint_row list" where
  "checkpoint_rows p s = sort_key (\<lambda>c. (ack_epoch c, ack_seq c)) (filter p (audit_checkpoints s))"

definition verify_checkpoints :: "crypto \<Rightarrow> (string \<Rightarrow> bytes option) \<Rightarrow> comms_db \<Rightarrow> unit res" where
  "verify_checkpoints cr public_for s =
     res_bind (res_each (verify_signature cr public_for) (checkpoint_rows (\<lambda>_. True) s)) (\<lambda>_. Inr ())"

definition seal_and_open_epoch ::
  "crypto \<Rightarrow> bytes \<Rightarrow> bytes \<Rightarrow> bytes \<Rightarrow> audit_event \<Rightarrow> datetime \<Rightarrow> audit_event_row db_tx" where
  "seal_and_open_epoch cr old_key new_key checkpoint_key first_event now =
     tx_then require_chain_tx
     (tx_then (tx_guard (old_key \<noteq> new_key) (ChainError ''the new key must differ from the old key''))
     (tx_bind (tx_reads head) (\<lambda>current.
      case current of
        None \<Rightarrow> tx_raise (ChainError ''cannot seal an empty chain'')
      | Some h \<Rightarrow>
          tx_bind (tx_lift (event_mac cr old_key (aev_epoch h) (aev_seq h) (aev_prev_mac h)
                              (event_of_row h))) (\<lambda>recomputed.
          tx_then (tx_guard (recomputed = aev_mac h)
                     (ChainError ''the head does not verify under the old key''))
          (tx_bind (tx_lift (iso now)) (\<lambda>stamp.
           tx_then (insert_checkpoint cr checkpoint_key stamp (Some EPOCH_SEAL))
           (tx_bind (tx_lift (genesis_mac cr (aev_epoch h + 1))) (\<lambda>g.
            insert_event cr new_key first_event (aev_epoch h + 1) 1 g))))))))"

section \<open>Verification\<close>

text \<open>The seals by epoch, or the error that an epoch has two.\<close>

fun collect_seals :: "checkpoint_row list \<Rightarrow> (nat \<times> checkpoint_row) list \<Rightarrow> (nat \<times> checkpoint_row) list res" where
  "collect_seals [] seals = Inr seals"
| "collect_seals (c # cs) seals =
     (if ack_epoch c \<in> fst ` set seals then Inl (ChainError ''an epoch has two seals'')
      else collect_seals cs ((ack_epoch c, c) # seals))"

text \<open>The root: the first retained row is its event, and a stored checkpoint of it verifies.\<close>

definition check_root ::
  "crypto \<Rightarrow> (string \<Rightarrow> bytes option) option \<Rightarrow> checkpoint_row \<Rightarrow> audit_event_row \<Rightarrow> comms_db \<Rightarrow> unit res" where
  "check_root cr public_for root r s =
     (if (aev_epoch r, aev_seq r, aev_event_id r)
           \<noteq> (ack_epoch root, ack_seq root, ack_last_event_id root)
         \<or> aev_mac r \<noteq> ack_last_event_mac root
      then Inl (ChainError ''the first retained event is not the root's event'')
      else case public_for of
             None \<Rightarrow> Inr ()
           | Some pub \<Rightarrow>
               let signed = filter (\<lambda>c. ack_last_event_id c = ack_last_event_id root)
                     (checkpoint_rows (\<lambda>c. ack_epoch c = ack_epoch root \<and> ack_seq c = ack_seq root) s)
               in if signed = [] then Inl (ChainError ''the root is not a stored checkpoint'')
                  else res_bind (res_each (verify_signature cr pub) signed) (\<lambda>_. Inr ()))"

text \<open>What the loop expects of a row: its link and its sequence number. The first row of a rooted
  chain is taken as it is; the first row of an epoch links to the epoch's genesis.\<close>

definition expected_link ::
  "crypto \<Rightarrow> bool \<Rightarrow> (nat \<times> string \<times> nat) option \<Rightarrow> audit_event_row \<Rightarrow> (string \<times> nat) res" where
  "expected_link cr rooted st r =
     (case st of
        Some (epoch, prev, seq) \<Rightarrow>
          if aev_epoch r = epoch then Inr (prev, seq)
          else res_bind (genesis_mac cr (aev_epoch r)) (\<lambda>g. Inr (g, 1))
      | None \<Rightarrow>
          if rooted then Inr (aev_prev_mac r, aev_seq r)
          else res_bind (genesis_mac cr (aev_epoch r)) (\<lambda>g. Inr (g, 1)))"

definition check_seal ::
  "crypto \<Rightarrow> (string \<Rightarrow> bytes option) option \<Rightarrow> (nat \<times> checkpoint_row) list \<Rightarrow> audit_event_row \<Rightarrow> unit res" where
  "check_seal cr public_for seals r =
     (case map_of seals (aev_epoch r) of
        None \<Rightarrow> Inl (ChainError ''an epoch does not end at its seal'')
      | Some c \<Rightarrow>
          if (ack_seq c, ack_last_event_id c, ack_last_event_mac c)
               \<noteq> (aev_seq r, aev_event_id r, aev_mac r)
          then Inl (ChainError ''an epoch does not end at its seal'')
          else case public_for of
                 None \<Rightarrow> Inl (TypeError ''assertion failed'')
               | Some pub \<Rightarrow> verify_signature cr pub c)"

fun verify_rows ::
  "crypto \<Rightarrow> (nat \<Rightarrow> bytes option) \<Rightarrow> (string \<Rightarrow> bytes option) option \<Rightarrow> (nat \<times> checkpoint_row) list
     \<Rightarrow> nat \<Rightarrow> bool \<Rightarrow> (nat \<times> string \<times> nat) option \<Rightarrow> audit_event_row list \<Rightarrow> unit res" where
  "verify_rows cr key_for pub seals last_epoch rooted st [] = Inr ()"
| "verify_rows cr key_for pub seals last_epoch rooted st (r # rs) =
     res_bind (expected_link cr rooted st r) (\<lambda>(prev, seq).
     if aev_seq r \<noteq> seq then Inl (ChainError ''chain sequence is not continuous'')
     else if aev_prev_mac r \<noteq> prev
     then Inl (ChainError ''chain link does not match the previous event'')
     else case key_for (aev_epoch r) of
       None \<Rightarrow> Inl (ChainError ''no chain key for this epoch'')
     | Some key \<Rightarrow>
         res_bind (event_mac cr key (aev_epoch r) (aev_seq r) (aev_prev_mac r) (event_of_row r))
         (\<lambda>recomputed.
          if recomputed \<noteq> aev_mac r then Inl (ChainError ''event MAC does not verify'')
          else res_bind
            (if (case rs of [] \<Rightarrow> True | r' # _ \<Rightarrow> aev_epoch r' \<noteq> aev_epoch r)
                \<and> aev_epoch r \<noteq> last_epoch
             then check_seal cr pub seals r else Inr ())
            (\<lambda>_. verify_rows cr key_for pub seals last_epoch rooted
                   (Some (aev_epoch r, aev_mac r, aev_seq r + 1)) rs)))"

definition verify_chain ::
  "crypto \<Rightarrow> (nat \<Rightarrow> bytes option) \<Rightarrow> checkpoint_row option \<Rightarrow> (string \<Rightarrow> bytes option) option
     \<Rightarrow> comms_db \<Rightarrow> unit res" where
  "verify_chain cr key_for root public_for s =
     (case chain_rows s of
        [] \<Rightarrow> (if root \<noteq> None then Inl (ChainError ''the root's event row is missing'') else Inr ())
      | r # rs \<Rightarrow>
          let first_epoch = aev_epoch r; last_epoch = aev_epoch (last (r # rs))
          in if set (map aev_epoch (r # rs)) \<noteq> set [first_epoch..<Suc last_epoch]
             then Inl (ChainError ''chain epochs are not contiguous'')
             else if root = None \<and> first_epoch \<noteq> 1
             then Inl (ChainError ''the chain does not start at epoch 1'')
             else if first_epoch \<noteq> last_epoch \<and> public_for = None
             then Inl (ChainError ''verifying epoch seals needs public keys and a sealing profile'')
             else
               res_bind (collect_seals (checkpoint_rows (\<lambda>c. ack_reason c = EPOCH_SEAL) s) [])
               (\<lambda>seals.
                res_bind (case root of None \<Rightarrow> Inr () | Some rt \<Rightarrow> check_root cr public_for rt r s)
                (\<lambda>_.
                 res_bind (verify_rows cr key_for public_for seals last_epoch (root \<noteq> None) None (r # rs))
                 (\<lambda>_.
                  if last_epoch \<in> fst ` set seals
                  then Inl (ChainError ''the last epoch carries a seal: its successor is missing'')
                  else Inr ()))))"

end
