(* ===== verification/Comms_Events.thy ===== *)
theory Comms_Events
  imports Comms_Chain "HOL-Library.Sublist"
begin

text \<open>
  The audit integrity latch (\<open>core/audit/integrity.py\<close>), the open audited transaction
  (\<open>AuditTx\<close> of \<open>core/audit/writer.py\<close>) and the campaign event journal
  (\<open>core/campaigns/events.py\<close>).
\<close>

section \<open>core/audit/integrity.py\<close>

definition is_degraded :: "comms_db \<Rightarrow> bool" where
  "is_degraded s = int_degraded (audit_integrity s)"

definition latch_degraded :: "string \<Rightarrow> datetime \<Rightarrow> unit db_tx" where
  "latch_degraded reason now =
     write_tx (tx_bind (tx_lift (iso now)) (\<lambda>stamp.
       tx_modify (\<lambda>s. let i = audit_integrity s in
         if int_degraded i then s
         else s\<lparr>audit_integrity := i\<lparr>int_degraded := True,
                 int_reason := (case int_reason i of None \<Rightarrow> Some reason | r \<Rightarrow> r),
                 int_since := (case int_since i of None \<Rightarrow> Some stamp | t \<Rightarrow> t)\<rparr>\<rparr>)))"

definition require_not_degraded :: "unit db_tx" where
  "require_not_degraded s = (if is_degraded s then Inl AuditIntegrityDegraded else Inr ((), s))"

definition clear_degraded :: "unit db_tx" where
  "clear_degraded =
     write_tx (tx_modify (\<lambda>s. s\<lparr>audit_integrity :=
       (audit_integrity s)\<lparr>int_degraded := False, int_reason := None, int_since := None\<rparr>\<rparr>))"

section \<open>AuditTx (core/audit/writer.py)\<close>

record audit_tx =
  atx_crypto :: crypto
  atx_key :: bytes
  atx_now :: datetime

type_synonym payload = "(string \<times> json) list"

definition payload_json :: "payload \<Rightarrow> json" where
  "payload_json p = JObj (map (\<lambda>(k, v). (jstr k, v)) p)"

definition audit_event_of ::
  "audit_tx \<Rightarrow> string \<Rightarrow> string option \<Rightarrow> string option \<Rightarrow> payload \<Rightarrow> audit_event db_tx" where
  "audit_event_of tx kind subject_ref subject_digest payload =
     tx_then (tx_lift (validate_audit_event kind subject_ref subject_digest payload))
     (tx_bind (mint_ref ''audit_event'') (\<lambda>event_id.
      tx_bind (tx_lift (iso (atx_now tx))) (\<lambda>ts.
      tx_bind (tx_lift (jcs_dumps (payload_json payload))) (\<lambda>body.
      tx_return \<lparr>ev_event_id = event_id, ev_ts = ts, ev_kind = kind,
                 ev_subject_ref = subject_ref, ev_subject_digest = subject_digest,
                 ev_payload = body\<rparr>))))"

definition audit_append ::
  "audit_tx \<Rightarrow> string \<Rightarrow> string option \<Rightarrow> string option \<Rightarrow> payload \<Rightarrow> audit_event_row db_tx" where
  "audit_append tx kind subject_ref subject_digest payload =
     tx_bind (audit_event_of tx kind subject_ref subject_digest payload) (\<lambda>event.
     tx_bind (chain_append (atx_crypto tx) (atx_key tx) event) (\<lambda>row.
     tx_then (tx_modify (\<lambda>s. s\<lparr>audit_appended := True\<rparr>)) (tx_return row)))"

section \<open>core/campaigns/events.py\<close>

definition LIFECYCLES :: "string list" where
  "LIFECYCLES = [''DRAFT'', ''READY'', ''SCHEDULED'', ''SENDING'', ''COMPLETE'', ''CANCELLED'']"

definition SUMMARIES :: "string list" where
  "SUMMARIES = [''IN_PROGRESS'', ''INDETERMINATE'', ''SENT'', ''PARTIAL'', ''CANCELLED'', ''FAILED'']"

datatype reason_code =
    OPERATOR | DUPLICATE_CONFLICT | AMBIGUOUS_MATCH | NOT_CURRENT_ATTEMPT | REDUCER_REFUSED
  | RETRY_EXHAUSTED

fun reason_name :: "reason_code \<Rightarrow> string" where
  "reason_name OPERATOR = ''OPERATOR''"
| "reason_name DUPLICATE_CONFLICT = ''DUPLICATE_CONFLICT''"
| "reason_name AMBIGUOUS_MATCH = ''AMBIGUOUS_MATCH''"
| "reason_name NOT_CURRENT_ATTEMPT = ''NOT_CURRENT_ATTEMPT''"
| "reason_name REDUCER_REFUSED = ''REDUCER_REFUSED''"
| "reason_name RETRY_EXHAUSTED = ''RETRY_EXHAUSTED''"

definition COUNT_FIELDS :: "string list" where
  "COUNT_FIELDS = [''job_count'', ''pending_count'', ''skipped_count'', ''cancelled_count'',
     ''success_count'', ''failure_count'', ''unknown_count'', ''in_flight_count'',
     ''already_sent_count'', ''requeued_count'', ''exhausted_count'']"

definition EVENT_FIELDS :: "(string \<times> validator) list" where
  "EVENT_FIELDS = [
     (''generation'', ref_v ''generation''), (''job'', ref_v ''job''), (''attempt'', ref_v ''attempt''),
     (''transport'', one_of [''telegram'', ''whatsapp'']),
     (''target_digest'', digest_v), (''recipient_digest'', digest_v), (''snapshot_digest'', digest_v)]
     @ map (\<lambda>name. (name, count_v 0)) COUNT_FIELDS @ [
     (''attempt_no'', count_v 1), (''summary'', one_of SUMMARIES), (''lifecycle'', one_of LIFECYCLES),
     (''reason'', one_of (map reason_name [OPERATOR, DUPLICATE_CONFLICT, AMBIGUOUS_MATCH,
         NOT_CURRENT_ATTEMPT, REDUCER_REFUSED, RETRY_EXHAUSTED])),
     (''send_at'', time_v), (''verdict'', one_of [''sent'', ''not_sent'']),
     (''status'', one_of [''ACCEPTED'', ''DELIVERED'', ''FAILED_PERMANENT''])]"

definition payload_ok :: "payload \<Rightarrow> bool" where
  "payload_ok p = list_all (\<lambda>(key, value).
     case map_of EVENT_FIELDS key of None \<Rightarrow> False | Some v \<Rightarrow> v value) p"

definition journal_digest ::
  "crypto \<Rightarrow> string option \<Rightarrow> string \<Rightarrow> string \<Rightarrow> payload \<Rightarrow> string \<Rightarrow> string res" where
  "journal_digest cr campaign_ref event_ref event_type payload ts =
     res_bind (jcs_dumps (JObj [
       (jstr ''campaign_ref'', jopt campaign_ref), (jstr ''event_ref'', jstr event_ref),
       (jstr ''event_type'', jstr event_type), (jstr ''payload'', payload_json payload),
       (jstr ''ts'', jstr ts)]))
     (\<lambda>body. Inr (sha256_hex cr (CAMPAIGN_EVENT @ body)))"

definition append_event ::
  "crypto \<Rightarrow> string \<Rightarrow> string option \<Rightarrow> payload \<Rightarrow> datetime \<Rightarrow> audit_tx option \<Rightarrow> payload option
     \<Rightarrow> string db_tx" where
  "append_event cr event_type campaign_ref payload now audit commitment =
     tx_bind (tx_reads in_transaction) (\<lambda>in_tx.
     tx_then (tx_guard in_tx
       (RuntimeError ''events are appended inside the state change's transaction''))
     (tx_then (tx_guard (event_type \<in> set EVENT_TYPES) (ValueError ''unknown event type''))
     (tx_then (case campaign_ref of None \<Rightarrow> tx_return ()
               | Some r \<Rightarrow> tx_then (tx_lift (check r ''campaign'')) (tx_return ()))
     (tx_then (tx_guard (payload_ok payload) (ValueError ''event payload field refused''))
     (tx_bind (mint_ref ''event'') (\<lambda>event_ref.
      tx_bind (tx_lift (iso now)) (\<lambda>ts.
      tx_bind (tx_lift (journal_digest cr campaign_ref event_ref event_type payload ts)) (\<lambda>event_digest.
      tx_bind (tx_reads (\<lambda>s. next_id cev_seq (campaign_events s))) (\<lambda>seq.
      tx_then (insert_campaign_event
        \<lparr>cev_seq = seq, cev_ref = event_ref, cev_campaign_ref = campaign_ref, cev_type = event_type,
         cev_ts = ts, cev_payload = payload, cev_digest = event_digest\<rparr>)
      (tx_then (case audit of
         None \<Rightarrow> tx_return ()
       | Some tx \<Rightarrow>
           let committed = event_type \<in> set COMMITTED_EVENT_TYPES
           in tx_then (tx_guard (committed = (commitment \<noteq> None))
                (ValueError ''a freeze event carries exactly its campaign commitment''))
              (tx_then (audit_append tx
                 (if committed then ''campaign_event_committed'' else ''campaign_event'')
                 (Some event_ref) (Some event_digest)
                 ((''event_type'', jstr event_type) #
                  (case commitment of None \<Rightarrow> [] | Some c \<Rightarrow> c)))
               (tx_return ())))
       (tx_return event_ref)))))))))))"

section \<open>What appending leaves alone\<close>

text \<open>The tables the campaign core reasons about; the journal, the chain and the random source are
  what appending an event may change.\<close>

definition core_of :: "comms_db \<Rightarrow> comms_db" where
  "core_of s = s\<lparr>campaign_events := [], audit_events := [], audit_appended := False, draws := 0\<rparr>"

definition same_core :: "comms_db \<Rightarrow> comms_db \<Rightarrow> bool" where
  "same_core s t \<longleftrightarrow> core_of t = core_of s"

interpretation same_core: tx_preorder same_core
  by unfold_locales (simp_all add: same_core_def)

lemma same_core_refl [simp]: "same_core s s"
  by (simp add: same_core_def)

lemma same_core_fields:
  assumes "same_core s t"
  shows "in_transaction t = in_transaction s" "locations t = locations s"
    "recipients t = recipients s" "delivery_identities t = delivery_identities s"
    "destinations t = destinations s" "contact_points t = contact_points s"
    "location_members t = location_members s" "audiences t = audiences s"
    "audience_members t = audience_members s" "campaigns t = campaigns s"
    "generations t = generations s" "delivery_jobs t = delivery_jobs s"
    "job_origins t = job_origins s" "delivery_attempts t = delivery_attempts s"
    "provider_events t = provider_events s" "audit_checkpoints t = audit_checkpoints s"
    "audit_integrity t = audit_integrity s" "endpoint_window t = endpoint_window s"
    "template_bindings t = template_bindings s" "entropy t = entropy s"
  using assms unfolding same_core_def core_of_def by (cases s; cases t; simp)+

text \<open>The journal and the chain only grow.\<close>

definition logs_grow :: "comms_db \<Rightarrow> comms_db \<Rightarrow> bool" where
  "logs_grow s t \<longleftrightarrow>
     prefix (campaign_events s) (campaign_events t) \<and> prefix (audit_events s) (audit_events t)"

interpretation logs_grow: tx_preorder logs_grow
  by unfold_locales (auto simp: logs_grow_def intro: prefix_order.trans)

text \<open>The writes an appended event consists of, for any preorder that allows them.\<close>

lemma mint_ref_within:
  assumes "\<And>s n. R s (s\<lparr>draws := n\<rparr>)"
  shows "tx_within R (mint_ref kind)"
  using assms by (auto simp: tx_within_def mint_ref_def split: sum.splits)

lemma insert_campaign_event_within:
  assumes "\<And>s e. R s (s\<lparr>campaign_events := campaign_events s @ [e]\<rparr>)"
  shows "tx_within R (insert_campaign_event e)"
  using assms by (auto simp: tx_within_def insert_campaign_event_def violates_def split: if_splits)

lemma insert_audit_event_within:
  assumes "\<And>s e. R s (s\<lparr>audit_events := audit_events s @ [e]\<rparr>)"
  shows "tx_within R (insert_audit_event e)"
  using assms by (auto simp: tx_within_def insert_audit_event_def violates_def split: if_splits)

lemma require_chain_tx_within: "(\<And>s. R s s) \<Longrightarrow> tx_within R require_chain_tx"
  by (auto simp: tx_within_def require_chain_tx_def split: if_splits)

text \<open>The client side of the chain and of the journal: a preorder on the database that allows the
  writes below holds over \<open>audit_append\<close> and \<open>append_event\<close>, whatever their arguments.\<close>

locale audit_client = tx_preorder R for R :: "comms_db \<Rightarrow> comms_db \<Rightarrow> bool" +
  assumes R_draw: "R s (s\<lparr>draws := n\<rparr>)"
    and R_chain: "R s (s\<lparr>audit_events := audit_events s @ [a]\<rparr>)"
    and R_appended: "R s (s\<lparr>audit_appended := b\<rparr>)"
begin

lemma mint_within: "tx_within R (mint_ref kind)"
  by (rule mint_ref_within) (rule R_draw)

lemma audit_append_within: "tx_within R (audit_append tx kind sref sdig payload)"
proof -
  have mod: "tx_within R (tx_modify (\<lambda>s. s\<lparr>audit_appended := True\<rparr>))"
    by (rule tx_withinI) (auto simp: R_appended)
  have ins: "\<And>e. tx_within R (insert_audit_event e)"
    by (rule insert_audit_event_within) (rule R_chain)
  have tx: "tx_within R require_chain_tx"
    by (rule require_chain_tx_within) (rule R_refl)
  have ev: "tx_within R (audit_event_of tx kind sref sdig payload)"
    unfolding audit_event_of_def by (intro within_intros mint_within)
  show ?thesis
    unfolding audit_append_def chain_append_def insert_event_def
    by (intro within_intros mod ins tx ev)
qed

end

locale journal_client = audit_client +
  assumes R_journal: "R s (s\<lparr>campaign_events := campaign_events s @ [e]\<rparr>)"
begin

lemma append_event_within: "tx_within R (append_event cr ty cref payload now audit commitment)"
proof -
  have ins: "\<And>e. tx_within R (insert_campaign_event e)"
    by (rule insert_campaign_event_within) (rule R_journal)
  show ?thesis
    unfolding append_event_def
    by (intro within_intros mint_within ins audit_append_within)
qed

end

definition same_journal :: "comms_db \<Rightarrow> comms_db \<Rightarrow> bool" where
  "same_journal s t \<longleftrightarrow> campaign_events t = campaign_events s"

interpretation same_journal: audit_client same_journal
  by unfold_locales (simp_all add: same_journal_def)

interpretation same_core: journal_client same_core
  by unfold_locales (simp_all add: same_core_def core_of_def)

interpretation logs_grow: journal_client logs_grow
  by unfold_locales (simp_all add: logs_grow_def)

lemma append_event_core:
  "append_event cr ty cref p now audit commitment s = Inr (r, t) \<Longrightarrow> same_core s t"
  by (rule tx_withinD [OF same_core.append_event_within])

text \<open>Appending adds exactly one journal row, with the given type, campaign and payload.\<close>

lemma append_event_journal:
  assumes "append_event cr ty cref p now audit commitment s = Inr (r, t)"
  shows "\<exists>e. campaign_events t = campaign_events s @ [e] \<and> cev_ref e = r \<and> cev_type e = ty
           \<and> cev_campaign_ref e = cref \<and> cev_payload e = p
           \<and> r \<notin> cev_ref ` set (campaign_events s)"
proof -
  from assms obtain s1 s2 ref ts d seq u where
    m: "mint_ref ''event'' s = Inr (ref, s1)"
    and i: "insert_campaign_event \<lparr>cev_seq = seq, cev_ref = ref, cev_campaign_ref = cref,
              cev_type = ty, cev_ts = ts, cev_payload = p, cev_digest = d\<rparr> s1 = Inr (u, s2)"
    and a: "same_journal s2 t" and r: "r = ref"
    by (auto simp: append_event_def tx_inr tx_reads_def Let_def tx_return_def
        same_journal.R_refl split: option.splits
        dest!: tx_withinD [OF same_journal.audit_append_within])
  from m have "campaign_events s1 = campaign_events s"
    by (auto simp: mint_ref_def split: sum.splits)
  with i a r show ?thesis
    by (auto simp: insert_campaign_event_def violates_def same_journal_def split: if_splits)
qed

end
