(* ===== verification/Comms_Reducer.thy ===== *)
theory Comms_Reducer
  imports Comms_Events
begin

text \<open>
  The one reducer (\<open>core/delivery/reducer.py\<close>): the pure decision table, the delivery summary, the
  completion of a campaign, the compare-and-set on a job with everything that hangs on it, and the
  binding of a provider reference with the reconciliation of the updates that waited for it.
\<close>

section \<open>The decision table\<close>

datatype evidence =
    CLAIM | RESULT | PROVIDER | RESOLVE_SENT | RESOLVE_NOT_SENT | CANCEL | SKIP_REVALIDATION
  | RETRY | RECOVER

record transition =
  new_state :: "job_state option"
  attempt_outcome :: "job_state option"
  t_disposition :: disposition
  t_attempt_id :: "nat option"

definition transition_of :: "job_state option \<Rightarrow> job_state option \<Rightarrow> disposition \<Rightarrow> transition" where
  "transition_of st out d =
     \<lparr>new_state = st, attempt_outcome = out, t_disposition = d, t_attempt_id = None\<rparr>"

fun RANK :: "job_state \<Rightarrow> nat option" where
  "RANK PENDING = Some 0"
| "RANK IN_FLIGHT = Some 1"
| "RANK FAILED_TRANSIENT = Some 2"
| "RANK OUTCOME_UNKNOWN = Some 2"
| "RANK ACCEPTED = Some 3"
| "RANK DELIVERED = Some 4"
| "RANK _ = None"

definition TERMINAL :: "job_state set" where
  "TERMINAL = {FAILED_PERMANENT, CANCELLED, SKIPPED_PLATFORM_POLICY, SKIPPED_REVALIDATION}"

definition SUCCESS :: "job_state set" where
  "SUCCESS = {ACCEPTED, DELIVERED}"

definition ACTIVE :: "job_state set" where
  "ACTIVE = {PENDING, IN_FLIGHT}"

definition RESULT_KINDS :: "job_state set" where
  "RESULT_KINDS = {ACCEPTED, DELIVERED, FAILED_TRANSIENT, FAILED_PERMANENT, OUTCOME_UNKNOWN}"

definition PROVIDER_STATUSES :: "job_state set" where
  "PROVIDER_STATUSES = {ACCEPTED, DELIVERED, FAILED_PERMANENT}"

definition NAMED_DESCENTS :: "(job_state \<times> evidence \<times> job_state) set" where
  "NAMED_DESCENTS =
     {(FAILED_TRANSIENT, RETRY, PENDING), (ACCEPTED, PROVIDER, FAILED_PERMANENT)}"

definition REFUSED :: transition where
  "REFUSED = transition_of None None Refused"

definition ranks_above :: "job_state \<Rightarrow> job_state \<Rightarrow> bool" where
  "ranks_above v st = (case (RANK v, RANK st) of (Some a, Some b) \<Rightarrow> b < a | _ \<Rightarrow> False)"

definition decide ::
  "job_state \<Rightarrow> evidence \<Rightarrow> job_state option \<Rightarrow> bool \<Rightarrow> nat \<Rightarrow> nat \<Rightarrow> transition" where
  "decide st ev value is_current attempt_count cap =
     (if ev = PROVIDER then
        (case value of
           None \<Rightarrow> REFUSED
         | Some v \<Rightarrow>
             if v \<notin> PROVIDER_STATUSES then REFUSED
             else if v \<in> SUCCESS then
               (if ranks_above v st then transition_of (Some v) (Some v) Applied
                else transition_of None (Some v) Recorded)
             else if is_current \<and> st \<in> {IN_FLIGHT, ACCEPTED, OUTCOME_UNKNOWN}
             then transition_of (Some FAILED_PERMANENT) (Some v) Applied
             else transition_of None (Some v) Recorded)
      else if ev = RESULT then
        (case value of
           None \<Rightarrow> REFUSED
         | Some v \<Rightarrow>
             if v \<notin> RESULT_KINDS \<or> \<not> is_current then REFUSED
             else if st = IN_FLIGHT then transition_of (Some v) (Some v) Applied
             else if st \<in> SUCCESS then transition_of None (Some v) Recorded
             else REFUSED)
      else if value \<noteq> None then REFUSED
      else if ev = CLAIM \<and> st = PENDING then transition_of (Some IN_FLIGHT) None Applied
      else if ev = CANCEL \<and> st = PENDING then transition_of (Some CANCELLED) None Applied
      else if ev = SKIP_REVALIDATION \<and> st = PENDING
      then transition_of (Some SKIPPED_REVALIDATION) None Applied
      else if ev = RETRY \<and> st = FAILED_TRANSIENT \<and> attempt_count < cap
      then transition_of (Some PENDING) None Applied
      else if ev = RECOVER \<and> st = IN_FLIGHT \<and> is_current
      then transition_of (Some OUTCOME_UNKNOWN) (Some OUTCOME_UNKNOWN) Applied
      else if ev = RESOLVE_SENT \<and> st = OUTCOME_UNKNOWN
      then transition_of (Some ACCEPTED) None Applied
      else if ev = RESOLVE_NOT_SENT \<and> st = OUTCOME_UNKNOWN
      then transition_of (Some FAILED_TRANSIENT) None Applied
      else REFUSED)"

definition summarize :: "job_state list \<Rightarrow> bool \<Rightarrow> summary res" where
  "summarize states any_attempt_ever =
     (if states = [] then Inl (ValueError ''a generation always has jobs'')
      else if list_ex (\<lambda>s. s \<in> ACTIVE) states then Inr SUM_IN_PROGRESS
      else if OUTCOME_UNKNOWN \<in> set states then Inr SUM_INDETERMINATE
      else let successes = length (filter (\<lambda>s. s \<in> SUCCESS) states)
           in if successes = length states then Inr SUM_SENT
              else if successes \<noteq> 0 then Inr SUM_PARTIAL
              else if CANCELLED \<in> set states \<and> \<not> any_attempt_ever then Inr SUM_CANCELLED
              else Inr SUM_FAILED)"

section \<open>Queries\<close>

definition require_job_tx :: "unit db_tx" where
  "require_job_tx s = (if in_transaction s then Inr ((), s)
     else Inl (RuntimeError ''job state is written only inside a comms.db transaction''))"

definition no_row :: exn where
  "no_row = TypeError ''cannot unpack non-iterable NoneType object''"

definition find_campaign :: "nat \<Rightarrow> comms_db \<Rightarrow> campaign_row option" where
  "find_campaign cid s = find (\<lambda>c. cmp_id c = cid) (campaigns s)"

definition find_generation :: "nat \<Rightarrow> comms_db \<Rightarrow> generation_row option" where
  "find_generation gid s = find (\<lambda>g. gen_id g = gid) (generations s)"

definition find_job :: "nat \<Rightarrow> comms_db \<Rightarrow> job_row option" where
  "find_job jid s = find (\<lambda>j. job_id j = jid) (delivery_jobs s)"

definition campaign_of_generation :: "nat \<Rightarrow> comms_db \<Rightarrow> campaign_row option" where
  "campaign_of_generation gid s =
     (case find_generation gid s of None \<Rightarrow> None | Some g \<Rightarrow> find_campaign (gen_campaign_id g) s)"

definition jobs_of :: "nat \<Rightarrow> comms_db \<Rightarrow> job_row list" where
  "jobs_of gid s = filter (\<lambda>j. job_generation_id j = gid) (delivery_jobs s)"

definition states_of :: "nat \<Rightarrow> comms_db \<Rightarrow> job_state list" where
  "states_of gid s = map job_state (jobs_of gid s)"

definition attempted :: "nat \<Rightarrow> comms_db \<Rightarrow> bool" where
  "attempted gid s = list_ex (\<lambda>a. list_ex (\<lambda>j. job_id j = att_job_id a) (jobs_of gid s))
     (delivery_attempts s)"

definition counts_payload :: "nat \<Rightarrow> comms_db \<Rightarrow> payload" where
  "counts_payload gid s =
     (let states = states_of gid s; n = (\<lambda>p. JInt (int (length (filter p states))))
      in [(''job_count'', JInt (int (length states))),
          (''success_count'', n (\<lambda>x. x \<in> SUCCESS)),
          (''failure_count'', n (\<lambda>x. x \<in> {FAILED_TRANSIENT, FAILED_PERMANENT})),
          (''unknown_count'', n (\<lambda>x. x = OUTCOME_UNKNOWN)),
          (''skipped_count'', n (\<lambda>x. x \<in> {SKIPPED_PLATFORM_POLICY, SKIPPED_REVALIDATION})),
          (''cancelled_count'', n (\<lambda>x. x = CANCELLED))])"

section \<open>The summary and the completion\<close>

definition refresh_summary :: "crypto \<Rightarrow> nat \<Rightarrow> datetime \<Rightarrow> summary option db_tx" where
  "refresh_summary cr cid now =
     tx_then require_job_tx
     (tx_bind (tx_reads (find_campaign cid)) (\<lambda>row.
      tx_bind (tx_the no_row row) (\<lambda>c.
      case cmp_generation_id c of
        None \<Rightarrow> tx_return None
      | Some gid \<Rightarrow>
          tx_bind (tx_reads (states_of gid)) (\<lambda>states.
          tx_bind (tx_reads (attempted gid)) (\<lambda>any_attempt.
          tx_bind (tx_lift (summarize states any_attempt)) (\<lambda>new.
          tx_then (if Some new \<noteq> cmp_summary c then
              tx_bind (tx_lift (iso now)) (\<lambda>stamp.
              tx_then (update_campaigns (\<lambda>r. cmp_id r = cid)
                         (\<lambda>r. r\<lparr>cmp_summary := Some new, cmp_updated_at := stamp\<rparr>))
              (if cmp_lifecycle c = LC_COMPLETE then
                 tx_then (append_event cr ''campaign.summary_changed'' (Some (cmp_ref c))
                   [(''summary'', jstr (summary_name new))] now None None) (tx_return ())
               else tx_return ()))
            else tx_return ())
          (tx_return (Some new))))))))"

definition complete_if_idle :: "crypto \<Rightarrow> nat \<Rightarrow> datetime \<Rightarrow> bool db_tx" where
  "complete_if_idle cr cid now =
     tx_then require_job_tx
     (tx_bind (tx_reads (find_campaign cid)) (\<lambda>row.
      tx_bind (tx_the no_row row) (\<lambda>c.
      case cmp_generation_id c of
        None \<Rightarrow> tx_return False
      | Some gid \<Rightarrow>
          if cmp_lifecycle c \<noteq> LC_SENDING then tx_return False
          else
          tx_bind (tx_reads (states_of gid)) (\<lambda>states.
          if list_ex (\<lambda>x. x \<in> ACTIVE) states then tx_return False
          else
          tx_bind (refresh_summary cr cid now) (\<lambda>summary.
          tx_bind (tx_lift (iso now)) (\<lambda>stamp.
          tx_then (update_campaigns (\<lambda>r. cmp_id r = cid)
                     (\<lambda>r. r\<lparr>cmp_lifecycle := LC_COMPLETE, cmp_updated_at := stamp\<rparr>))
          (tx_bind (tx_reads (find_generation gid)) (\<lambda>grow.
           tx_bind (tx_the no_row grow) (\<lambda>g.
           tx_bind (tx_reads (counts_payload gid)) (\<lambda>counts.
           tx_then (append_event cr ''campaign.completed'' (Some (cmp_ref c))
             ([(''generation'', jstr (gen_ref g)),
               (''summary'', case summary of None \<Rightarrow> JNull | Some x \<Rightarrow> jstr (summary_name x))]
              @ counts) now None None)
           (tx_return True)))))))))))"

section \<open>reduce\<close>

text \<open>The attempt the evidence is about: given, or the current one for the evidence that needs it.\<close>

definition attempt_of :: "job_row \<Rightarrow> nat option \<Rightarrow> evidence \<Rightarrow> attempt_row option db_tx" where
  "attempt_of j aid ev =
     (case aid of
        Some a \<Rightarrow>
          tx_bind (tx_reads (\<lambda>s. find (\<lambda>r. att_id r = a \<and> att_job_id r = job_id j)
                                   (delivery_attempts s))) (\<lambda>found.
          tx_bind (tx_the (ValueError ''attempt does not belong to job'') found) (\<lambda>r.
          tx_return (Some r)))
      | None \<Rightarrow>
          if ev \<in> {RESULT, PROVIDER, RECOVER} \<and> job_attempt_count j \<noteq> 0 then
            tx_bind (tx_reads (\<lambda>s. find (\<lambda>r. att_job_id r = job_id j \<and> att_no r = job_attempt_count j)
                                     (delivery_attempts s))) (\<lambda>found.
            tx_bind (tx_the no_row found) (\<lambda>r. tx_return (Some r)))
          else tx_return None)"

text \<open>The claim's compare-and-set: pending, its campaign sending this generation, the audit trail
  not degraded; then the attempt row. \<open>None\<close> when the compare-and-set changed no row.\<close>

definition claim_job :: "job_row \<Rightarrow> nat \<Rightarrow> string \<Rightarrow> transition option db_tx" where
  "claim_job j cid stamp =
     tx_bind (tx_reads (\<lambda>s.
       list_ex (\<lambda>c. cmp_id c = cid \<and> cmp_lifecycle c = LC_SENDING
                    \<and> cmp_generation_id c = Some (job_generation_id j)) (campaigns s)
       \<and> \<not> is_degraded s)) (\<lambda>allowed.
     tx_bind (update_jobs (\<lambda>r. job_id r = job_id j \<and> job_state r = PENDING \<and> allowed)
                (\<lambda>r. r\<lparr>job_state := IN_FLIGHT, job_attempt_count := job_attempt_count r + 1\<rparr>))
       (\<lambda>rowcount.
     if rowcount \<noteq> 1 then tx_return None
     else
       tx_bind (mint_ref ''attempt'') (\<lambda>ref.
       tx_bind (tx_reads (\<lambda>s. next_id att_id (delivery_attempts s))) (\<lambda>new_attempt.
       tx_then (insert_attempt
         \<lparr>att_id = new_attempt, att_ref = ref, att_job_id = job_id j,
          att_no = job_attempt_count j + 1, att_started_at = stamp, att_finished_at = None,
          att_outcome = None, att_provider_ref = None, att_request_key = None, att_actor = None,
          att_outcome_code = None\<rparr>)
       (tx_return (Some ((transition_of (Some IN_FLIGHT) None Applied)
                           \<lparr>t_attempt_id := Some new_attempt\<rparr>)))))))"

definition set_job_state :: "job_row \<Rightarrow> transition \<Rightarrow> transition option db_tx" where
  "set_job_state j t =
     (case new_state t of
        None \<Rightarrow> tx_raise (IntegrityError ''constraint failed'')
      | Some st \<Rightarrow>
          tx_bind (update_jobs (\<lambda>r. job_id r = job_id j \<and> job_state r = job_state j)
                     (\<lambda>r. r\<lparr>job_state := st\<rparr>)) (\<lambda>rowcount.
          if rowcount \<noteq> 1 then tx_return None else tx_return (Some t)))"

definition record_outcome :: "transition \<Rightarrow> attempt_row option \<Rightarrow> string \<Rightarrow> unit db_tx" where
  "record_outcome t att stamp =
     (case (attempt_outcome t, att) of
        (Some out, Some a) \<Rightarrow>
          if t_disposition t \<noteq> Refused then
            update_attempt_outcome
              (\<lambda>r. att_id r = att_id a \<and> att_outcome r \<noteq> Some DELIVERED)
              (\<lambda>r. r\<lparr>att_outcome := Some out,
                     att_finished_at := (case att_finished_at r of None \<Rightarrow> Some stamp | x \<Rightarrow> x)\<rparr>)
          else tx_return ()
      | _ \<Rightarrow> tx_return ())"

definition refused_payload :: "string \<Rightarrow> job_state option \<Rightarrow> bool \<Rightarrow> payload" where
  "refused_payload transport value current =
     [(''transport'', jstr transport),
      (''reason'', jstr (reason_name
         (if value = Some FAILED_PERMANENT \<and> \<not> current then NOT_CURRENT_ATTEMPT
          else REDUCER_REFUSED)))] @
     (case value of
        Some v \<Rightarrow> (if v \<in> PROVIDER_STATUSES then [(''status'', jstr (job_state_name v))] else [])
      | None \<Rightarrow> [])"

text \<open>A provider update that is not applied leaves an event; the last active job of a transport
  completes the transport.\<close>

definition refuse_provider_update ::
  "crypto \<Rightarrow> job_row \<Rightarrow> campaign_row \<Rightarrow> evidence \<Rightarrow> job_state option \<Rightarrow> bool \<Rightarrow> datetime \<Rightarrow> transition
     \<Rightarrow> unit db_tx" where
  "refuse_provider_update cr j c ev value current now t =
     (if ev = PROVIDER \<and> t_disposition t \<noteq> Applied then
        tx_then (append_event cr ''delivery.provider_update_refused'' (Some (cmp_ref c))
          (refused_payload (job_transport j) value current) now None None) (tx_return ())
      else tx_return ())"

definition complete_transport ::
  "crypto \<Rightarrow> job_row \<Rightarrow> campaign_row \<Rightarrow> datetime \<Rightarrow> transition \<Rightarrow> unit db_tx" where
  "complete_transport cr j c now t =
     (if cmp_lifecycle c = LC_SENDING \<and> job_state j \<in> ACTIVE
         \<and> (case new_state t of None \<Rightarrow> True | Some x \<Rightarrow> x \<notin> ACTIVE) then
        tx_bind (tx_reads (\<lambda>s. list_ex (\<lambda>r. job_transport r = job_transport j
                   \<and> job_state r \<in> ACTIVE) (jobs_of (job_generation_id j) s))) (\<lambda>still.
        if still then tx_return ()
        else
          tx_bind (tx_reads (find_generation (job_generation_id j))) (\<lambda>grow.
          tx_bind (tx_the no_row grow) (\<lambda>g.
          tx_then (append_event cr ''campaign.transport_completed'' (Some (cmp_ref c))
            [(''generation'', jstr (gen_ref g)), (''transport'', jstr (job_transport j))]
            now None None) (tx_return ()))))
      else tx_return ())"

text \<open>Everything after the attempt's outcome is recorded: the refused provider update's event, the
  transport's completion, the summary and the campaign's completion.\<close>

definition after_outcome ::
  "crypto \<Rightarrow> job_row \<Rightarrow> campaign_row \<Rightarrow> evidence \<Rightarrow> job_state option \<Rightarrow> bool \<Rightarrow> datetime \<Rightarrow> transition
     \<Rightarrow> transition db_tx" where
  "after_outcome cr j c ev value current now t =
     tx_then (refuse_provider_update cr j c ev value current now t)
     (if t_disposition t \<noteq> Applied then tx_return t
      else
      tx_then (complete_transport cr j c now t)
      (tx_then (if cmp_generation_id c = Some (job_generation_id j) then
          tx_then (refresh_summary cr (cmp_id c) now)
          (tx_then (complete_if_idle cr (cmp_id c) now) (tx_return ()))
        else tx_return ())
      (tx_return t)))"

definition is_current_attempt :: "job_row \<Rightarrow> attempt_row option \<Rightarrow> bool" where
  "is_current_attempt j att = (case att of None \<Rightarrow> True | Some a \<Rightarrow> att_no a = job_attempt_count j)"

definition apply_transition ::
  "job_row \<Rightarrow> campaign_row \<Rightarrow> evidence \<Rightarrow> string \<Rightarrow> transition \<Rightarrow> transition option db_tx" where
  "apply_transition j c ev stamp t =
     (if t_disposition t = Applied then
        (if ev = CLAIM then claim_job j (cmp_id c) stamp else set_job_state j t)
      else tx_return (Some t))"

definition reduce ::
  "crypto \<Rightarrow> nat \<Rightarrow> nat option \<Rightarrow> evidence \<Rightarrow> job_state option \<Rightarrow> datetime \<Rightarrow> nat \<Rightarrow> transition db_tx" where
  "reduce cr jid aid ev value now cap =
     tx_then require_job_tx
     (tx_bind (tx_lift (iso now)) (\<lambda>stamp.
      tx_bind (tx_reads (find_job jid)) (\<lambda>row.
      tx_bind (tx_the (ValueError ''unknown job'') row) (\<lambda>j.
      tx_bind (attempt_of j aid ev) (\<lambda>att.
      tx_bind (tx_reads (campaign_of_generation (job_generation_id j))) (\<lambda>crow.
      tx_bind (tx_the no_row crow) (\<lambda>c.
      tx_bind (apply_transition j c ev stamp
                 (decide (job_state j) ev value (is_current_attempt j att) (job_attempt_count j) cap))
        (\<lambda>outcome.
      case outcome of
        None \<Rightarrow> tx_return REFUSED
      | Some t \<Rightarrow>
          tx_then (record_outcome t att stamp)
            (after_outcome cr j c ev value (is_current_attempt j att) now t)))))))))"

section \<open>bind_provider_ref\<close>

definition reconcile_event ::
  "crypto \<Rightarrow> nat \<Rightarrow> nat \<Rightarrow> string \<Rightarrow> nat \<Rightarrow> datetime \<Rightarrow> provider_event_row \<Rightarrow> unit db_tx" where
  "reconcile_event cr jid aid transport matches now e =
     (if matches \<noteq> 1 then
        tx_then (resolve_provider_event (pev_id e) (\<lambda>r. r\<lparr>pev_disposition := Refused\<rparr>))
        (tx_then (append_event cr ''delivery.provider_update_refused'' None
           [(''transport'', jstr transport), (''reason'', jstr (reason_name AMBIGUOUS_MATCH)),
            (''status'', jstr (job_state_name (pev_status e)))] now None None)
         (tx_return ()))
      else
        tx_bind (reduce cr jid (Some aid) PROVIDER (Some (pev_status e)) now 5) (\<lambda>t.
        resolve_provider_event (pev_id e)
          (\<lambda>r. r\<lparr>pev_disposition := t_disposition t, pev_job_id := Some jid,
                 pev_attempt_id := Some aid\<rparr>)))"

definition bind_provider_ref :: "crypto \<Rightarrow> nat \<Rightarrow> string \<Rightarrow> datetime \<Rightarrow> nat db_tx" where
  "bind_provider_ref cr aid message_ref now =
     tx_then require_job_tx
     (tx_then (tx_guard (message_ref \<noteq> []) (ValueError ''provider reference refused''))
     (tx_bind (bind_attempt_ref aid message_ref) (\<lambda>rowcount.
      tx_then (tx_guard (rowcount = 1) (ValueError ''provider reference already bound''))
      (tx_bind (tx_reads (\<lambda>s. find (\<lambda>a. att_id a = aid) (delivery_attempts s))) (\<lambda>arow.
       tx_bind (tx_the no_row arow) (\<lambda>a.
       tx_bind (tx_reads (find_job (att_job_id a))) (\<lambda>jrow.
       tx_bind (tx_the no_row jrow) (\<lambda>j.
       tx_bind (tx_reads (\<lambda>s. length (filter (\<lambda>r. att_provider_ref r = Some message_ref
            \<and> list_ex (\<lambda>k. job_id k = att_job_id r \<and> job_transport k = job_transport j)
                 (delivery_jobs s)) (delivery_attempts s)))) (\<lambda>matches.
       tx_bind (tx_reads (\<lambda>s. filter (\<lambda>e. pev_transport e = job_transport j
            \<and> pev_message_ref e = message_ref \<and> pev_disposition e = Pending_match)
            (sort_key pev_id (provider_events s)))) (\<lambda>pending.
       tx_then (tx_each (reconcile_event cr (job_id j) aid (job_transport j) matches now) pending)
       (tx_return (length pending))))))))))))"

section \<open>Facts about the decision table\<close>

lemmas decide_defs = decide_def REFUSED_def transition_of_def ranks_above_def PROVIDER_STATUSES_def
  SUCCESS_def RESULT_KINDS_def

lemma decide_applied_new_state:
  "t_disposition (decide st ev v cur n cap) = Applied \<Longrightarrow> new_state (decide st ev v cur n cap) \<noteq> None"
  by (auto simp: decide_defs split: option.splits if_splits)

lemma decide_not_pending_match: "t_disposition (decide st ev v cur n cap) \<noteq> Pending_match"
  by (auto simp: decide_defs split: option.splits if_splits)

lemma decide_attempt_id [simp]: "t_attempt_id (decide st ev v cur n cap) = None"
  by (auto simp: decide_defs split: option.splits if_splits)

section \<open>Frames\<close>

text \<open>What settling a summary or a completion leaves alone in a campaign row.\<close>

definition campaign_frame :: "campaign_row \<Rightarrow> campaign_row \<Rightarrow> bool" where
  "campaign_frame c d \<longleftrightarrow>
     d\<lparr>cmp_lifecycle := cmp_lifecycle c, cmp_summary := cmp_summary c,
       cmp_updated_at := cmp_updated_at c\<rparr> = c"

lemma campaign_frame_refl [simp]: "campaign_frame c c"
  by (simp add: campaign_frame_def)

lemma campaign_frame_fields:
  assumes "campaign_frame c d"
  shows "cmp_id d = cmp_id c" "cmp_ref d = cmp_ref c" "cmp_title d = cmp_title c"
    "cmp_content d = cmp_content c" "cmp_targets d = cmp_targets c"
    "cmp_transports d = cmp_transports c" "cmp_generation_id d = cmp_generation_id c"
    "cmp_created_at d = cmp_created_at c"
  using assms unfolding campaign_frame_def by (cases c; cases d; simp)+

lemma campaign_frame_trans: "campaign_frame c d \<Longrightarrow> campaign_frame d e \<Longrightarrow> campaign_frame c e"
  unfolding campaign_frame_def by (cases c; cases d; cases e; simp)

lemma campaign_frame_updates [simp]:
  "campaign_frame c (c\<lparr>cmp_summary := x, cmp_updated_at := y\<rparr>)"
  "campaign_frame c (c\<lparr>cmp_lifecycle := l, cmp_updated_at := y\<rparr>)"
  by (simp_all add: campaign_frame_def)

text \<open>The client side of the summary: a preorder that allows the journal's writes and changes of the
  summary, lifecycle and update time of one campaign.\<close>

locale summary_client = journal_client +
  fixes cid :: nat
  assumes R_campaigns: "(\<And>c. campaign_frame c (f c)) \<Longrightarrow>
      R s (s\<lparr>campaigns := update_where (\<lambda>c. cmp_id c = cid) f (campaigns s)\<rparr>)"
begin

lemma update_campaigns_within:
  "(\<And>c. campaign_frame c (f c)) \<Longrightarrow> tx_within R (update_campaigns (\<lambda>c. cmp_id c = cid) f)"
  by (rule tx_withinI)
    (auto simp: update_campaigns_def violates_def Let_def intro: R_campaigns split: if_splits)

lemma require_job_tx_within: "tx_within R require_job_tx"
  by (rule tx_withinI) (auto simp: require_job_tx_def R_refl split: if_splits)

lemma refresh_summary_within: "tx_within R (refresh_summary cr cid now)"
  unfolding refresh_summary_def
  by (intro within_intros require_job_tx_within append_event_within update_campaigns_within
      campaign_frame_updates)

lemma complete_if_idle_within: "tx_within R (complete_if_idle cr cid now)"
  unfolding complete_if_idle_def
  by (intro within_intros require_job_tx_within append_event_within update_campaigns_within
      campaign_frame_updates refresh_summary_within)

lemma after_outcome_within:
  assumes "cmp_id c = cid"
  shows "tx_within R (after_outcome cr j c ev value current now t)"
  unfolding after_outcome_def refuse_provider_update_def complete_transport_def assms
  by (intro within_intros append_event_within refresh_summary_within complete_if_idle_within)

end

text \<open>\<open>settles cid\<close>: only the journal, the chain and the summary, lifecycle and update time of the
  campaign \<open>cid\<close> may differ.\<close>

definition settled_row :: "nat \<Rightarrow> campaign_row \<Rightarrow> campaign_row \<Rightarrow> bool" where
  "settled_row cid c d \<longleftrightarrow> campaign_frame c d \<and> (cmp_id c \<noteq> cid \<longrightarrow> d = c)"

definition settles :: "nat \<Rightarrow> comms_db \<Rightarrow> comms_db \<Rightarrow> bool" where
  "settles cid s t \<longleftrightarrow> core_of (t\<lparr>campaigns := []\<rparr>) = core_of (s\<lparr>campaigns := []\<rparr>)
     \<and> list_all2 (settled_row cid) (campaigns s) (campaigns t)"

lemma settled_row_refl [simp]: "settled_row cid c c"
  by (simp add: settled_row_def)

lemma settled_row_trans: "settled_row cid c d \<Longrightarrow> settled_row cid d e \<Longrightarrow> settled_row cid c e"
  unfolding settled_row_def by (metis campaign_frame_trans campaign_frame_fields(1))

lemma settled_rows_trans:
  "list_all2 (settled_row cid) as bs \<Longrightarrow> list_all2 (settled_row cid) bs cs \<Longrightarrow>
     list_all2 (settled_row cid) as cs"
  by (rule list_all2_trans [where ?P1.0 = "settled_row cid" and ?P2.0 = "settled_row cid"])
    (rule settled_row_trans)

lemma list_all2_update_where:
  assumes "\<And>c. p c \<Longrightarrow> P c (f c)" and "\<And>c. P c c"
  shows "list_all2 P xs (update_where p f xs)"
  using assms by (auto simp: update_where_def list_all2_conv_all_nth)

interpretation settles: summary_client "settles cid" cid for cid
proof unfold_locales
  show "settles cid s s" for s
    by (simp add: settles_def list_all2_conv_all_nth)
  show "settles cid s t \<Longrightarrow> settles cid t u \<Longrightarrow> settles cid s u" for s t u
    unfolding settles_def using settled_rows_trans by (elim conjE) (intro conjI; simp)
  show "(\<And>c. campaign_frame c (f c)) \<Longrightarrow>
      settles cid s (s\<lparr>campaigns := update_where (\<lambda>c. cmp_id c = cid) f (campaigns s)\<rparr>)" for f s
    by (simp add: settles_def core_of_def list_all2_update_where settled_row_def)
qed (simp_all add: settles_def core_of_def list_all2_conv_all_nth)

lemma settles_fields:
  assumes "settles cid s t"
  shows "in_transaction t = in_transaction s" "locations t = locations s"
    "recipients t = recipients s" "delivery_identities t = delivery_identities s"
    "destinations t = destinations s" "contact_points t = contact_points s"
    "location_members t = location_members s" "audiences t = audiences s"
    "audience_members t = audience_members s"
    "generations t = generations s" "delivery_jobs t = delivery_jobs s"
    "job_origins t = job_origins s" "delivery_attempts t = delivery_attempts s"
    "provider_events t = provider_events s" "audit_checkpoints t = audit_checkpoints s"
    "audit_integrity t = audit_integrity s" "endpoint_window t = endpoint_window s"
    "template_bindings t = template_bindings s" "entropy t = entropy s"
  using assms unfolding settles_def core_of_def by (cases s; cases t; simp)+

lemma same_core_settles: "same_core s t \<Longrightarrow> settles cid s t"
  using same_core_fields(10) [of s t]
  by (cases s; cases t; simp add: same_core_def settles_def core_of_def list_all2_conv_all_nth)

end
