(* ===== verification/Comms_Reducer_Props.thy ===== *)
theory Comms_Reducer_Props
  imports Comms_Reducer
begin

text \<open>
  Properties of the reducer: which transitions the decision table applies, what one call of
  \<open>reduce\<close> does to the jobs and attempts, and the invariants it keeps (attempt numbers, and the
  agreement of summary and lifecycle with the job states).
\<close>

section \<open>Inversion of reduce\<close>

lemma after_outcome_result:
  "after_outcome cr j c ev value current now t s = Inr (r, u) \<Longrightarrow> r = t"
  by (auto simp: after_outcome_def tx_inr tx_return_def split: if_splits)

lemma after_outcome_settles:
  "after_outcome cr j c ev value current now t s = Inr (r, u) \<Longrightarrow> settles (cmp_id c) s u"
  by (rule tx_withinD [OF settles.after_outcome_within]) simp_all

lemma attempt_of_state: "attempt_of j aid ev s = Inr (att, u) \<Longrightarrow> u = s"
  by (auto simp: attempt_of_def tx_inr tx_return_def split: option.splits if_splits)

text \<open>The reads and the three writing phases of a call that returns.\<close>

lemma reduce_phases:
  assumes "reduce cr jid aid ev value now cap s = Inr (t, u)"
  obtains stamp j att c out s1 s2 where
    "in_transaction s" "iso now = Inr stamp" "find_job jid s = Some j"
    "attempt_of j aid ev s = Inr (att, s)"
    "campaign_of_generation (job_generation_id j) s = Some c"
    "apply_transition j c ev stamp
       (decide (job_state j) ev value (is_current_attempt j att) (job_attempt_count j) cap) s
     = Inr (out, s1)"
    "case out of None \<Rightarrow> t = REFUSED \<and> u = s1
     | Some t' \<Rightarrow> t = t' \<and> record_outcome t att stamp s1 = Inr ((), s2) \<and>
         after_outcome cr j c ev value (is_current_attempt j att) now t s2 = Inr (t, u)"
proof -
  from assms obtain stamp j att c out s0 s1 where
    pre: "in_transaction s" "iso now = Inr stamp" "find_job jid s = Some j"
    and att: "attempt_of j aid ev s = Inr (att, s0)"
    and c0: "campaign_of_generation (job_generation_id j) s0 = Some c"
    and app0: "apply_transition j c ev stamp
       (decide (job_state j) ev value (is_current_attempt j att) (job_attempt_count j) cap) s0
     = Inr (out, s1)"
    and rest: "(case out of None \<Rightarrow> tx_return REFUSED
      | Some t \<Rightarrow> tx_then (record_outcome t att stamp)
            (after_outcome cr j c ev value (is_current_attempt j att) now t)) s1 = Inr (t, u)"
    by (auto simp: reduce_def tx_inr require_job_tx_def split: if_splits)
  have "s0 = s" using att by (rule attempt_of_state)
  note pre = pre att [unfolded this] c0 [unfolded this] and app = app0 [unfolded this]
  show ?thesis
  proof (cases out)
    case None
    with rest that [OF pre app] show ?thesis by simp
  next
    case (Some t')
    with rest obtain x s2 where "record_outcome t' att stamp s1 = Inr (x, s2)"
      "after_outcome cr j c ev value (is_current_attempt j att) now t' s2 = Inr (t, u)"
      by (auto simp: tx_then_Inr)
    with Some that [OF pre app] show ?thesis
      by (auto dest: after_outcome_result)
  qed
qed

section \<open>What the writes do to the rows\<close>

lemma filter_unique_key:
  assumes "distinct (map key xs)" and "r \<in> set xs"
  shows "filter (\<lambda>x. key x = key r \<and> P x) xs = (if P r then [r] else [])"
  using assms
proof (induction xs)
  case (Cons y ys)
  show ?case
  proof (cases "y = r")
    case True
    have "filter (\<lambda>x. key x = key r \<and> P x) ys = []"
      using Cons.prems True by (auto simp: filter_empty_conv) (metis image_eqI)
    with True show ?thesis by simp
  next
    case False
    with Cons show ?thesis by (auto split: if_splits)
  qed
qed simp

lemma update_where_unique_key:
  assumes "distinct (map key xs)" and "r \<in> set xs"
  shows "update_where (\<lambda>x. key x = key r \<and> P x) f xs
       = (if P r then update_where (\<lambda>x. key x = key r) f xs else xs)"
proof -
  have "\<And>x. x \<in> set xs \<Longrightarrow> key x = key r \<Longrightarrow> x = r"
    using assms by (auto simp: distinct_map inj_on_def)
  then show ?thesis
    by (fastforce simp: update_where_def intro!: map_idI)
qed

lemma find_job_mem: "find_job jid s = Some j \<Longrightarrow> j \<in> set (delivery_jobs s) \<and> job_id j = jid"
  unfolding find_job_def by (drule find_Some_iff_key) simp

lemma update_jobs_Inr:
  "update_jobs p f s = Inr (n, u) \<longleftrightarrow>
     list_all job_check (update_where p f (delivery_jobs s)) \<and>
     n = length (filter p (delivery_jobs s)) \<and>
     u = s\<lparr>delivery_jobs := update_where p f (delivery_jobs s)\<rparr>"
  by (auto simp: update_jobs_def violates_def Let_def)

text \<open>The new state of one job.\<close>

definition put_job_state :: "nat \<Rightarrow> job_state \<Rightarrow> nat \<Rightarrow> job_row list \<Rightarrow> job_row list" where
  "put_job_state jid st extra =
     update_where (\<lambda>r. job_id r = jid)
       (\<lambda>r. r\<lparr>job_state := st, job_attempt_count := job_attempt_count r + extra\<rparr>)"

lemma set_job_state_effect:
  assumes "distinct (map job_id (delivery_jobs s))" and "find_job jid s = Some j"
    and "set_job_state j t s = Inr (out, u)"
  shows "out = Some t \<and> (\<exists>st. new_state t = Some st
           \<and> u = s\<lparr>delivery_jobs := put_job_state jid st 0 (delivery_jobs s)\<rparr>)"
proof -
  have j: "j \<in> set (delivery_jobs s)" "job_id j = jid"
    using find_job_mem [OF assms(2)] by auto
  from assms(3) obtain st n where st: "new_state t = Some st"
    and u: "u = s\<lparr>delivery_jobs := update_where (\<lambda>r. job_id r = job_id j \<and> job_state r = job_state j)
                 (\<lambda>r. r\<lparr>job_state := st\<rparr>) (delivery_jobs s)\<rparr>"
    and n: "n = length (filter (\<lambda>r. job_id r = job_id j \<and> job_state r = job_state j) (delivery_jobs s))"
    and out: "out = (if n \<noteq> 1 then None else Some t)"
    by (auto simp: set_job_state_def tx_inr update_jobs_Inr split: option.splits if_splits)
  have "n = 1"
    unfolding n using filter_unique_key [OF assms(1) j(1), of "\<lambda>r. job_state r = job_state j"] by simp
  moreover have "(\<lambda>r. r\<lparr>job_state := st\<rparr>)
      = (\<lambda>r. r\<lparr>job_state := st, job_attempt_count := job_attempt_count r + 0\<rparr>)"
    by (simp add: fun_eq_iff)
  ultimately show ?thesis
    using st u out update_where_unique_key [OF assms(1) j(1), of "\<lambda>r. job_state r = job_state j"]
    by (simp add: put_job_state_def j(2))
qed

lemma claim_job_effect:
  assumes "distinct (map job_id (delivery_jobs s))" and "find_job jid s = Some j"
    and "claim_job j cid stamp s = Inr (out, u)"
  shows "(out = None \<and> u = s) \<or>
    (\<exists>ref. out = Some ((transition_of (Some IN_FLIGHT) None Applied)
              \<lparr>t_attempt_id := Some (next_id att_id (delivery_attempts s))\<rparr>)
       \<and> job_state j = PENDING \<and> \<not> is_degraded s
       \<and> (\<exists>c \<in> set (campaigns s). cmp_id c = cid \<and> cmp_lifecycle c = LC_SENDING
              \<and> cmp_generation_id c = Some (job_generation_id j))
       \<and> (jid, Suc (job_attempt_count j)) \<notin> (\<lambda>r. (att_job_id r, att_no r)) ` set (delivery_attempts s)
       \<and> u = s\<lparr>delivery_jobs := put_job_state jid IN_FLIGHT 1 (delivery_jobs s),
               draws := Suc (draws s),
               delivery_attempts := delivery_attempts s @
                 [\<lparr>att_id = next_id att_id (delivery_attempts s), att_ref = ref, att_job_id = jid,
                   att_no = Suc (job_attempt_count j), att_started_at = stamp,
                   att_finished_at = None, att_outcome = None, att_provider_ref = None,
                   att_request_key = None, att_actor = None, att_outcome_code = None\<rparr>]\<rparr>)"
proof -
  let ?ok = "list_ex (\<lambda>c. cmp_id c = cid \<and> cmp_lifecycle c = LC_SENDING
                    \<and> cmp_generation_id c = Some (job_generation_id j)) (campaigns s)
             \<and> \<not> is_degraded s"
  have j: "j \<in> set (delivery_jobs s)" "job_id j = jid"
    using find_job_mem [OF assms(2)] by auto
  have n: "length (filter (\<lambda>r. job_id r = job_id j \<and> job_state r = PENDING \<and> ?ok) (delivery_jobs s))
      = (if job_state j = PENDING \<and> ?ok then 1 else 0)"
    using filter_unique_key [OF assms(1) j(1), of "\<lambda>r. job_state r = PENDING \<and> ?ok"] by simp
  have w: "update_where (\<lambda>r. job_id r = job_id j \<and> job_state r = PENDING \<and> ?ok)
        (\<lambda>r. r\<lparr>job_state := IN_FLIGHT, job_attempt_count := job_attempt_count r + 1\<rparr>) (delivery_jobs s)
      = (if job_state j = PENDING \<and> ?ok then put_job_state jid IN_FLIGHT 1 (delivery_jobs s)
         else delivery_jobs s)"
    using update_where_unique_key [OF assms(1) j(1), of "\<lambda>r. job_state r = PENDING \<and> ?ok"]
    by (simp add: put_job_state_def j(2))
  show ?thesis
  proof (cases "job_state j = PENDING \<and> ?ok")
    case True
    with assms(3) n w j(2) show ?thesis
      by (auto simp: claim_job_def tx_inr update_jobs_Inr mint_ref_def insert_attempt_def
          violates_def list_ex_iff split: sum.splits if_splits)
  next
    case False
    with assms(3) n w show ?thesis
      by (auto simp: claim_job_def tx_inr update_jobs_Inr)
  qed
qed

section \<open>The decision table\<close>

text \<open>One applied transition of a job, whatever the evidence, its value and its attempt.\<close>

inductive job_step :: "job_state \<Rightarrow> evidence \<Rightarrow> job_state \<Rightarrow> bool" where
  applied: "t_disposition (decide st ev v cur n cap) = Applied \<Longrightarrow>
     new_state (decide st ev v cur n cap) = Some st' \<Longrightarrow> job_step st ev st'"

inductive job_path :: "job_state \<Rightarrow> job_state \<Rightarrow> bool" where
  path_refl: "job_path st st"
| path_step: "job_path st st' \<Longrightarrow> job_step st' ev st'' \<Longrightarrow> job_path st st''"

inductive_cases job_stepE: "job_step st ev st'"

text \<open>The transition relation as a table.\<close>

lemma job_step_table:
  "job_step st ev st' \<Longrightarrow>
     (ev, st, st') \<in> {(CLAIM, PENDING, IN_FLIGHT), (CANCEL, PENDING, CANCELLED),
        (SKIP_REVALIDATION, PENDING, SKIPPED_REVALIDATION), (RETRY, FAILED_TRANSIENT, PENDING),
        (RECOVER, IN_FLIGHT, OUTCOME_UNKNOWN), (RESOLVE_SENT, OUTCOME_UNKNOWN, ACCEPTED),
        (RESOLVE_NOT_SENT, OUTCOME_UNKNOWN, FAILED_TRANSIENT)}
     \<or> ev = RESULT \<and> st = IN_FLIGHT \<and> st' \<in> RESULT_KINDS
     \<or> ev = PROVIDER \<and> st' \<in> SUCCESS \<and> ranks_above st' st
     \<or> ev = PROVIDER \<and> st' = FAILED_PERMANENT \<and> st \<in> {IN_FLIGHT, ACCEPTED, OUTCOME_UNKNOWN}"
  by (elim job_stepE) (auto simp: decide_defs split: option.splits if_splits)



text \<open>The states reachable from a terminal or a successful one.\<close>

lemma job_step_from_final: "job_step st ev st' \<Longrightarrow> st \<notin> insert DELIVERED TERMINAL"
  by (drule job_step_table) (auto simp: TERMINAL_def SUCCESS_def ranks_above_def)

lemma job_step_from_accepted: "job_step ACCEPTED ev st' \<Longrightarrow> ev = PROVIDER \<and> st' \<in> {DELIVERED, FAILED_PERMANENT}"
  by (drule job_step_table) (auto simp: SUCCESS_def ranks_above_def)

lemma job_path_final: "job_path st st' \<Longrightarrow> st \<in> insert DELIVERED TERMINAL \<Longrightarrow> st' = st"
  by (induction rule: job_path.induct) (auto dest: job_step_from_final)

lemma job_path_accepted:
  "job_path st st' \<Longrightarrow> st = ACCEPTED \<Longrightarrow> st' \<in> {ACCEPTED, DELIVERED, FAILED_PERMANENT}"
  by (induction rule: job_path.induct)
    (auto dest: job_step_from_accepted job_step_from_final simp: TERMINAL_def)

text \<open>C10: no message is sent twice. Once a job is accepted, delivered, permanently failed, cancelled
  or skipped, no sequence of evidence of any kind brings it back to a state a claim starts from, and
  a delivered or terminal job keeps its state for ever.\<close>

theorem finished_jobs_are_never_reclaimed:
  assumes "job_path st st'" and "st \<in> SUCCESS \<union> TERMINAL"
  shows "t_disposition (decide st' CLAIM None cur n cap) = Refused
    \<and> t_disposition (decide st' RETRY None cur n cap) = Refused
    \<and> (st \<noteq> ACCEPTED \<longrightarrow> st' = st)"
proof (cases "st = ACCEPTED")
  case True
  with job_path_accepted assms(1) have "st' \<in> {ACCEPTED, DELIVERED, FAILED_PERMANENT}" by blast
  with True show ?thesis by (auto simp: decide_defs)
next
  case False
  with assms have "st' = st" by (intro job_path_final) (auto simp: SUCCESS_def)
  with assms(2) show ?thesis by (auto simp: decide_defs TERMINAL_def)
qed

theorem finished_jobs_are_never_reclaimed_witness:
  "job_path ACCEPTED FAILED_PERMANENT
   \<and> t_disposition (decide FAILED_PERMANENT CLAIM None True 1 5) = Refused"
proof -
  have "job_step ACCEPTED PROVIDER FAILED_PERMANENT"
    by (rule job_step.applied [where v = "Some FAILED_PERMANENT" and cur = True])
      (simp_all add: decide_defs)
  then have "job_path ACCEPTED FAILED_PERMANENT"
    by (rule job_path.path_step [OF job_path.path_refl])
  with finished_jobs_are_never_reclaimed [OF this, of True 1 5] show ?thesis
    by (simp add: SUCCESS_def)
qed

text \<open>C13: an ambiguous outcome is never resolved by guessing. A job whose outcome is unknown leaves
  that state only on the provider's own report or on the operator's verdict; the engine's own
  evidence (claim, result, retry, recovery, cancel, skip) is refused.\<close>

theorem unknown_outcome_needs_evidence:
  "t_disposition (decide OUTCOME_UNKNOWN ev v cur n cap) = Applied \<longleftrightarrow>
     (ev = PROVIDER \<and> (v = Some ACCEPTED \<or> v = Some DELIVERED \<or> (v = Some FAILED_PERMANENT \<and> cur)))
     \<or> (ev \<in> {RESOLVE_SENT, RESOLVE_NOT_SENT} \<and> v = None)"
  by (cases v) (auto simp: decide_defs)

section \<open>The summary\<close>

lemma summarize_total: "states \<noteq> [] \<Longrightarrow> \<exists>x. summarize states a = Inr x"
  by (auto simp: summarize_def Let_def)

lemma all_success_count:
  "length (filter P xs) = length xs \<longleftrightarrow> list_all P xs"
  by (metis filter_id_conv length_filter_less less_irrefl list_all_iff)

text \<open>C14: the delivery summary says what the jobs say. It is defined for every non-empty list of job
  states, reports a send in progress exactly while a job is pending or in flight, indeterminate
  exactly when none is and an outcome is unknown, sent exactly when every job succeeded, partial when
  some but not all did, and cancelled only when nothing was ever attempted.\<close>

theorem summarize_characterised:
  assumes "states \<noteq> []"
  shows "\<exists>x. summarize states attempted_ever = Inr x
    \<and> (x = SUM_IN_PROGRESS \<longleftrightarrow> (\<exists>s\<in>set states. s \<in> ACTIVE))
    \<and> (x = SUM_INDETERMINATE \<longleftrightarrow> set states \<inter> ACTIVE = {} \<and> OUTCOME_UNKNOWN \<in> set states)
    \<and> (x = SUM_SENT \<longleftrightarrow> set states \<subseteq> SUCCESS)
    \<and> (x = SUM_PARTIAL \<longleftrightarrow> set states \<inter> (ACTIVE \<union> {OUTCOME_UNKNOWN}) = {}
          \<and> set states \<inter> SUCCESS \<noteq> {} \<and> \<not> set states \<subseteq> SUCCESS)
    \<and> (x = SUM_CANCELLED \<longleftrightarrow> set states \<inter> (ACTIVE \<union> {OUTCOME_UNKNOWN} \<union> SUCCESS) = {}
          \<and> CANCELLED \<in> set states \<and> \<not> attempted_ever)"
proof -
  have some: "length (filter (\<lambda>s. s \<in> SUCCESS) states) \<noteq> 0 \<longleftrightarrow> set states \<inter> SUCCESS \<noteq> {}"
    by (auto simp: filter_empty_conv)
  have all: "length (filter (\<lambda>s. s \<in> SUCCESS) states) = length states \<longleftrightarrow> set states \<subseteq> SUCCESS"
    by (auto simp: all_success_count list_all_iff)
  have act: "list_ex (\<lambda>s. s \<in> ACTIVE) states \<longleftrightarrow> set states \<inter> ACTIVE \<noteq> {}"
    by (auto simp: list_ex_iff)
  have ne: "set states \<noteq> {}" using assms by simp
  have disj: "SUCCESS \<inter> ACTIVE = {}" "OUTCOME_UNKNOWN \<notin> SUCCESS" "OUTCOME_UNKNOWN \<notin> ACTIVE"
    by (auto simp: SUCCESS_def ACTIVE_def)
  show ?thesis
    unfolding summarize_def Let_def some all act
    using assms ne disj by (simp split: if_split) blast
qed

theorem summarize_characterised_witness:
  "summarize [DELIVERED, FAILED_PERMANENT] True = Inr SUM_PARTIAL"
  using summarize_characterised [of "[DELIVERED, FAILED_PERMANENT]" True]
  by (auto simp: summarize_def Let_def ACTIVE_def SUCCESS_def)

section \<open>One call of reduce\<close>

text \<open>The identity of the attempt rows: which attempts exist, and for which job and number.\<close>

definition attempt_keys :: "comms_db \<Rightarrow> (nat \<times> nat \<times> nat) list" where
  "attempt_keys s = map (\<lambda>a. (att_id a, att_job_id a, att_no a)) (delivery_attempts s)"

lemma record_outcome_effect:
  assumes "record_outcome t att stamp s = Inr (x, u)"
  shows "attempt_keys u = attempt_keys s"
    and "u\<lparr>delivery_attempts := as\<rparr> = s\<lparr>delivery_attempts := as\<rparr>"
  using assms
  by (auto simp: record_outcome_def update_attempt_outcome_def violates_def Let_def tx_return_def
      attempt_keys_def split: option.splits if_splits)

lemma record_outcome_tables:
  assumes "record_outcome t att stamp s = Inr (x, u)"
  shows "delivery_jobs u = delivery_jobs s" "campaigns u = campaigns s"
    "generations u = generations s" "provider_events u = provider_events s"
    "in_transaction u = in_transaction s"
  using record_outcome_effect(2) [OF assms, of "[]"] by (cases s; cases u; simp)+

lemma apply_transition_tables:
  assumes "apply_transition j c ev stamp t s = Inr (out, u)"
  shows "campaigns u = campaigns s" "generations u = generations s"
    "provider_events u = provider_events s" "in_transaction u = in_transaction s"
    "job_origins u = job_origins s" "campaign_events u = campaign_events s"
  using assms
  by (auto simp: apply_transition_def set_job_state_def claim_job_def tx_inr update_jobs_Inr
      mint_ref_def insert_attempt_def violates_def tx_return_def
      split: if_splits option.splits sum.splits)

text \<open>The evidence counts one attempt exactly when it is a claim.\<close>

definition claims_one :: "evidence \<Rightarrow> nat" where
  "claims_one ev = (if ev = CLAIM then 1 else 0)"

definition job_after :: "nat \<Rightarrow> evidence \<Rightarrow> transition \<Rightarrow> job_row list \<Rightarrow> job_row list" where
  "job_after jid ev t jobs =
     (if t_disposition t = Applied
      then put_job_state jid (the (new_state t)) (claims_one ev) jobs else jobs)"

definition keys_after :: "job_row \<Rightarrow> evidence \<Rightarrow> transition \<Rightarrow> (nat \<times> nat \<times> nat) list \<Rightarrow> (nat \<times> nat \<times> nat) list" where
  "keys_after j ev t keys =
     (if t_disposition t = Applied \<and> ev = CLAIM
      then keys @ [(the (t_attempt_id t), job_id j, Suc (job_attempt_count j))] else keys)"

lemma decide_claim:
  "t_disposition (decide st CLAIM v cur n cap) = Applied \<Longrightarrow>
     st = PENDING \<and> decide st CLAIM v cur n cap = transition_of (Some IN_FLIGHT) None Applied"
  by (auto simp: decide_defs split: if_splits)

lemma apply_transition_effect:
  assumes "distinct (map job_id (delivery_jobs s))" and "find_job jid s = Some j"
    and "apply_transition j c ev stamp (decide (job_state j) ev v cur n cap) s = Inr (out, u)"
  shows "case out of
      None \<Rightarrow> u = s \<and> ev = CLAIM
    | Some t \<Rightarrow> t_disposition t = t_disposition (decide (job_state j) ev v cur n cap)
        \<and> new_state t = new_state (decide (job_state j) ev v cur n cap)
        \<and> attempt_outcome t = attempt_outcome (decide (job_state j) ev v cur n cap)
        \<and> delivery_jobs u = job_after jid ev t (delivery_jobs s)
        \<and> attempt_keys u = keys_after j ev t (attempt_keys s)"
proof (cases "t_disposition (decide (job_state j) ev v cur n cap) = Applied")
  case False
  with assms(3) show ?thesis
    by (auto simp: apply_transition_def job_after_def keys_after_def tx_return_def)
next
  case applied: True
  show ?thesis
  proof (cases "ev = CLAIM")
    case True
    have jid: "job_id j = jid" using find_job_mem [OF assms(2)] by simp
    from applied True assms(3) have "claim_job j (cmp_id c) stamp s = Inr (out, u)"
      by (simp add: apply_transition_def)
    from claim_job_effect [OF assms(1,2) this] decide_claim [of "job_state j" v cur n cap]
      applied True jid
    show ?thesis
      by (auto simp: job_after_def keys_after_def attempt_keys_def claims_one_def transition_of_def)
  next
    case False
    with applied assms(3) have "set_job_state j (decide (job_state j) ev v cur n cap) s = Inr (out, u)"
      by (simp add: apply_transition_def)
    from set_job_state_effect [OF assms(1,2) this] applied False show ?thesis
      by (auto simp: job_after_def keys_after_def attempt_keys_def claims_one_def)
  qed
qed

text \<open>What one call does to the jobs, the attempts and the campaigns.\<close>

lemma reduce_effect:
  assumes "distinct (map job_id (delivery_jobs s))"
    and "reduce cr jid aid ev value now cap s = Inr (t, u)"
  obtains j att c s1 s2 stamp where
    "find_job jid s = Some j" "attempt_of j aid ev s = Inr (att, s)"
    "campaign_of_generation (job_generation_id j) s = Some c"
    "delivery_jobs u = job_after jid ev t (delivery_jobs s)"
    "attempt_keys u = keys_after j ev t (attempt_keys s)"
    "(t = REFUSED \<and> u = s) \<or>
       (let d = decide (job_state j) ev value (is_current_attempt j att) (job_attempt_count j) cap in
        t_disposition t = t_disposition d \<and> new_state t = new_state d
        \<and> attempt_outcome t = attempt_outcome d
        \<and> apply_transition j c ev stamp d s = Inr (Some t, s1)
        \<and> record_outcome t att stamp s1 = Inr ((), s2)
        \<and> after_outcome cr j c ev value (is_current_attempt j att) now t s2 = Inr (t, u))"
proof -
  from assms(2) obtain stamp j att c out s1 s2 where ph:
    "in_transaction s" "iso now = Inr stamp" "find_job jid s = Some j"
    "attempt_of j aid ev s = Inr (att, s)"
    "campaign_of_generation (job_generation_id j) s = Some c"
    "apply_transition j c ev stamp
       (decide (job_state j) ev value (is_current_attempt j att) (job_attempt_count j) cap) s
     = Inr (out, s1)"
    "case out of None \<Rightarrow> t = REFUSED \<and> u = s1
     | Some t' \<Rightarrow> t = t' \<and> record_outcome t att stamp s1 = Inr ((), s2) \<and>
         after_outcome cr j c ev value (is_current_attempt j att) now t s2 = Inr (t, u)"
    by (rule reduce_phases)
  note eff = apply_transition_effect [OF assms(1) ph(3,6)]
  show ?thesis
  proof (cases out)
    case None
    with eff ph(7) have "t = REFUSED" "u = s" by auto
    with that [OF ph(3-5)] show ?thesis
      by (auto simp: REFUSED_def transition_of_def job_after_def keys_after_def)
  next
    case (Some t')
    with ph(7) have t: "t' = t" and rec: "record_outcome t att stamp s1 = Inr ((), s2)"
      and aft: "after_outcome cr j c ev value (is_current_attempt j att) now t s2 = Inr (t, u)"
      by auto
    have j: "delivery_jobs u = delivery_jobs s1"
      using settles_fields(11) [OF after_outcome_settles [OF aft]] record_outcome_tables(1) [OF rec]
      by simp
    have k: "attempt_keys u = attempt_keys s1"
      using settles_fields(13) [OF after_outcome_settles [OF aft]] record_outcome_effect(1) [OF rec]
      by (simp add: attempt_keys_def)
    have jobs: "delivery_jobs u = job_after jid ev t (delivery_jobs s)"
      and keys: "attempt_keys u = keys_after j ev t (attempt_keys s)"
      using eff Some by (simp_all add: t j k)
    have "let d = decide (job_state j) ev value (is_current_attempt j att) (job_attempt_count j) cap in
        t_disposition t = t_disposition d \<and> new_state t = new_state d
        \<and> attempt_outcome t = attempt_outcome d
        \<and> apply_transition j c ev stamp d s = Inr (Some t, s1)
        \<and> record_outcome t att stamp s1 = Inr ((), s2)
        \<and> after_outcome cr j c ev value (is_current_attempt j att) now t s2 = Inr (t, u)"
      using eff ph(6) Some rec aft by (simp add: t Let_def)
    from that [OF ph(3-5) jobs keys disjI2 [OF this]] show ?thesis .
  qed
qed

section \<open>The attempts of a job\<close>

text \<open>Attempt rows belong to jobs, a job's attempts are numbered from one to its count without gap
  or repetition, and an attempt without an outcome is the last one of a job that is in flight or was
  settled by its provider while in flight. So no attempt starts while another is open.\<close>

definition OPEN_STATES :: "job_state set" where
  "OPEN_STATES = {IN_FLIGHT, ACCEPTED, DELIVERED, FAILED_PERMANENT}"

definition attempt_fits :: "job_row list \<Rightarrow> attempt_row \<Rightarrow> bool" where
  "attempt_fits jobs a \<longleftrightarrow> (\<exists>j\<in>set jobs. job_id j = att_job_id a
      \<and> 1 \<le> att_no a \<and> att_no a \<le> job_attempt_count j
      \<and> (att_outcome a = None \<longrightarrow> att_no a = job_attempt_count j \<and> job_state j \<in> OPEN_STATES))"

definition attempts_inv :: "job_row list \<Rightarrow> attempt_row list \<Rightarrow> bool" where
  "attempts_inv jobs atts \<longleftrightarrow>
     distinct (map job_id jobs) \<and> distinct (map att_id atts)
     \<and> distinct (map (\<lambda>a. (att_job_id a, att_no a)) atts)
     \<and> list_all (attempt_fits jobs) atts
     \<and> list_all (\<lambda>j. list_all (\<lambda>n. list_ex (\<lambda>a. att_job_id a = job_id j \<and> att_no a = n) atts)
                       [1..<Suc (job_attempt_count j)]) jobs
     \<and> list_all (\<lambda>j. job_state j \<in> {IN_FLIGHT, FAILED_TRANSIENT, OUTCOME_UNKNOWN}
                       \<longrightarrow> job_attempt_count j \<noteq> 0) jobs"

lemma put_job_state_ids [simp]: "map job_id (put_job_state jid st k jobs) = map job_id jobs"
  by (simp add: put_job_state_def)

lemma put_job_state_mem:
  "j' \<in> set (put_job_state jid st k jobs) \<longleftrightarrow>
     (\<exists>j\<in>set jobs. j' = (if job_id j = jid
        then j\<lparr>job_state := st, job_attempt_count := job_attempt_count j + k\<rparr> else j))"
  unfolding put_job_state_def set_update_where image_iff by (rule refl)

lemma put_job_state_in:
  assumes "j \<in> set jobs"
  shows "(if job_id j = jid then j\<lparr>job_state := st, job_attempt_count := job_attempt_count j + k\<rparr> else j)
           \<in> set (put_job_state jid st k jobs)"
  using assms by (auto simp: put_job_state_mem)

text \<open>Moving a job and closing attempts.\<close>

definition closes :: "attempt_row \<Rightarrow> attempt_row \<Rightarrow> bool" where
  "closes a b \<longleftrightarrow> att_id b = att_id a \<and> att_job_id b = att_job_id a \<and> att_no b = att_no a
     \<and> (att_outcome b = None \<longrightarrow> att_outcome a = None)"

lemma attempt_fits_put:
  assumes "attempt_fits jobs a" and "closes a b"
    and "\<And>j. j \<in> set jobs \<Longrightarrow> job_id j = jid \<Longrightarrow> att_job_id a = jid \<Longrightarrow> att_outcome b = None
           \<Longrightarrow> k = 0 \<and> (job_state j \<in> OPEN_STATES \<longrightarrow> st \<in> OPEN_STATES)"
  shows "attempt_fits (put_job_state jid st k jobs) b"
proof -
  from assms(1) obtain j where j: "j \<in> set jobs" "job_id j = att_job_id a" "1 \<le> att_no a"
      "att_no a \<le> job_attempt_count j"
      "att_outcome a = None \<longrightarrow> att_no a = job_attempt_count j \<and> job_state j \<in> OPEN_STATES"
    by (auto simp: attempt_fits_def)
  let ?j = "if job_id j = jid then j\<lparr>job_state := st, job_attempt_count := job_attempt_count j + k\<rparr>
            else j"
  have "job_id ?j = att_job_id b \<and> 1 \<le> att_no b \<and> att_no b \<le> job_attempt_count ?j \<and>
      (att_outcome b = None \<longrightarrow> att_no b = job_attempt_count ?j \<and> job_state ?j \<in> OPEN_STATES)"
    using j assms(2) assms(3) [OF j(1)] by (simp add: closes_def)
  with put_job_state_in [OF j(1), where jid = jid and st = st and k = k] show ?thesis
    unfolding attempt_fits_def by (rule bexI [rotated])
qed

lemma list_all2_map_eq:
  assumes "list_all2 closes xs ys" and "\<And>a b. closes a b \<Longrightarrow> f b = f a"
  shows "map f ys = map f xs"
  using assms by (induction rule: list_all2_induct) auto

lemma closes_list_ex:
  assumes "list_all2 closes xs ys"
  shows "list_ex (\<lambda>a. att_job_id a = i \<and> att_no a = n) ys \<longleftrightarrow>
         list_ex (\<lambda>a. att_job_id a = i \<and> att_no a = n) xs"
  using assms by (induction rule: list_all2_induct) (auto simp: closes_def)

lemma attempts_inv_move:
  assumes "attempts_inv jobs atts" and "list_all2 closes atts atts'"
    and "\<And>j. j \<in> set jobs \<Longrightarrow> job_id j = jid \<Longrightarrow>
           st \<in> {IN_FLIGHT, FAILED_TRANSIENT, OUTCOME_UNKNOWN} \<Longrightarrow> job_attempt_count j \<noteq> 0"
    and "\<And>j b. j \<in> set jobs \<Longrightarrow> job_id j = jid \<Longrightarrow> b \<in> set atts' \<Longrightarrow> att_job_id b = jid \<Longrightarrow>
           att_outcome b = None \<Longrightarrow> job_state j \<in> OPEN_STATES \<Longrightarrow> st \<in> OPEN_STATES"
  shows "attempts_inv (put_job_state jid st 0 jobs) atts'"
proof -
  have keys: "map att_id atts' = map att_id atts"
    "map (\<lambda>a. (att_job_id a, att_no a)) atts' = map (\<lambda>a. (att_job_id a, att_no a)) atts"
    by (rule list_all2_map_eq [OF assms(2)]; simp add: closes_def)+
  have "attempt_fits (put_job_state jid st 0 jobs) b" if b: "b \<in> set atts'" for b
  proof -
    obtain a where a: "a \<in> set atts" "closes a b"
      using list_all2_in_set2 [OF assms(2) b] by blast
    have "attempt_fits jobs a"
      using assms(1) a(1) by (simp add: attempts_inv_def list_all_iff)
    then show ?thesis
      by (rule attempt_fits_put [OF _ a(2)]) (use assms(4) b a(2) in \<open>auto simp: closes_def\<close>)
  qed
  then show ?thesis
    using assms(1,3) keys
    by (auto simp: attempts_inv_def list_all_iff put_job_state_mem closes_list_ex [OF assms(2)]
        simp del: upt_Suc split: if_splits)
qed

text \<open>Claiming a pending job whose attempts are all closed.\<close>

lemma attempts_inv_claim:
  assumes inv: "attempts_inv jobs atts" and j: "j \<in> set jobs" "job_state j = PENDING"
    and new: "att_job_id a = job_id j" "att_no a = Suc (job_attempt_count j)"
      "att_id a \<notin> att_id ` set atts"
  shows "attempts_inv (put_job_state (job_id j) IN_FLIGHT 1 jobs) (atts @ [a])"
proof -
  have uniq: "\<And>k. k \<in> set jobs \<Longrightarrow> job_id k = job_id j \<Longrightarrow> k = j"
    using inv j(1) by (auto simp: attempts_inv_def distinct_map inj_on_def)
  have old: "attempt_fits (put_job_state (job_id j) IN_FLIGHT 1 jobs) b" if "b \<in> set atts" for b
  proof (rule attempt_fits_put [of jobs b b])
    show fits: "attempt_fits jobs b" using inv that by (simp add: attempts_inv_def list_all_iff)
    show "closes b b" by (simp add: closes_def)
    show "(1::nat) = 0 \<and> (job_state k \<in> OPEN_STATES \<longrightarrow> IN_FLIGHT \<in> OPEN_STATES)"
      if "k \<in> set jobs" "job_id k = job_id j" "att_job_id b = job_id j" "att_outcome b = None" for k
      using fits that(3,4) uniq j(2) unfolding attempt_fits_def OPEN_STATES_def by force
  qed
  have "j\<lparr>job_state := IN_FLIGHT, job_attempt_count := job_attempt_count j + 1\<rparr>
          \<in> set (put_job_state (job_id j) IN_FLIGHT 1 jobs)"
    using put_job_state_in [OF j(1), where jid = "job_id j" and st = IN_FLIGHT and k = 1] by simp
  then have fit: "attempt_fits (put_job_state (job_id j) IN_FLIGHT 1 jobs) a"
    unfolding attempt_fits_def by (rule bexI [rotated]) (simp add: new OPEN_STATES_def)
  have fresh: "(job_id j, Suc (job_attempt_count j)) \<notin> (\<lambda>r. (att_job_id r, att_no r)) ` set atts"
  proof
    assume "(job_id j, Suc (job_attempt_count j)) \<in> (\<lambda>r. (att_job_id r, att_no r)) ` set atts"
    then obtain b where b: "b \<in> set atts" "att_job_id b = job_id j"
        "att_no b = Suc (job_attempt_count j)" by auto
    then have "attempt_fits jobs b" using inv by (simp add: attempts_inv_def list_all_iff)
    with b(2,3) uniq show False by (fastforce simp: attempt_fits_def)
  qed
  have full: "list_ex (\<lambda>b. att_job_id b = job_id k \<and> att_no b = n) (atts @ [a])"
    if "k \<in> set (put_job_state (job_id j) IN_FLIGHT 1 jobs)" "1 \<le> n" "n \<le> job_attempt_count k" for k n
  proof -
    from that(1) obtain k0 where k0: "k0 \<in> set jobs" "job_id k0 = job_id k"
      "job_attempt_count k = (if job_id k0 = job_id j then Suc (job_attempt_count k0)
         else job_attempt_count k0)"
      unfolding put_job_state_mem by (elim bexE) (simp split: if_splits)
    show ?thesis
    proof (cases "n \<le> job_attempt_count k0")
      case True
      with inv k0(1,2) that(2) show ?thesis
        by (force simp: attempts_inv_def list_all_iff list_ex_iff)
    next
      case False
      with k0 that(3) have "n = Suc (job_attempt_count k0)" "job_id k = job_id j"
        by (auto split: if_splits)
      moreover from this k0(1,2) have "k0 = j" by (intro uniq) simp_all
      ultimately show ?thesis by (simp add: new)
    qed
  qed
  have nz: "\<And>k. k \<in> set (put_job_state (job_id j) IN_FLIGHT 1 jobs) \<Longrightarrow>
      job_state k \<in> {IN_FLIGHT, FAILED_TRANSIENT, OUTCOME_UNKNOWN} \<Longrightarrow> job_attempt_count k \<noteq> 0"
    using inv by (auto simp: attempts_inv_def list_all_iff put_job_state_mem split: if_splits)
  show ?thesis
    using inv old fit full nz new fresh
    by (simp add: attempts_inv_def list_all_iff less_Suc_eq_le del: upt_Suc)
qed

lemma closes_refl [simp]: "closes a a"
  by (simp add: closes_def)

lemma record_outcome_closes:
  assumes "record_outcome t att stamp s = Inr (x, u)"
  shows "list_all2 closes (delivery_attempts s) (delivery_attempts u)"
    and "attempt_outcome t = Some out \<Longrightarrow> att = Some a \<Longrightarrow> t_disposition t \<noteq> Refused \<Longrightarrow>
           b \<in> set (delivery_attempts u) \<Longrightarrow> att_id b = att_id a \<Longrightarrow> att_outcome b \<noteq> None"
proof -
  have refl: "list_all2 closes xs xs" for xs
    by (simp add: list_all2_conv_all_nth)
  show "list_all2 closes (delivery_attempts s) (delivery_attempts u)"
    using assms
    by (auto simp: record_outcome_def update_attempt_outcome_def violates_def Let_def tx_return_def
        refl closes_def intro!: list_all2_update_where split: option.splits if_splits)
  show "att_outcome b \<noteq> None" if "attempt_outcome t = Some out" "att = Some a"
    "t_disposition t \<noteq> Refused" "b \<in> set (delivery_attempts u)" "att_id b = att_id a"
    using assms that
    by (auto simp: record_outcome_def update_attempt_outcome_def violates_def Let_def
        set_update_where split: if_splits)
qed

lemma apply_transition_attempts:
  assumes "ev \<noteq> CLAIM \<or> t_disposition t \<noteq> Applied" and "apply_transition j c ev stamp t s = Inr (out, u)"
  shows "delivery_attempts u = delivery_attempts s"
  using assms
  by (auto simp: apply_transition_def set_job_state_def tx_inr update_jobs_Inr tx_return_def
      split: if_splits option.splits)

text \<open>The attempt the evidence is about, for the evidence that closes it.\<close>

lemma attempt_of_current:
  assumes "attempt_of j aid ev s = Inr (att, s)" and "ev \<in> {RESULT, RECOVER}"
    and "is_current_attempt j att" and "job_attempt_count j \<noteq> 0"
  shows "\<exists>a. att = Some a \<and> a \<in> set (delivery_attempts s) \<and> att_job_id a = job_id j
           \<and> att_no a = job_attempt_count j"
proof -
  have "find p xs = Some a \<Longrightarrow> a \<in> set xs \<and> p a" for p xs and a :: attempt_row
    by (rule find_Some_iff_key)
  with assms show ?thesis
    by (auto simp: attempt_of_def is_current_attempt_def tx_inr tx_return_def
        split: option.splits if_splits)
qed

lemma decide_closing:
  assumes "t_disposition (decide st ev v cur n cap) = Applied" and "ev \<noteq> CLAIM"
    and "new_state (decide st ev v cur n cap) = Some st'"
    and "st \<in> OPEN_STATES" and "st' \<notin> OPEN_STATES"
  shows "ev \<in> {RESULT, RECOVER} \<and> st = IN_FLIGHT \<and> cur
    \<and> attempt_outcome (decide st ev v cur n cap) \<noteq> None"
  using assms by (auto simp: decide_defs OPEN_STATES_def split: option.splits if_splits)

lemma decide_needs_attempts:
  assumes "t_disposition (decide st ev v cur n cap) = Applied" and "ev \<noteq> CLAIM"
    and "new_state (decide st ev v cur n cap) = Some st'"
    and "st' \<in> {IN_FLIGHT, FAILED_TRANSIENT, OUTCOME_UNKNOWN}"
  shows "st \<in> {IN_FLIGHT, FAILED_TRANSIENT, OUTCOME_UNKNOWN}"
  using assms by (auto simp: decide_defs split: option.splits if_splits)

lemma put_job_state_same:
  assumes "distinct (map job_id jobs)" and "j \<in> set jobs"
  shows "put_job_state (job_id j) (job_state j) 0 jobs = jobs"
proof -
  have "r\<lparr>job_state := job_state j, job_attempt_count := job_attempt_count r + 0\<rparr> = r"
    if "r \<in> set jobs" "job_id r = job_id j" for r
  proof -
    have "r = j" using assms that by (auto simp: distinct_map inj_on_def)
    then show ?thesis by simp
  qed
  then show ?thesis
    unfolding put_job_state_def update_where_def by (intro map_idI) simp
qed

text \<open>A transition that leaves the states an attempt may be open in closes the open attempt.\<close>

lemma leaving_closes_attempt:
  assumes inv: "attempts_inv (delivery_jobs s) (delivery_attempts s)"
    and j: "j \<in> set (delivery_jobs s)" and att: "attempt_of j aid ev s = Inr (att, s)"
    and d: "d = decide (job_state j) ev value (is_current_attempt j att) (job_attempt_count j) cap"
      "t_disposition d = Applied" "new_state d = Some st'" "ev \<noteq> CLAIM"
    and t: "t_disposition t = t_disposition d" "attempt_outcome t = attempt_outcome d"
    and rec: "record_outcome t att stamp s1 = Inr (x, s2)"
      "delivery_attempts s1 = delivery_attempts s"
    and b: "b \<in> set (delivery_attempts s2)" "att_job_id b = job_id j" "att_outcome b = None"
      "job_state j \<in> OPEN_STATES"
  shows "st' \<in> OPEN_STATES"
proof (rule ccontr)
  assume "st' \<notin> OPEN_STATES"
  note closing = decide_closing [OF _ d(4) _ b(4) this]
  have ev: "ev \<in> {RESULT, RECOVER}" "job_state j = IN_FLIGHT" "is_current_attempt j att"
    and out: "attempt_outcome d \<noteq> None"
    using closing [OF d(2) [unfolded d(1)] d(3) [unfolded d(1)]] unfolding d(1) by auto
  have "job_attempt_count j \<noteq> 0"
    using inv j ev(2) by (auto simp: attempts_inv_def list_all_iff)
  from attempt_of_current [OF att ev(1,3) this] obtain a where
    a: "att = Some a" "a \<in> set (delivery_attempts s)" "att_job_id a = job_id j"
      "att_no a = job_attempt_count j" by blast
  note cl = record_outcome_closes [OF rec(1)]
  from list_all2_in_set2 [OF cl(1) b(1)] obtain b0 where
    b0: "b0 \<in> set (delivery_attempts s)" "closes b0 b" unfolding rec(2) by blast
  then have "attempt_fits (delivery_jobs s) b0"
    using inv by (simp add: attempts_inv_def list_all_iff)
  then have "att_no b0 = job_attempt_count j" "att_job_id b0 = job_id j"
    using b0(2) b(2,3) inv j
    by (auto simp: attempt_fits_def closes_def attempts_inv_def distinct_map inj_on_def)
  then have "b0 = a"
    using inv a(2-4) b0(1) by (auto simp: attempts_inv_def distinct_map inj_on_def)
  with b0(2) cl(2) [OF _ a(1) _ b(1)] b(3) out t d(2) show False
    by (auto simp: closes_def)
qed

lemma reduce_attempts_inv:
  assumes inv: "attempts_inv (delivery_jobs s) (delivery_attempts s)"
    and run: "reduce cr jid aid ev value now cap s = Inr (t, u)"
  shows "attempts_inv (delivery_jobs u) (delivery_attempts u)"
proof -
  have dist: "distinct (map job_id (delivery_jobs s))" using inv by (simp add: attempts_inv_def)
  obtain j att c s1 s2 stamp where e:
    "find_job jid s = Some j" "attempt_of j aid ev s = Inr (att, s)"
    "delivery_jobs u = job_after jid ev t (delivery_jobs s)"
    "(t = REFUSED \<and> u = s) \<or>
       (let d = decide (job_state j) ev value (is_current_attempt j att) (job_attempt_count j) cap in
        t_disposition t = t_disposition d \<and> new_state t = new_state d
        \<and> attempt_outcome t = attempt_outcome d
        \<and> apply_transition j c ev stamp d s = Inr (Some t, s1)
        \<and> record_outcome t att stamp s1 = Inr ((), s2)
        \<and> after_outcome cr j c ev value (is_current_attempt j att) now t s2 = Inr (t, u))"
    by (rule reduce_effect [OF dist run]) blast
  define d where "d = decide (job_state j) ev value (is_current_attempt j att) (job_attempt_count j) cap"
  have j: "j \<in> set (delivery_jobs s)" "job_id j = jid" using find_job_mem [OF e(1)] by auto
  show ?thesis
  proof (cases "t = REFUSED \<and> u = s")
    case True
    then show ?thesis using inv by simp
  next
    case False
    then have td: "t_disposition t = t_disposition d" "new_state t = new_state d"
        "attempt_outcome t = attempt_outcome d"
      and app: "apply_transition j c ev stamp d s = Inr (Some t, s1)"
      and rec: "record_outcome t att stamp s1 = Inr ((), s2)"
      and aft: "after_outcome cr j c ev value (is_current_attempt j att) now t s2 = Inr (t, u)"
      using e(4) unfolding d_def [symmetric] Let_def by auto
    have atts: "delivery_attempts u = delivery_attempts s2"
      by (rule settles_fields(13) [OF after_outcome_settles [OF aft]])
    show ?thesis
    proof (cases "t_disposition d = Applied \<and> ev = CLAIM")
      case True
      then have "claim_job j (cmp_id c) stamp s = Inr (Some t, s1)"
        using app by (simp add: apply_transition_def)
      note ce = claim_job_effect [OF dist e(1) this]
      have "attempt_outcome t = None"
        using True td(3) decide_claim unfolding d_def by (fastforce simp: transition_of_def)
      then have "s2 = s1" using rec by (simp add: record_outcome_def)
      then show ?thesis
        using ce inv j next_id_fresh [of att_id "delivery_attempts s"]
        unfolding e(3) atts job_after_def
        by (auto simp: transition_of_def claims_one_def True
            intro!: attempts_inv_claim [unfolded One_nat_def])
    next
      case False
      then have s1: "delivery_attempts s1 = delivery_attempts s"
        using apply_transition_attempts [OF _ app] by blast
      define st' where "st' = (if t_disposition d = Applied then the (new_state d) else job_state j)"
      have jobs: "delivery_jobs u = put_job_state jid st' 0 (delivery_jobs s)"
        using False put_job_state_same [OF dist j(1)] j(2)
        by (auto simp: e(3) job_after_def td st'_def claims_one_def)
      have uniq: "k = j" if "k \<in> set (delivery_jobs s)" "job_id k = jid" for k
        using that j dist by (auto simp: distinct_map inj_on_def)
      show ?thesis unfolding jobs atts
      proof (rule attempts_inv_move [OF inv])
        show "list_all2 closes (delivery_attempts s) (delivery_attempts s2)"
          using record_outcome_closes(1) [OF rec] s1 by simp
      next
        fix k assume k: "k \<in> set (delivery_jobs s)" "job_id k = jid"
          "st' \<in> {IN_FLIGHT, FAILED_TRANSIENT, OUTCOME_UNKNOWN}"
        have "job_state j \<in> {IN_FLIGHT, FAILED_TRANSIENT, OUTCOME_UNKNOWN}"
          using False k(3) decide_applied_new_state decide_needs_attempts
          unfolding d_def st'_def by (fastforce split: if_splits)
        then show "job_attempt_count k \<noteq> 0"
          using inv j(1) uniq [OF k(1,2)] by (auto simp: attempts_inv_def list_all_iff)
      next
        fix k b assume k: "k \<in> set (delivery_jobs s)" "job_id k = jid" "b \<in> set (delivery_attempts s2)"
          "att_job_id b = jid" "att_outcome b = None" "job_state k \<in> OPEN_STATES"
        show "st' \<in> OPEN_STATES"
        proof (cases "t_disposition d = Applied")
          case applied: True
          then obtain st where st: "new_state d = Some st"
            using decide_applied_new_state unfolding d_def by blast
          have "st \<in> OPEN_STATES"
            using leaving_closes_attempt [OF inv j(1) e(2) d_def applied st _ td(1,3) rec s1 k(3)]
              False applied k(4-6) uniq [OF k(1,2)] j(2) by simp
          then show ?thesis by (simp add: st'_def applied st)
        qed (use k(6) uniq [OF k(1,2)] in \<open>simp add: st'_def\<close>)
      qed
    qed
  qed
qed

section \<open>The summary and the lifecycle agree with the jobs\<close>

lemma states_of_jobs: "delivery_jobs u = delivery_jobs s \<Longrightarrow> states_of gid u = states_of gid s"
  by (simp add: states_of_def jobs_of_def)

lemma attempted_keys:
  assumes "delivery_jobs u = delivery_jobs s" "attempt_keys u = attempt_keys s"
  shows "attempted gid u = attempted gid s"
proof -
  have "map att_job_id (delivery_attempts u) = map att_job_id (delivery_attempts s)"
    using arg_cong [OF assms(2), of "map (fst \<circ> snd)"] by (simp add: attempt_keys_def comp_def)
  then have "att_job_id ` set (delivery_attempts u) = att_job_id ` set (delivery_attempts s)"
    by (metis set_map)
  then show ?thesis
    using assms(1) unfolding attempted_def jobs_of_def list_ex_iff
    by (metis (no_types, lifting) image_iff)
qed

lemma find_campaign_update:
  assumes "find_campaign cid s = Some c" and "\<And>r. cmp_id (f r) = cmp_id r"
  shows "find_campaign cid (s\<lparr>campaigns := update_where (\<lambda>r. cmp_id r = cid) f (campaigns s)\<rparr>) = Some (f c)"
proof -
  have "cmp_id c = cid" using assms(1) unfolding find_campaign_def by (auto dest: find_Some_iff_key)
  then show ?thesis
    using assms find_update_where [of "\<lambda>r. cmp_id r = cid" cmp_id f cid "campaigns s"]
    by (simp add: find_campaign_def)
qed

lemma update_campaigns_Inr:
  "update_campaigns p f s = Inr (n, u) \<longleftrightarrow>
     list_all campaign_check (update_where p f (campaigns s)) \<and>
     n = length (filter p (campaigns s)) \<and>
     u = s\<lparr>campaigns := update_where p f (campaigns s)\<rparr>"
  by (auto simp: update_campaigns_def violates_def Let_def)

lemma same_core_find_campaign: "same_core s t \<Longrightarrow> find_campaign cid t = find_campaign cid s"
  by (simp add: find_campaign_def same_core_fields)

text \<open>After a refresh the summary is what \<open>summarize\<close> says of the job states.\<close>

lemma refresh_summary_effect:
  assumes "refresh_summary cr cid now s = Inr (r, u)" and "find_campaign cid s = Some c"
    and "cmp_generation_id c = Some gid"
  shows "\<exists>x stamp. summarize (states_of gid s) (attempted gid s) = Inr x \<and> r = Some x
    \<and> find_campaign cid u = Some (c\<lparr>cmp_summary := Some x, cmp_updated_at := stamp\<rparr>)"
proof -
  from assms obtain x where x: "summarize (states_of gid s) (attempted gid s) = Inr x" "r = Some x"
    and rest: "(if Some x \<noteq> cmp_summary c then
              tx_bind (tx_lift (iso now)) (\<lambda>stamp.
              tx_then (update_campaigns (\<lambda>r. cmp_id r = cid)
                         (\<lambda>r. r\<lparr>cmp_summary := Some x, cmp_updated_at := stamp\<rparr>))
              (if cmp_lifecycle c = LC_COMPLETE then
                 tx_then (append_event cr ''campaign.summary_changed'' (Some (cmp_ref c))
                   [(''summary'', jstr (summary_name x))] now None None) (tx_return ())
               else tx_return ()))
            else tx_return ()) s = Inr ((), u)"
    by (auto simp: refresh_summary_def tx_inr require_job_tx_def split: if_splits)
  show ?thesis
  proof (cases "Some x = cmp_summary c")
    case True
    with rest x assms(2) show ?thesis
      by (intro exI [of _ x] exI [of _ "cmp_updated_at c"]) auto
  next
    case False
    with rest obtain stamp t where t: "t = s\<lparr>campaigns := update_where (\<lambda>r. cmp_id r = cid)
          (\<lambda>r. r\<lparr>cmp_summary := Some x, cmp_updated_at := stamp\<rparr>) (campaigns s)\<rparr>"
        and "same_core t u"
      by (auto simp: tx_inr update_campaigns_Inr dest: append_event_core split: if_splits)
    then show ?thesis
      using x find_campaign_update [OF assms(2),
          of "\<lambda>r. r\<lparr>cmp_summary := Some x, cmp_updated_at := stamp\<rparr>"]
      by (auto simp: same_core_find_campaign)
  qed
qed

lemma refresh_summary_settles: "refresh_summary cr cid now s = Inr (r, u) \<Longrightarrow> settles cid s u"
  by (rule tx_withinD [OF settles.refresh_summary_within])

lemma complete_if_idle_settles: "complete_if_idle cr cid now s = Inr (r, u) \<Longrightarrow> settles cid s u"
  by (rule tx_withinD [OF settles.complete_if_idle_within])

lemma settles_views:
  assumes "settles cid s u"
  shows "states_of gid u = states_of gid s" "attempted gid u = attempted gid s"
    "find_generation gid u = find_generation gid s" "jobs_of gid u = jobs_of gid s"
  using settles_fields [OF assms]
  by (simp_all add: states_of_def jobs_of_def attempted_def find_generation_def)

text \<open>A sending campaign without pending or in-flight jobs becomes complete; nothing else changes
  its lifecycle.\<close>

lemma complete_if_idle_effect:
  assumes "complete_if_idle cr cid now s = Inr (r, u)" and "find_campaign cid s = Some c"
    and "cmp_generation_id c = Some gid"
  shows "if cmp_lifecycle c = LC_SENDING \<and> \<not> list_ex (\<lambda>x. x \<in> ACTIVE) (states_of gid s)
    then r \<and> (\<exists>x stamp. summarize (states_of gid s) (attempted gid s) = Inr x \<and>
      find_campaign cid u = Some (c\<lparr>cmp_summary := Some x, cmp_lifecycle := LC_COMPLETE,
                                    cmp_updated_at := stamp\<rparr>))
    else \<not> r \<and> u = s"
proof (cases "cmp_lifecycle c = LC_SENDING \<and> \<not> list_ex (\<lambda>x. x \<in> ACTIVE) (states_of gid s)")
  case False
  with assms show ?thesis
    by (auto simp: complete_if_idle_def tx_inr require_job_tx_def split: if_splits)
next
  case True
  with assms obtain sm t stamp u1 where ref: "refresh_summary cr cid now s = Inr (sm, t)"
    and u1: "u1 = t\<lparr>campaigns := update_where (\<lambda>r. cmp_id r = cid)
          (\<lambda>r. r\<lparr>cmp_lifecycle := LC_COMPLETE, cmp_updated_at := stamp\<rparr>) (campaigns t)\<rparr>"
    and core: "same_core u1 u" and "r"
    by (auto simp: complete_if_idle_def tx_inr require_job_tx_def update_campaigns_Inr tx_return_def
        dest!: append_event_core split: if_splits)
  from refresh_summary_effect [OF ref assms(2,3)] obtain x stamp' where
    x: "summarize (states_of gid s) (attempted gid s) = Inr x"
      "find_campaign cid t = Some (c\<lparr>cmp_summary := Some x, cmp_updated_at := stamp'\<rparr>)" by blast
  have "find_campaign cid u1 = Some (c\<lparr>cmp_summary := Some x, cmp_lifecycle := LC_COMPLETE,
                                    cmp_updated_at := stamp\<rparr>)"
    unfolding u1 using find_campaign_update [OF x(2),
        of "\<lambda>r. r\<lparr>cmp_lifecycle := LC_COMPLETE, cmp_updated_at := stamp\<rparr>"] by simp
  with True x(1) \<open>r\<close> same_core_find_campaign [OF core] show ?thesis by auto
qed

text \<open>What is true of a campaign between two transactions: it points at a generation of its own, its
  summary is the summary of that generation's jobs, and while it is sending some job is pending or in
  flight.\<close>

definition campaign_ok :: "comms_db \<Rightarrow> campaign_row \<Rightarrow> bool" where
  "campaign_ok s c \<longleftrightarrow>
     (case cmp_generation_id c of
        None \<Rightarrow> cmp_summary c = None \<and> cmp_lifecycle c \<noteq> LC_SENDING
      | Some gid \<Rightarrow>
          (case find_generation gid s of None \<Rightarrow> False | Some g \<Rightarrow> gen_campaign_id g = cmp_id c) \<and>
          (case summarize (states_of gid s) (attempted gid s) of
             Inl _ \<Rightarrow> False | Inr x \<Rightarrow> cmp_summary c = Some x) \<and>
          (cmp_lifecycle c = LC_SENDING \<longrightarrow> list_ex (\<lambda>x. x \<in> ACTIVE) (states_of gid s)))"

definition campaigns_inv :: "comms_db \<Rightarrow> bool" where
  "campaigns_inv s \<longleftrightarrow> distinct (map cmp_id (campaigns s)) \<and> list_all (campaign_ok s) (campaigns s)"

text \<open>The two phases that settle a campaign after a job of its current generation changed.\<close>

lemma settled_campaign_ok:
  assumes c: "find_campaign cid s = Some c" "cmp_generation_id c = Some gid"
      "\<exists>g. find_generation gid s = Some g \<and> gen_campaign_id g = cid"
    and run: "refresh_summary cr cid now s = Inr (r, s1)" "complete_if_idle cr cid now s1 = Inr (b, u)"
  shows "\<exists>d. find_campaign cid u = Some d \<and> campaign_ok u d"
proof -
  have cid: "cmp_id c = cid" using c(1) unfolding find_campaign_def by (auto dest: find_Some_iff_key)
  from refresh_summary_effect [OF run(1) c(1,2)] obtain x stamp where
    x: "summarize (states_of gid s) (attempted gid s) = Inr x"
      "find_campaign cid s1 = Some (c\<lparr>cmp_summary := Some x, cmp_updated_at := stamp\<rparr>)" by blast
  note v1 = settles_views [OF refresh_summary_settles [OF run(1)]]
    and v2 = settles_views [OF complete_if_idle_settles [OF run(2)]]
  from complete_if_idle_effect [OF run(2) x(2)] c(2,3) x(1) x(2) cid show ?thesis
    by (auto simp: campaign_ok_def v1 v2 split: if_splits)
qed

lemma after_outcome_phases:
  assumes "after_outcome cr j c ev value current now t s = Inr (r, u)"
  shows "if t_disposition t = Applied \<and> cmp_generation_id c = Some (job_generation_id j)
    then \<exists>s1 x s2 b. same_core s s1 \<and> refresh_summary cr (cmp_id c) now s1 = Inr (x, s2)
           \<and> complete_if_idle cr (cmp_id c) now s2 = Inr (b, u)
    else same_core s u"
proof -
  have w: "tx_within same_core (refuse_provider_update cr j c ev value current now t)"
    "tx_within same_core (complete_transport cr j c now t)"
    unfolding refuse_provider_update_def complete_transport_def
    by (intro same_core.within_intros same_core.append_event_within)+
  have r: "r = t" by (rule after_outcome_result [OF assms])
  have skip: "t_disposition t = Applied \<Longrightarrow> refuse_provider_update cr j c ev value current now t = tx_return ()"
    by (simp add: refuse_provider_update_def)
  show ?thesis
  proof (cases "t_disposition t = Applied \<and> cmp_generation_id c = Some (job_generation_id j)")
    case True
    with assms show ?thesis
      unfolding after_outcome_def r
      by (auto simp: tx_then_Inr skip dest!: tx_withinD [OF w(2)])
  next
    case False
    with assms show ?thesis
      unfolding after_outcome_def r
      by (auto simp: tx_then_Inr skip dest!: tx_withinD [OF w(1)] tx_withinD [OF w(2)] split: if_splits)
  qed
qed

lemma settles_campaign:
  assumes "settles cid s u"
  shows "cmp_id c \<noteq> cid \<Longrightarrow> c \<in> set (campaigns s) \<longleftrightarrow> c \<in> set (campaigns u)"
    and "map cmp_id (campaigns u) = map cmp_id (campaigns s)"
    and "d \<in> set (campaigns u) \<Longrightarrow> \<exists>c\<in>set (campaigns s). settled_row cid c d"
proof -
  have l: "list_all2 (settled_row cid) (campaigns s) (campaigns u)"
    using assms by (simp add: settles_def)
  then show "cmp_id c \<noteq> cid \<Longrightarrow> c \<in> set (campaigns s) \<longleftrightarrow> c \<in> set (campaigns u)"
    by (induction rule: list_all2_induct)
      (auto simp: settled_row_def dest: campaign_frame_fields(1))
  show "map cmp_id (campaigns u) = map cmp_id (campaigns s)"
    using l by (induction rule: list_all2_induct)
      (auto simp: settled_row_def dest: campaign_frame_fields(1))
  show "d \<in> set (campaigns u) \<Longrightarrow> \<exists>c\<in>set (campaigns s). settled_row cid c d"
    using l by (rule list_all2_in_set2)
qed

text \<open>What campaign_ok reads of the database.\<close>

lemma campaign_ok_cong:
  assumes "\<And>gid. cmp_generation_id c = Some gid \<Longrightarrow>
      find_generation gid u = find_generation gid s \<and> states_of gid u = states_of gid s
      \<and> attempted gid u = attempted gid s"
  shows "campaign_ok u c = campaign_ok s c"
  using assms by (auto simp: campaign_ok_def split: option.splits)

lemma filter_update_where_other:
  assumes "\<And>r. r \<in> set xs \<Longrightarrow> p r \<Longrightarrow> \<not> q r \<and> \<not> q (f r)"
  shows "filter q (update_where p f xs) = filter q xs"
  using assms by (induction xs) (auto simp: update_where_def)

lemma job_after_other_generation:
  assumes "find_job jid s = Some j" "distinct (map job_id (delivery_jobs s))"
    and "delivery_jobs u = job_after jid ev t (delivery_jobs s)" "gid \<noteq> job_generation_id j"
  shows "jobs_of gid u = jobs_of gid s"
proof -
  have "\<And>k. k \<in> set (delivery_jobs s) \<Longrightarrow> job_id k = jid \<Longrightarrow> job_generation_id k \<noteq> gid"
    using assms(1,2,4) find_job_mem [OF assms(1)] by (auto simp: distinct_map inj_on_def)
  then have "filter (\<lambda>j. job_generation_id j = gid) (put_job_state jid st n (delivery_jobs s))
      = filter (\<lambda>j. job_generation_id j = gid) (delivery_jobs s)" for st n
    unfolding put_job_state_def by (intro filter_update_where_other) simp
  then show ?thesis
    by (simp add: jobs_of_def assms(3) job_after_def)
qed

lemma attempted_other_generation:
  assumes "find_job jid s = Some j" "distinct (map job_id (delivery_jobs s))"
    and "jobs_of gid u = jobs_of gid s" "attempt_keys u = keys_after j ev t (attempt_keys s)"
    and "gid \<noteq> job_generation_id j"
  shows "attempted gid u = attempted gid s"
proof -
  have j: "j \<in> set (delivery_jobs s)" "job_id j = jid" using find_job_mem [OF assms(1)] by auto
  have not_j: "\<not> list_ex (\<lambda>k. job_id k = job_id j) (jobs_of gid s)"
    using assms(2,5) j by (auto simp: jobs_of_def list_ex_iff distinct_map inj_on_def)
  have exs: "attempted gid x = list_ex (\<lambda>i. list_ex (\<lambda>k. job_id k = i) (jobs_of gid x))
      (map (fst \<circ> snd) (attempt_keys x))" for x
    by (simp add: attempted_def attempt_keys_def list_ex_iff)
  show ?thesis
    unfolding exs assms(3,4) using not_j by (auto simp: keys_after_def)
qed

text \<open>The campaign of the job, and every other one.\<close>

lemma find_campaign_mem: "find_campaign cid s = Some c \<Longrightarrow> c \<in> set (campaigns s) \<and> cmp_id c = cid"
  unfolding find_campaign_def by (drule find_Some_iff_key) simp

lemma find_campaign_iff:
  assumes "distinct (map cmp_id (campaigns s))"
  shows "find_campaign cid s = Some c \<longleftrightarrow> c \<in> set (campaigns s) \<and> cmp_id c = cid"
  using find_campaign_mem find_key_unique [OF assms] unfolding find_campaign_def by blast

lemma campaign_of_generation_Some:
  assumes "campaign_of_generation gid s = Some c"
  shows "find_campaign (cmp_id c) s = Some c"
    and "\<exists>g. find_generation gid s = Some g \<and> gen_campaign_id g = cmp_id c"
  using assms find_campaign_mem
  by (auto simp: campaign_of_generation_def split: option.splits)

lemma reduce_settles:
  assumes "reduce cr jid aid ev value now cap s = Inr (t, u)"
    and "find_job jid s = Some j" "campaign_of_generation (job_generation_id j) s = Some c"
  shows "\<exists>s2. settles (cmp_id c) s2 u \<and> campaigns s2 = campaigns s \<and> generations s2 = generations s
     \<and> in_transaction s2 = in_transaction s \<and> provider_events s2 = provider_events s"
proof -
  from assms(1) obtain stamp j' att c' out s1 s2 where ph:
    "find_job jid s = Some j'"
    "campaign_of_generation (job_generation_id j') s = Some c'"
    "apply_transition j' c' ev stamp
       (decide (job_state j') ev value (is_current_attempt j' att) (job_attempt_count j') cap) s
     = Inr (out, s1)"
    "case out of None \<Rightarrow> t = REFUSED \<and> u = s1
     | Some t' \<Rightarrow> t = t' \<and> record_outcome t att stamp s1 = Inr ((), s2) \<and>
         after_outcome cr j' c' ev value (is_current_attempt j' att) now t s2 = Inr (t, u)"
    by (rule reduce_phases)
  with assms(2,3) have c: "c' = c" by simp
  note tabs = apply_transition_tables [OF ph(3)]
  show ?thesis
  proof (cases out)
    case None
    with ph(4) tabs show ?thesis by (intro exI [of _ s1]) (simp add: settles.R_refl)
  next
    case (Some t')
    with ph(4) have rec: "record_outcome t att stamp s1 = Inr ((), s2)"
      and aft: "after_outcome cr j' c' ev value (is_current_attempt j' att) now t s2 = Inr (t, u)"
      by auto
    with tabs record_outcome_tables [OF rec] after_outcome_settles [OF aft] show ?thesis
      by (intro exI [of _ s2]) (simp add: c)
  qed
qed

lemma reduce_other_campaign:
  assumes dist: "distinct (map job_id (delivery_jobs s))"
    and run: "reduce cr jid aid ev value now cap s = Inr (t, u)"
    and j: "find_job jid s = Some j"
    and c': "campaign_ok s c'" "cmp_generation_id c' \<noteq> Some (job_generation_id j)"
  shows "campaign_ok u c'"
proof -
  obtain c where e: "campaign_of_generation (job_generation_id j) s = Some c"
    "delivery_jobs u = job_after jid ev t (delivery_jobs s)"
    "attempt_keys u = keys_after j ev t (attempt_keys s)"
    using j by (auto intro: reduce_effect [OF dist run])
  obtain s2 where s2: "settles (cmp_id c) s2 u" "generations s2 = generations s"
    using reduce_settles [OF run j e(1)] by blast
  have gens: "generations u = generations s" using settles_fields(10) [OF s2(1)] s2(2) by simp
  have jobs: "jobs_of gid u = jobs_of gid s" if "gid \<noteq> job_generation_id j" for gid
    by (rule job_after_other_generation [OF j dist e(2) that])
  have "campaign_ok u c' = campaign_ok s c'"
  proof (rule campaign_ok_cong)
    fix gid assume "cmp_generation_id c' = Some gid"
    with c'(2) have gid: "gid \<noteq> job_generation_id j" by auto
    show "find_generation gid u = find_generation gid s \<and> states_of gid u = states_of gid s
      \<and> attempted gid u = attempted gid s"
      using jobs [OF gid] gens attempted_other_generation [OF j dist jobs [OF gid] e(3) gid]
      by (simp add: find_generation_def states_of_def)
  qed
  with c'(1) show ?thesis by simp
qed

text \<open>The job's own campaign after an applied transition of its current generation.\<close>

lemma reduce_own_campaign:
  assumes dist: "distinct (map job_id (delivery_jobs s))"
    and run: "reduce cr jid aid ev value now cap s = Inr (t, u)" "t_disposition t = Applied"
    and j: "find_job jid s = Some j" "campaign_of_generation (job_generation_id j) s = Some c"
      "cmp_generation_id c = Some (job_generation_id j)"
  shows "\<exists>d. find_campaign (cmp_id c) u = Some d \<and> campaign_ok u d"
proof -
  obtain att s1 s2 stamp where
    rec: "record_outcome t att stamp s1 = Inr ((), s2)"
    and app: "apply_transition j c ev stamp (decide (job_state j) ev value (is_current_attempt j att)
      (job_attempt_count j) cap) s = Inr (Some t, s1)"
    and aft: "after_outcome cr j c ev value (is_current_attempt j att) now t s2 = Inr (t, u)"
    using run(2) j
    by - (rule reduce_effect [OF dist run(1)],
        fastforce simp: Let_def REFUSED_def transition_of_def)
  from after_outcome_phases [OF aft] run(2) j(3) obtain s3 x s4 b where
    s3: "same_core s2 s3" "refresh_summary cr (cmp_id c) now s3 = Inr (x, s4)"
      "complete_if_idle cr (cmp_id c) now s4 = Inr (b, u)" by auto
  have tabs: "campaigns s3 = campaigns s" "generations s3 = generations s"
    using same_core_fields(10,11) [OF s3(1)] record_outcome_tables(2,3) [OF rec]
      apply_transition_tables(1,2) [OF app] by auto
  have "find_campaign (cmp_id c) s3 = Some c"
    using campaign_of_generation_Some(1) [OF j(2)] by (simp add: find_campaign_def tabs)
  moreover have "\<exists>g. find_generation (job_generation_id j) s3 = Some g \<and> gen_campaign_id g = cmp_id c"
    using campaign_of_generation_Some(2) [OF j(2)] by (simp add: find_generation_def tabs)
  ultimately show ?thesis
    using settled_campaign_ok j(3) s3(2,3) by blast
qed

text \<open>Without an applied transition of the current generation no campaign row changes.\<close>

lemma reduce_unsettled:
  assumes dist: "distinct (map job_id (delivery_jobs s))"
    and run: "reduce cr jid aid ev value now cap s = Inr (t, u)"
    and j: "find_job jid s = Some j" "campaign_of_generation (job_generation_id j) s = Some c"
      "\<not> (t_disposition t = Applied \<and> cmp_generation_id c = Some (job_generation_id j))"
  shows "campaigns u = campaigns s \<and> generations u = generations s"
proof -
  obtain att s1 s2 stamp d where e: "u = s \<or>
      (apply_transition j c ev stamp d s = Inr (Some t, s1)
       \<and> record_outcome t att stamp s1 = Inr ((), s2)
       \<and> after_outcome cr j c ev value (is_current_attempt j att) now t s2 = Inr (t, u))"
    using j by - (rule reduce_effect [OF dist run], fastforce simp: Let_def)
  show ?thesis
  proof (cases "u = s")
    case False
    with e have app: "apply_transition j c ev stamp d s = Inr (Some t, s1)"
      and rec: "record_outcome t att stamp s1 = Inr ((), s2)"
      and aft: "after_outcome cr j c ev value (is_current_attempt j att) now t s2 = Inr (t, u)"
      by auto
    have "same_core s2 u" using after_outcome_phases [OF aft] j(3) by (auto split: if_splits)
    with record_outcome_tables [OF rec] apply_transition_tables [OF app] show ?thesis
      using same_core_fields(10,11) by auto
  qed simp
qed

lemma reduce_campaigns_inv:
  assumes dist: "distinct (map job_id (delivery_jobs s))" and inv: "campaigns_inv s"
    and run: "reduce cr jid aid ev value now cap s = Inr (t, u)"
  shows "campaigns_inv u"
proof -
  obtain j c where e: "find_job jid s = Some j"
    "campaign_of_generation (job_generation_id j) s = Some c"
    "delivery_jobs u = job_after jid ev t (delivery_jobs s)"
    "attempt_keys u = keys_after j ev t (attempt_keys s)"
    by (rule reduce_effect [OF dist run]) blast
  obtain s2 where s2: "settles (cmp_id c) s2 u" "campaigns s2 = campaigns s"
      "generations s2 = generations s"
    using reduce_settles [OF run e(1,2)] by blast
  note sc = settles_campaign [OF s2(1), unfolded s2(2)]
  have distu: "distinct (map cmp_id (campaigns u))"
    using inv sc(2) by (simp add: campaigns_inv_def)
  have ok: "campaign_ok s d" if "d \<in> set (campaigns s)" for d
    using inv that by (simp add: campaigns_inv_def list_all_iff)
  have c: "c \<in> set (campaigns s)" "find_campaign (cmp_id c) s = Some c"
    using campaign_of_generation_Some(1) [OF e(2)]
      find_campaign_mem [OF campaign_of_generation_Some(1) [OF e(2)]] by auto
  obtain g where g: "find_generation (job_generation_id j) s = Some g" "gen_campaign_id g = cmp_id c"
    using campaign_of_generation_Some(2) [OF e(2)] by blast
  have own: "cmp_generation_id d \<noteq> Some (job_generation_id j)" if "campaign_ok s d" "cmp_id d \<noteq> cmp_id c" for d
    using that g by (auto simp: campaign_ok_def)
  have "campaign_ok u d" if d: "d \<in> set (campaigns u)" for d
  proof (cases "cmp_id d = cmp_id c")
    case False
    with sc(1) d have "d \<in> set (campaigns s)" by blast
    with ok own False show ?thesis by (blast intro: reduce_other_campaign [OF dist run e(1)])
  next
    case same: True
    show ?thesis
    proof (cases "t_disposition t = Applied \<and> cmp_generation_id c = Some (job_generation_id j)")
      case True
      with reduce_own_campaign [OF dist run _ e(1,2)] obtain d' where
        "find_campaign (cmp_id c) u = Some d'" "campaign_ok u d'" by blast
      moreover have "find_campaign (cmp_id c) u = Some d"
        using d same find_campaign_iff [OF distu, of "cmp_id c" d] by simp
      ultimately show ?thesis by simp
    next
      case False
      then have u: "campaigns u = campaigns s" "generations u = generations s"
        using reduce_unsettled [OF dist run e(1,2)] by auto
      have "d = c" using d same c(1) distu by (auto simp: u distinct_map inj_on_def)
      show ?thesis
      proof (cases "t_disposition t = Applied")
        case True
        with False ok [OF c(1)] show ?thesis
          unfolding \<open>d = c\<close> by (intro reduce_other_campaign [OF dist run e(1)]) auto
      next
        case False
        then have same: "delivery_jobs u = delivery_jobs s" "attempt_keys u = attempt_keys s"
          using e(3,4) by (simp_all add: job_after_def keys_after_def)
        have "campaign_ok u c = campaign_ok s c"
          using u(2) states_of_jobs [OF same(1)] attempted_keys [OF same]
          by (intro campaign_ok_cong) (simp add: find_generation_def)
        with ok [OF c(1)] show ?thesis unfolding \<open>d = c\<close> by simp
      qed
    qed
  qed
  with distu show ?thesis by (simp add: campaigns_inv_def list_all_iff)
qed

end
