(* ===== verification/Comms_Demo.thy ===== *)
theory Comms_Demo
  imports Comms_Reducer
begin

text \<open>
  A small database the witnesses evaluate the model on: one campaign that is sending a generation
  of two jobs, one pending and one in flight on its first attempt. The crypto record holds
  functions with outputs of the documented lengths.
\<close>

definition zero_hex :: "nat \<Rightarrow> string" where
  "zero_hex n = replicate n (CHR ''0'')"

definition demo_crypto :: crypto where
  "demo_crypto = \<lparr>sha256_hex = (\<lambda>_. zero_hex 64), hmac_sha256_hex = (\<lambda>_ _. zero_hex 64),
     ed25519_public = (\<lambda>_. replicate 32 (CHR ''p'')), ed25519_sign_hex = (\<lambda>_ _. zero_hex 128),
     ed25519_verify = (\<lambda>_ _ _. True)\<rparr>"

definition demo_now :: datetime where
  "demo_now = Aware (2026, 1, 2, 3, 4, 5, 6)"

definition demo_stamp :: string where
  "demo_stamp = ''2026-01-02T03:04:05.000006Z''"

definition demo_campaign :: campaign_row where
  "demo_campaign = \<lparr>cmp_id = 1, cmp_ref = ''cmp_aaaaaaaaaaaaaaaaaaaaaaaaaa'', cmp_title = ''t'',
     cmp_lifecycle = LC_SENDING, cmp_content = JObj [], cmp_targets = [], cmp_transports = [''telegram''],
     cmp_summary = Some SUM_IN_PROGRESS, cmp_generation_id = Some 1, cmp_created_at = demo_stamp,
     cmp_updated_at = demo_stamp\<rparr>"

definition demo_generation :: generation_row where
  "demo_generation = \<lparr>gen_id = 1, gen_ref = ''gen_aaaaaaaaaaaaaaaaaaaaaaaaaa'', gen_campaign_id = 1,
     gen_created_at = demo_stamp, gen_send_at = demo_stamp, gen_content = JObj [],
     gen_snapshot_digest = zero_hex 64, gen_status = GEN_ACTIVE, gen_commitment = None,
     gen_commit_key_id = None\<rparr>"

definition demo_job :: "nat \<Rightarrow> job_state \<Rightarrow> nat \<Rightarrow> job_row" where
  "demo_job n st attempts = \<lparr>job_id = n, job_ref = ''djb_'' @ replicate 26 (char_of (96 + n)),
     job_generation_id = 1, job_transport = ''telegram'', job_identity_id = n,
     job_key = replicate 64 (char_of (96 + n)), job_payload = Some [], job_payload_digest = Some (zero_hex 64),
     job_skip_reason = None, job_state = st, job_attempt_count = attempts\<rparr>"

definition demo_attempt :: "nat \<Rightarrow> nat \<Rightarrow> attempt_row" where
  "demo_attempt n jid = \<lparr>att_id = n, att_ref = ''dat_'' @ replicate 26 (CHR ''z''), att_job_id = jid,
     att_no = 1, att_started_at = demo_stamp, att_finished_at = None, att_outcome = None,
     att_provider_ref = None, att_request_key = None, att_actor = None, att_outcome_code = None\<rparr>"

definition empty_db :: comms_db where
  "empty_db = \<lparr>in_transaction = False, locations = [], recipients = [], delivery_identities = [],
     destinations = [], contact_points = [], location_members = [], audiences = [],
     audience_members = [], campaigns = [], generations = [], delivery_jobs = [], job_origins = [],
     delivery_attempts = [], provider_events = [], campaign_events = [], audit_events = [],
     audit_checkpoints = [],
     audit_integrity = \<lparr>int_degraded = False, int_reason = None, int_since = None\<rparr>,
     endpoint_window = [], template_bindings = [], groups = [], pending_group_creations = [],
     provider_objects = [], media_facts = [], mutations = [], mutation_steps = [], audit_appended = False,
     entropy = (\<lambda>n. 64 * n), draws = 0\<rparr>"

definition demo_db :: comms_db where
  "demo_db = empty_db\<lparr>in_transaction := True, campaigns := [demo_campaign],
     generations := [demo_generation],
     delivery_jobs := [demo_job 1 PENDING 0, demo_job 2 IN_FLIGHT 1],
     delivery_attempts := [demo_attempt 1 2]\<rparr>"

end
