(* ===== verification/Comms_Delivery.thy ===== *)
theory Comms_Delivery
  imports Comms_Reducer_Props Comms_Demo
begin

text \<open>
  The delivery invariant of the campaign core and the reducer's guarantees stated for whole calls:
  one job per call, safe claims, and the binding of provider references.
\<close>

section \<open>The delivery invariant\<close>

definition delivery_inv :: "comms_db \<Rightarrow> bool" where
  "delivery_inv s \<longleftrightarrow> attempts_inv (delivery_jobs s) (delivery_attempts s) \<and> campaigns_inv s"

lemma delivery_inv_ids: "delivery_inv s \<Longrightarrow> distinct (map job_id (delivery_jobs s))"
  by (simp add: delivery_inv_def attempts_inv_def)

lemma reduce_inv:
  assumes "delivery_inv s" and "reduce cr jid aid ev value now cap s = Inr (t, u)"
  shows "delivery_inv u"
  using reduce_attempts_inv [OF _ assms(2)] reduce_campaigns_inv [OF delivery_inv_ids [OF assms(1)] _ assms(2)]
    assms(1) by (simp add: delivery_inv_def)

text \<open>C8: the delivery invariant survives every call of the reducer, whatever the evidence. Each job's
  attempts stay numbered from one to its attempt count without gap or repetition, no new attempt
  starts while another is open, every campaign's stored summary is the summary of the states of its
  generation's jobs, and a campaign that is sending has a job that is still pending or in flight.\<close>

theorem reduce_keeps_delivery_inv:
  assumes "delivery_inv s" and "reduce cr jid aid ev value now cap s = Inr (t, u)"
  shows "delivery_inv u"
  using assms by (rule reduce_inv)

lemma demo_db_inv: "delivery_inv demo_db"
  by code_simp

definition demo_result :: "exn + transition \<times> comms_db" where
  "demo_result = reduce demo_crypto 2 None RESULT (Some OUTCOME_UNKNOWN) demo_now 5 demo_db"

lemma demo_result_ok: "ok_with (\<lambda>t _. t_disposition t = Applied) demo_result"
  unfolding demo_result_def by code_simp

theorem reduce_keeps_delivery_inv_witness:
  "delivery_inv demo_db \<and> (\<exists>t u. demo_result = Inr (t, u) \<and> delivery_inv u)"
proof -
  obtain t u where "demo_result = Inr (t, u)"
    using ok_withD [OF demo_result_ok] by blast
  with reduce_keeps_delivery_inv [OF demo_db_inv, of demo_crypto 2 None RESULT
      "Some OUTCOME_UNKNOWN" demo_now 5 t u] demo_db_inv show ?thesis
    by (auto simp: demo_result_def)
qed

section \<open>One job per call\<close>

text \<open>C12: a call of the reducer changes the state of at most the one job it names, and only as the
  decision table says. Jobs are neither added nor removed, every other job row is untouched, the
  named job's row changes only in its state and attempt count, and when the call is not applied no
  job changes at all.\<close>

theorem reduce_changes_one_job:
  assumes "distinct (map job_id (delivery_jobs s))"
    and "reduce cr jid aid ev value now cap s = Inr (t, u)"
  shows "\<exists>j att. find_job jid s = Some j \<and> attempt_of j aid ev s = Inr (att, s)
    \<and> (t_disposition t = Applied \<longrightarrow> (\<exists>st.
         new_state (decide (job_state j) ev value (is_current_attempt j att) (job_attempt_count j) cap)
           = Some st
         \<and> delivery_jobs u = update_where (\<lambda>r. job_id r = jid)
             (\<lambda>r. r\<lparr>job_state := st,
                    job_attempt_count := job_attempt_count r + (if ev = CLAIM then 1 else 0)\<rparr>)
             (delivery_jobs s)))
    \<and> (t_disposition t \<noteq> Applied \<longrightarrow> delivery_jobs u = delivery_jobs s)"
proof -
  obtain j att where e: "find_job jid s = Some j" "attempt_of j aid ev s = Inr (att, s)"
    "delivery_jobs u = job_after jid ev t (delivery_jobs s)"
    "t = REFUSED \<or> (let d = decide (job_state j) ev value (is_current_attempt j att)
         (job_attempt_count j) cap
       in t_disposition t = t_disposition d \<and> new_state t = new_state d)"
    by (rule reduce_effect [OF assms]) (auto simp: Let_def)
  then show ?thesis
    using decide_applied_new_state [of "job_state j" ev "value" "is_current_attempt j att"
        "job_attempt_count j" cap]
    by (intro exI [of _ j] exI [of _ att])
      (auto simp: Let_def job_after_def put_job_state_def claims_one_def REFUSED_def
        transition_of_def split: if_splits)
qed

theorem reduce_changes_one_job_witness:
  "\<exists>t u. demo_result = Inr (t, u) \<and> map job_state (delivery_jobs u) = [PENDING, OUTCOME_UNKNOWN]"
proof -
  obtain t u where r: "demo_result = Inr (t, u)" and applied: "t_disposition t = Applied"
    using ok_withD [OF demo_result_ok] by blast
  have d: "distinct (map job_id (delivery_jobs demo_db))" by code_simp
  have job: "find_job 2 demo_db = Some (demo_job 2 IN_FLIGHT 1)" by code_simp
  from reduce_changes_one_job [OF d r [unfolded demo_result_def]] applied job
  obtain st where "st = OUTCOME_UNKNOWN"
      "delivery_jobs u = update_where (\<lambda>r. job_id r = 2)
         (\<lambda>r. r\<lparr>job_state := st, job_attempt_count := job_attempt_count r + 0\<rparr>) (delivery_jobs demo_db)"
    by (auto simp: decide_defs demo_job_def split: if_splits)
  then have "map job_state (delivery_jobs u) = [PENDING, OUTCOME_UNKNOWN]"
    by (simp add: update_where_def demo_db_def demo_job_def)
  then show ?thesis by (intro exI conjI) (rule r, assumption)
qed

section \<open>Claims\<close>

lemma claim_effect:
  assumes "distinct (map job_id (delivery_jobs s))"
    and "reduce cr jid aid CLAIM value now cap s = Inr (t, u)" and "t_disposition t = Applied"
  shows "\<exists>j c a. find_job jid s = Some j \<and> job_state j = PENDING \<and> \<not> is_degraded s
    \<and> c \<in> set (campaigns s) \<and> cmp_lifecycle c = LC_SENDING
    \<and> cmp_generation_id c = Some (job_generation_id j)
    \<and> delivery_attempts u = delivery_attempts s @ [a] \<and> t_attempt_id t = Some (att_id a)
    \<and> att_job_id a = jid \<and> att_no a = Suc (job_attempt_count j) \<and> att_outcome a = None
    \<and> att_id a \<notin> att_id ` set (delivery_attempts s)
    \<and> find_job jid u = Some (j\<lparr>job_state := IN_FLIGHT, job_attempt_count := Suc (job_attempt_count j)\<rparr>)"
proof -
  obtain j att c s1 s2 stamp where e: "find_job jid s = Some j"
    "delivery_jobs u = job_after jid CLAIM t (delivery_jobs s)"
    "apply_transition j c CLAIM stamp (decide (job_state j) CLAIM value (is_current_attempt j att)
        (job_attempt_count j) cap) s = Inr (Some t, s1)"
    "record_outcome t att stamp s1 = Inr ((), s2)"
    "after_outcome cr j c CLAIM value (is_current_attempt j att) now t s2 = Inr (t, u)"
    "t_disposition (decide (job_state j) CLAIM value (is_current_attempt j att)
        (job_attempt_count j) cap) = Applied"
    using assms(3)
    by - (rule reduce_effect [OF assms(1,2)], fastforce simp: Let_def REFUSED_def transition_of_def)
  have jid: "job_id j = jid" using find_job_mem [OF e(1)] by simp
  from e(3,6) have "claim_job j (cmp_id c) stamp s = Inr (Some t, s1)"
    by (simp add: apply_transition_def)
  note ce = claim_job_effect [OF assms(1) e(1) this]
  then have t: "new_state t = Some IN_FLIGHT" "attempt_outcome t = None"
    by (auto simp: transition_of_def)
  with e(4) have s2: "s2 = s1" by (simp add: record_outcome_def)
  have atts: "delivery_attempts u = delivery_attempts s1"
    using settles_fields(13) [OF after_outcome_settles [OF e(5)]] s2 by simp
  have "find_job jid u = Some (j\<lparr>job_state := IN_FLIGHT, job_attempt_count := Suc (job_attempt_count j)\<rparr>)"
    using e(1,2) assms(3) t(1) jid
      find_update_where [of "\<lambda>r. job_id r = jid" job_id
        "\<lambda>r. r\<lparr>job_state := IN_FLIGHT, job_attempt_count := Suc (job_attempt_count r)\<rparr>" jid "delivery_jobs s"]
    by (simp add: find_job_def job_after_def put_job_state_def claims_one_def)
  with ce e(1) atts next_id_fresh [of att_id "delivery_attempts s"] show ?thesis
    by (elim disjE exE) (simp, fastforce)
qed

text \<open>C9: a claim is safe. A claim is applied only to a pending job, of the generation its campaign is
  currently sending, while the audit trail is intact; it puts the job in flight, raises its attempt
  count by one and creates exactly one attempt row, with the next number and no outcome, under an
  identifier no attempt had before.\<close>

theorem claim_is_safe:
  assumes "distinct (map job_id (delivery_jobs s))"
    and "reduce cr jid aid CLAIM value now cap s = Inr (t, u)" and "t_disposition t = Applied"
  shows "\<exists>j c a. find_job jid s = Some j \<and> job_state j = PENDING \<and> \<not> is_degraded s
    \<and> c \<in> set (campaigns s) \<and> cmp_lifecycle c = LC_SENDING
    \<and> cmp_generation_id c = Some (job_generation_id j)
    \<and> delivery_attempts u = delivery_attempts s @ [a] \<and> t_attempt_id t = Some (att_id a)
    \<and> att_job_id a = jid \<and> att_no a = Suc (job_attempt_count j) \<and> att_outcome a = None
    \<and> att_id a \<notin> att_id ` set (delivery_attempts s)
    \<and> find_job jid u = Some (j\<lparr>job_state := IN_FLIGHT, job_attempt_count := Suc (job_attempt_count j)\<rparr>)"
  using assms by (rule claim_effect)

definition demo_claim :: "exn + transition \<times> comms_db" where
  "demo_claim = reduce demo_crypto 1 None CLAIM None demo_now 5 demo_db"

lemma demo_claim_applied: "ok_with (\<lambda>t _. t_disposition t = Applied) demo_claim"
  unfolding demo_claim_def by code_simp

theorem claim_is_safe_witness:
  "\<exists>t u a. demo_claim = Inr (t, u) \<and> delivery_attempts u = delivery_attempts demo_db @ [a] \<and> att_no a = 1"
proof -
  obtain t u where r: "demo_claim = Inr (t, u)" "t_disposition t = Applied"
    using ok_withD [OF demo_claim_applied] by blast
  have d: "distinct (map job_id (delivery_jobs demo_db))" by code_simp
  have job: "find_job 1 demo_db = Some (demo_job 1 PENDING 0)" by code_simp
  from claim_is_safe [OF d r(1) [unfolded demo_claim_def] r(2)] job r(1) show ?thesis
    by (auto simp: demo_job_def)
qed

end
