(* ===== verification/Comms_System.thy ===== *)
theory Comms_System
  imports Comms_Delivery
begin

text \<open>
  The invariant of the whole campaign core, \<open>system_inv\<close>: the delivery invariant, every job's
  generation stored, and for each campaign what its lifecycle promises of its current generation.
  The lemmas show how one call of the reducer keeps it. The invariant is split into the tables, the
  campaigns other than a given one, and that one's own row, because operations that rewrite a
  campaign's lifecycle break and restore only its own row.
\<close>

section \<open>The system invariant\<close>

text \<open>What the lifecycle says of a campaign's current generation: there is one exactly while the
  campaign is scheduled, sending or complete; nothing of a scheduled one was ever attempted and
  something is pending; nothing of a complete one is pending or in flight.\<close>

definition lifecycle_ok :: "comms_db \<Rightarrow> campaign_row \<Rightarrow> bool" where
  "lifecycle_ok s c \<longleftrightarrow>
     (case cmp_generation_id c of
        None \<Rightarrow> cmp_lifecycle c \<in> {LC_DRAFT, LC_READY, LC_CANCELLED}
      | Some gid \<Rightarrow>
          (case cmp_lifecycle c of
             LC_SCHEDULED \<Rightarrow>
               list_all (\<lambda>j. job_attempt_count j = 0 \<and> job_state j \<in> {PENDING, SKIPPED_PLATFORM_POLICY})
                 (jobs_of gid s)
               \<and> list_ex (\<lambda>j. job_state j = PENDING) (jobs_of gid s)
           | LC_SENDING \<Rightarrow> True
           | LC_COMPLETE \<Rightarrow> list_all (\<lambda>x. x \<notin> ACTIVE) (states_of gid s)
           | _ \<Rightarrow> False))"

definition row_ok :: "comms_db \<Rightarrow> campaign_row \<Rightarrow> bool" where
  "row_ok s c \<longleftrightarrow> campaign_ok s c \<and> lifecycle_ok s c"

text \<open>The tables, and every campaign but \<open>cid\<close>.\<close>

definition tables_ok :: "comms_db \<Rightarrow> bool" where
  "tables_ok s \<longleftrightarrow> attempts_inv (delivery_jobs s) (delivery_attempts s)
     \<and> distinct (map cmp_id (campaigns s))
     \<and> distinct (map job_ref (delivery_jobs s))
     \<and> gen_campaign_id ` set (generations s) \<subseteq> cmp_id ` set (campaigns s)
     \<and> list_all (\<lambda>j. list_ex (\<lambda>g. gen_id g = job_generation_id j) (generations s)) (delivery_jobs s)"

definition others_ok :: "nat \<Rightarrow> comms_db \<Rightarrow> bool" where
  "others_ok cid s \<longleftrightarrow> tables_ok s \<and> (\<forall>c\<in>set (campaigns s). cmp_id c \<noteq> cid \<longrightarrow> row_ok s c)"

definition system_inv :: "comms_db \<Rightarrow> bool" where
  "system_inv s \<longleftrightarrow> tables_ok s \<and> list_all (row_ok s) (campaigns s)"

lemma system_inv_delivery: "system_inv s \<Longrightarrow> delivery_inv s"
  by (auto simp: system_inv_def delivery_inv_def tables_ok_def campaigns_inv_def row_ok_def list_all_iff)

lemma system_inv_others:
  "system_inv s \<longleftrightarrow> others_ok cid s \<and> (\<forall>c\<in>set (campaigns s). cmp_id c = cid \<longrightarrow> row_ok s c)"
  by (auto simp: system_inv_def others_ok_def list_all_iff)

lemma system_inv_row: "system_inv s \<Longrightarrow> c \<in> set (campaigns s) \<Longrightarrow> row_ok s c"
  by (simp add: system_inv_def list_all_iff)

lemma map_eq_image: "map f xs = map f ys \<Longrightarrow> f ` set xs = f ` set ys"
  by (metis set_map)

text \<open>What a row's condition reads of the database.\<close>

lemma row_ok_cong:
  assumes "\<And>gid. cmp_generation_id c = Some gid \<Longrightarrow>
      find_generation gid u = find_generation gid s \<and> jobs_of gid u = jobs_of gid s
      \<and> attempted gid u = attempted gid s"
  shows "row_ok u c = row_ok s c"
proof -
  have "campaign_ok u c = campaign_ok s c"
    using assms by (intro campaign_ok_cong) (simp add: states_of_def)
  moreover have "lifecycle_ok u c = lifecycle_ok s c"
    using assms by (auto simp: lifecycle_ok_def states_of_def split: option.splits lifecycle.splits)
  ultimately show ?thesis by (simp add: row_ok_def)
qed

text \<open>A row's condition under changes of its other columns.\<close>

lemma row_ok_owner:
  assumes "row_ok s c" "cmp_generation_id c = Some gid"
  shows "\<exists>g. find_generation gid s = Some g \<and> gen_campaign_id g = cmp_id c"
  using assms by (auto simp: row_ok_def campaign_ok_def split: option.splits)

section \<open>One call of the reducer\<close>

lemma tables_ok_ids: "tables_ok s \<Longrightarrow> distinct (map job_id (delivery_jobs s))"
  by (simp add: tables_ok_def attempts_inv_def)

lemma reduce_generations:
  assumes "distinct (map job_id (delivery_jobs s))" "reduce cr jid aid ev value now cap s = Inr (t, u)"
  shows "generations u = generations s"
    and "map (\<lambda>j. (job_id j, job_generation_id j)) (delivery_jobs u)
       = map (\<lambda>j. (job_id j, job_generation_id j)) (delivery_jobs s)"
    and "in_transaction u = in_transaction s"
proof -
  obtain j c where e: "find_job jid s = Some j" "campaign_of_generation (job_generation_id j) s = Some c"
    "delivery_jobs u = job_after jid ev t (delivery_jobs s)"
    by (rule reduce_effect [OF assms]) blast
  obtain s2 where "settles (cmp_id c) s2 u" "generations s2 = generations s"
      "in_transaction s2 = in_transaction s"
    using reduce_settles [OF assms(2) e(1,2)] by blast
  then show "generations u = generations s" "in_transaction u = in_transaction s"
    using settles_fields(1,10) [of "cmp_id c" s2 u] by simp_all
  show "map (\<lambda>j. (job_id j, job_generation_id j)) (delivery_jobs u)
       = map (\<lambda>j. (job_id j, job_generation_id j)) (delivery_jobs s)"
    unfolding e(3) by (simp add: job_after_def put_job_state_def)
qed

text \<open>The campaign row of the job after the call: only its summary, its update time and, from sending
  to complete, its lifecycle change.\<close>

definition settled_from :: "campaign_row \<Rightarrow> campaign_row \<Rightarrow> bool" where
  "settled_from c d \<longleftrightarrow> campaign_frame c d
     \<and> (cmp_lifecycle d = cmp_lifecycle c \<or> cmp_lifecycle c = LC_SENDING \<and> cmp_lifecycle d = LC_COMPLETE)"

lemma settled_phases:
  assumes "find_campaign cid s = Some c" "cmp_generation_id c = Some gid"
    and "refresh_summary cr cid now s = Inr (r, s1)" "complete_if_idle cr cid now s1 = Inr (b, u)"
  shows "\<exists>d. find_campaign cid u = Some d \<and> settled_from c d
     \<and> (cmp_lifecycle d = LC_COMPLETE \<and> cmp_lifecycle c \<noteq> LC_COMPLETE \<longrightarrow>
         \<not> list_ex (\<lambda>x. x \<in> ACTIVE) (states_of gid u))"
proof -
  from refresh_summary_effect [OF assms(3,1,2)] obtain x stamp where
    x: "find_campaign cid s1 = Some (c\<lparr>cmp_summary := Some x, cmp_updated_at := stamp\<rparr>)" by blast
  have "cmp_generation_id (c\<lparr>cmp_summary := Some x, cmp_updated_at := stamp\<rparr>) = Some gid"
    using assms(2) by simp
  from complete_if_idle_effect [OF assms(4) x this] x
    settles_views(1) [OF complete_if_idle_settles [OF assms(4)], of gid] show ?thesis
    by (auto simp: settled_from_def campaign_frame_def split: if_splits)
qed

lemma reduce_campaign_row:
  assumes dist: "distinct (map job_id (delivery_jobs s))"
    and run: "reduce cr jid aid ev value now cap s = Inr (t, u)"
    and j: "find_job jid s = Some j" "campaign_of_generation (job_generation_id j) s = Some c"
  shows "\<exists>d. find_campaign (cmp_id c) u = Some d \<and> settled_from c d
     \<and> (cmp_lifecycle d = LC_COMPLETE \<and> cmp_lifecycle c \<noteq> LC_COMPLETE \<longrightarrow>
         cmp_generation_id c = Some (job_generation_id j)
         \<and> \<not> list_ex (\<lambda>x. x \<in> ACTIVE) (states_of (job_generation_id j) u))"
proof (cases "t_disposition t = Applied \<and> cmp_generation_id c = Some (job_generation_id j)")
  case False
  with reduce_unsettled [OF dist run j] campaign_of_generation_Some(1) [OF j(2)] show ?thesis
    by (auto simp: settled_from_def find_campaign_def)
next
  case True
  obtain att s1 s2 stamp where
    rec: "record_outcome t att stamp s1 = Inr ((), s2)"
    and app: "apply_transition j c ev stamp (decide (job_state j) ev value (is_current_attempt j att)
      (job_attempt_count j) cap) s = Inr (Some t, s1)"
    and aft: "after_outcome cr j c ev value (is_current_attempt j att) now t s2 = Inr (t, u)"
    using True j
    by - (rule reduce_effect [OF dist run],
        fastforce simp: Let_def REFUSED_def transition_of_def)
  from after_outcome_phases [OF aft] True obtain s3 x s4 b where
    s3: "same_core s2 s3" "refresh_summary cr (cmp_id c) now s3 = Inr (x, s4)"
      "complete_if_idle cr (cmp_id c) now s4 = Inr (b, u)" by auto
  have "campaigns s3 = campaigns s"
    using same_core_fields(10) [OF s3(1)] record_outcome_tables(2) [OF rec]
      apply_transition_tables(1) [OF app] by auto
  then have "find_campaign (cmp_id c) s3 = Some c"
    using campaign_of_generation_Some(1) [OF j(2)] by (simp add: find_campaign_def)
  with settled_phases [OF _ _ s3(2,3)] True show ?thesis by blast
qed

lemma reduce_disposition:
  assumes "distinct (map job_id (delivery_jobs s))" "reduce cr jid aid ev value now cap s = Inr (t, u)"
    and "find_job jid s = Some j" "ev \<noteq> CLAIM"
  shows "\<exists>att. attempt_of j aid ev s = Inr (att, s)
    \<and> t_disposition t = t_disposition (decide (job_state j) ev value (is_current_attempt j att)
        (job_attempt_count j) cap)"
proof -
  from assms(2) obtain stamp att c out s1 s2 where ph:
    "attempt_of j aid ev s = Inr (att, s)"
    "apply_transition j c ev stamp
       (decide (job_state j) ev value (is_current_attempt j att) (job_attempt_count j) cap) s
     = Inr (out, s1)"
    "case out of None \<Rightarrow> t = REFUSED \<and> u = s1
     | Some t' \<Rightarrow> t = t' \<and> record_outcome t att stamp s1 = Inr ((), s2) \<and>
         after_outcome cr j c ev value (is_current_attempt j att) now t s2 = Inr (t, u)"
    using assms(3) by - (erule reduce_phases, auto)
  from apply_transition_effect [OF assms(1,3) ph(2)] ph(1,3) assms(4) show ?thesis
    by (intro exI [of _ att]) (auto split: option.splits)
qed

lemma job_gens_cong:
  assumes "map (\<lambda>j. (job_id j, job_generation_id j)) jobs' = map (\<lambda>j. (job_id j, job_generation_id j)) jobs"
  shows "list_all (\<lambda>j. P (job_generation_id j)) jobs' = list_all (\<lambda>j. P (job_generation_id j)) jobs"
proof -
  have "map job_generation_id jobs' = map job_generation_id jobs"
    using arg_cong [OF assms, of "map snd"] by (simp add: comp_def)
  from arg_cong [OF this, of "list_all P"] show ?thesis by (simp add: list.pred_map comp_def)
qed

lemma reduce_tables_ok:
  assumes "tables_ok s" "reduce cr jid aid ev value now cap s = Inr (t, u)"
  shows "tables_ok u"
proof -
  note dist = tables_ok_ids [OF assms(1)]
  obtain j c where e: "find_job jid s = Some j" "campaign_of_generation (job_generation_id j) s = Some c"
    by (rule reduce_effect [OF dist assms(2)]) blast
  obtain s2 where "settles (cmp_id c) s2 u" "campaigns s2 = campaigns s"
    using reduce_settles [OF assms(2) e] by blast
  then have ids: "map cmp_id (campaigns u) = map cmp_id (campaigns s)" by (simp add: settles_campaign(2))
  obtain "delivery_jobs u = job_after jid ev t (delivery_jobs s)"
    by (rule reduce_effect [OF dist assms(2)]) blast
  then have "map job_ref (delivery_jobs u) = map job_ref (delivery_jobs s)"
    by (simp add: job_after_def put_job_state_def)
  with ids map_eq_image [OF ids] reduce_attempts_inv [OF _ assms(2)] reduce_generations [OF dist assms(2)] assms(1)
    job_gens_cong [OF reduce_generations(2) [OF dist assms(2)],
      of "\<lambda>g. list_ex (\<lambda>r. gen_id r = g) (generations s)"]
  show ?thesis by (simp add: tables_ok_def)
qed

lemma reduce_other_generation:
  assumes "tables_ok s" "reduce cr jid aid ev value now cap s = Inr (t, u)"
    and "find_job jid s = Some j" "cmp_generation_id d \<noteq> Some (job_generation_id j)"
  shows "row_ok u d = row_ok s d"
proof (rule row_ok_cong)
  note dist = tables_ok_ids [OF assms(1)]
  obtain c where e: "delivery_jobs u = job_after jid ev t (delivery_jobs s)"
    "attempt_keys u = keys_after j ev t (attempt_keys s)"
    using assms(3) by (auto intro: reduce_effect [OF dist assms(2)])
  fix gid assume "cmp_generation_id d = Some gid"
  with assms(4) have gid: "gid \<noteq> job_generation_id j" by auto
  note jobs = job_after_other_generation [OF assms(3) dist e(1) gid]
  show "find_generation gid u = find_generation gid s \<and> jobs_of gid u = jobs_of gid s
      \<and> attempted gid u = attempted gid s"
    using jobs attempted_other_generation [OF assms(3) dist jobs e(2) gid]
      reduce_generations(1) [OF dist assms(2)] by (simp add: find_generation_def)
qed

text \<open>The call leaves the condition of every other campaign alone, whatever the evidence.\<close>

lemma reduce_others_ok:
  assumes inv: "others_ok (cmp_id c) s" and run: "reduce cr jid aid ev value now cap s = Inr (t, u)"
    and j: "find_job jid s = Some j" "campaign_of_generation (job_generation_id j) s = Some c"
  shows "others_ok (cmp_id c) u"
  unfolding others_ok_def
proof (intro conjI ballI impI)
  have tab: "tables_ok s" using inv by (simp add: others_ok_def)
  then show "tables_ok u" by (rule reduce_tables_ok [OF _ run])
  fix d assume d: "d \<in> set (campaigns u)" "cmp_id d \<noteq> cmp_id c"
  obtain s2 where "settles (cmp_id c) s2 u" "campaigns s2 = campaigns s"
    using reduce_settles [OF run j] by blast
  with d settles_campaign(1) have ds: "d \<in> set (campaigns s)" by metis
  with inv d(2) have ok: "row_ok s d" by (simp add: others_ok_def)
  have "cmp_generation_id d \<noteq> Some (job_generation_id j)"
    using row_ok_owner [OF ok] campaign_of_generation_Some(2) [OF j(2)] d(2) by auto
  with ok show "row_ok u d" using reduce_other_generation [OF tab run j(1)] by blast
qed

text \<open>A scheduled generation takes no evidence but a cancellation or a skip.\<close>

definition settled_evidence :: "lifecycle \<Rightarrow> evidence \<Rightarrow> nat option \<Rightarrow> bool" where
  "settled_evidence lc ev aid \<longleftrightarrow>
     (ev \<in> {CANCEL, SKIP_REVALIDATION} \<longrightarrow> lc \<noteq> LC_SCHEDULED)
     \<and> (ev = RETRY \<longrightarrow> lc \<noteq> LC_COMPLETE) \<and> (ev = PROVIDER \<longrightarrow> aid \<noteq> None)"

lemma unattempted_job_refuses:
  assumes "st \<in> {PENDING, SKIPPED_PLATFORM_POLICY}" "ev \<notin> {CLAIM, CANCEL, SKIP_REVALIDATION, PROVIDER}"
  shows "t_disposition (decide st ev v cur n cap) \<noteq> Applied"
  using assms by (auto simp: decide_defs split: option.splits)

lemma attempt_of_counts:
  assumes "attempts_inv (delivery_jobs s) (delivery_attempts s)" "j \<in> set (delivery_jobs s)"
    and "attempt_of j (Some a) ev s = Inr (att, s)"
  shows "job_attempt_count j \<noteq> 0"
proof -
  from assms(3) obtain r where r: "find (\<lambda>r. att_id r = a \<and> att_job_id r = job_id j) (delivery_attempts s) = Some r"
    by (auto simp: attempt_of_def tx_inr)
  then have "r \<in> set (delivery_attempts s)" "att_job_id r = job_id j"
    using find_Some_iff_key [OF r] by auto
  with assms(1) obtain k where k: "k \<in> set (delivery_jobs s)" "job_id k = job_id j" "job_attempt_count k \<noteq> 0"
    by (auto simp: attempts_inv_def attempt_fits_def list_all_iff)
  with assms(1,2) have "k = j" by (auto simp: attempts_inv_def distinct_map dest: inj_onD)
  with k(3) show ?thesis by simp
qed

lemma scheduled_job_refuses:
  assumes tab: "tables_ok s" and run: "reduce cr jid aid ev value now cap s = Inr (t, u)"
    and j: "find_job jid s = Some j" "campaign_of_generation (job_generation_id j) s = Some c"
    and c: "cmp_lifecycle c = LC_SCHEDULED"
    and new: "job_attempt_count j = 0" "job_state j \<in> {PENDING, SKIPPED_PLATFORM_POLICY}"
    and ev: "settled_evidence (cmp_lifecycle c) ev aid"
  shows "t_disposition t \<noteq> Applied"
proof
  assume app: "t_disposition t = Applied"
  note dist = tables_ok_ids [OF tab] and mem = find_job_mem [OF j(1)]
  show False
  proof (cases "ev = CLAIM")
    case True
    obtain s1 stamp att where "claim_job j (cmp_id c) stamp s = Inr (Some t, s1)"
      using True app j
      by - (rule reduce_effect [OF dist run],
          fastforce simp: Let_def REFUSED_def transition_of_def apply_transition_def)
    from claim_job_effect [OF dist j(1) this] obtain c' where
      "c' \<in> set (campaigns s)" "cmp_id c' = cmp_id c" "cmp_lifecycle c' = LC_SENDING" by auto
    with c tab find_campaign_mem [OF campaign_of_generation_Some(1) [OF j(2)]] show False
      by (auto simp: tables_ok_def distinct_map inj_on_def)
  next
    case False
    obtain att where att: "attempt_of j aid ev s = Inr (att, s)"
      "t_disposition (decide (job_state j) ev value (is_current_attempt j att) (job_attempt_count j) cap) = Applied"
      using reduce_disposition [OF dist run j(1) False] app by auto
    show False
    proof (cases "ev = PROVIDER")
      case True
      with ev obtain a where "aid = Some a" by (auto simp: settled_evidence_def)
      with att(1) attempt_of_counts [of s j a ev att] tab mem new(1) show False
        by (simp add: tables_ok_def)
    next
      case notp: False
      with ev c have "ev \<notin> {CLAIM, CANCEL, SKIP_REVALIDATION, PROVIDER}"
        using False by (auto simp: settled_evidence_def)
      with unattempted_job_refuses [OF new(2)] att(2) show False by blast
    qed
  qed
qed

lemma inactive_job_step:
  assumes "t_disposition (decide st ev v cur n cap) = Applied"
    and "new_state (decide st ev v cur n cap) = Some st'" "st \<notin> ACTIVE" "ev \<noteq> RETRY"
  shows "st' \<notin> ACTIVE"
  using assms by (auto simp: decide_defs ACTIVE_def split: option.splits if_splits)


lemma reduce_applied:
  assumes "distinct (map job_id (delivery_jobs s))" "reduce cr jid aid ev value now cap s = Inr (t, u)"
    and "find_job jid s = Some j" "t_disposition t = Applied"
  shows "\<exists>att st. delivery_jobs u = put_job_state jid st (claims_one ev) (delivery_jobs s)
    \<and> t_disposition (decide (job_state j) ev value (is_current_attempt j att) (job_attempt_count j) cap) = Applied
    \<and> new_state (decide (job_state j) ev value (is_current_attempt j att) (job_attempt_count j) cap) = Some st"
proof -
  obtain j' att where e: "find_job jid s = Some j'"
    "delivery_jobs u = job_after jid ev t (delivery_jobs s)"
    "t = REFUSED \<or> (let d = decide (job_state j') ev value (is_current_attempt j' att)
         (job_attempt_count j') cap
       in t_disposition t = t_disposition d \<and> new_state t = new_state d)"
    by (rule reduce_effect [OF assms(1,2)]) (auto simp: Let_def)
  with assms(3,4) decide_applied_new_state [of "job_state j" ev "value" "is_current_attempt j att"
        "job_attempt_count j" cap] show ?thesis
    by (intro exI [of _ att]) (auto simp: Let_def job_after_def REFUSED_def transition_of_def)
qed

lemma complete_stays_idle:
  assumes dist: "distinct (map job_id (delivery_jobs s))" and run: "reduce cr jid aid ev value now cap s = Inr (t, u)"
    and j: "find_job jid s = Some j" and ev: "ev \<noteq> RETRY"
    and idle: "list_all (\<lambda>x. x \<notin> ACTIVE) (states_of (job_generation_id j) s)"
  shows "list_all (\<lambda>x. x \<notin> ACTIVE) (states_of (job_generation_id j) u)"
proof (cases "t_disposition t = Applied")
  case False
  obtain "delivery_jobs u = job_after jid ev t (delivery_jobs s)"
    by (rule reduce_effect [OF dist run]) blast
  with False idle show ?thesis by (simp add: job_after_def states_of_def jobs_of_def)
next
  case True
  obtain att st where e: "delivery_jobs u = put_job_state jid st (claims_one ev) (delivery_jobs s)"
      "t_disposition (decide (job_state j) ev value (is_current_attempt j att) (job_attempt_count j) cap) = Applied"
      "new_state (decide (job_state j) ev value (is_current_attempt j att) (job_attempt_count j) cap) = Some st"
    using reduce_applied [OF dist run j True] by blast
  have mem: "j \<in> set (delivery_jobs s)" "job_id j = jid" using find_job_mem [OF j] by auto
  have inactive: "job_state k \<notin> ACTIVE"
    if "k \<in> set (delivery_jobs s)" "job_generation_id k = job_generation_id j" for k
    using idle that by (auto simp: states_of_def jobs_of_def list_all_iff)
  have "st \<notin> ACTIVE" by (rule inactive_job_step [OF e(2,3) inactive [OF mem(1) refl] ev])
  with inactive show ?thesis
    by (auto simp: states_of_def jobs_of_def e(1) list_all_iff put_job_state_mem)
qed

lemma lifecycle_ok_cases:
  assumes "lifecycle_ok s c" "cmp_generation_id c = Some gid"
  shows "cmp_lifecycle c \<in> {LC_SCHEDULED, LC_SENDING, LC_COMPLETE}"
  using assms by (auto simp: lifecycle_ok_def split: lifecycle.splits)

lemma reduce_own_row:
  assumes tab: "tables_ok s" and ok: "row_ok s c" and run: "reduce cr jid aid ev value now cap s = Inr (t, u)"
    and j: "find_job jid s = Some j" "campaign_of_generation (job_generation_id j) s = Some c"
    and ev: "cmp_generation_id c = Some (job_generation_id j) \<Longrightarrow> settled_evidence (cmp_lifecycle c) ev aid"
    and d: "d \<in> set (campaigns u)" "cmp_id d = cmp_id c"
  shows "row_ok u d"
proof -
  note dist = tables_ok_ids [OF tab] and taku = reduce_tables_ok [OF tab run]
  have distu: "distinct (map cmp_id (campaigns u))" using taku by (simp add: tables_ok_def)
  have fd: "find_campaign (cmp_id c) u = Some d" using d find_campaign_iff [OF distu] by simp
  obtain d' where d': "find_campaign (cmp_id c) u = Some d'" "settled_from c d'"
    "cmp_lifecycle d' = LC_COMPLETE \<and> cmp_lifecycle c \<noteq> LC_COMPLETE \<longrightarrow>
         \<not> list_ex (\<lambda>x. x \<in> ACTIVE) (states_of (job_generation_id j) u)"
    using reduce_campaign_row [OF dist run j] by blast
  have dd: "d' = d" using fd d'(1) by simp
  obtain e: "delivery_jobs u = job_after jid ev t (delivery_jobs s)"
    "attempt_keys u = keys_after j ev t (attempt_keys s)"
    using j(1) by (auto intro: reduce_effect [OF dist run])
  have gens: "generations u = generations s" by (rule reduce_generations(1) [OF dist run])
  show ?thesis
  proof (cases "t_disposition t = Applied \<and> cmp_generation_id c = Some (job_generation_id j)")
    case False
    then have "campaigns u = campaigns s" using reduce_unsettled [OF dist run j] by simp
    with fd campaign_of_generation_Some(1) [OF j(2)] have dc: "d = c" by (simp add: find_campaign_def)
    show ?thesis
    proof (cases "cmp_generation_id c = Some (job_generation_id j)")
      case True
      with False have "delivery_jobs u = delivery_jobs s" "attempt_keys u = attempt_keys s"
        using e by (simp_all add: job_after_def keys_after_def)
      then have "row_ok u c = row_ok s c"
        using attempted_keys [of u s] gens by (intro row_ok_cong) (simp add: find_generation_def jobs_of_def)
      with ok dc show ?thesis by simp
    next
      case False
      with ok dc show ?thesis by (simp add: reduce_other_generation [OF tab run j(1)])
    qed
  next
    case True
    then have gen: "cmp_generation_id c = Some (job_generation_id j)" by simp
    have genu: "cmp_generation_id d = Some (job_generation_id j)"
      using d'(2) gen unfolding dd settled_from_def by (auto dest: campaign_frame_fields)
    have "campaign_ok u d"
      using reduce_own_campaign [OF dist run _ j gen] True fd by auto
    moreover have lc: "cmp_lifecycle d = cmp_lifecycle c \<or> cmp_lifecycle c = LC_SENDING \<and> cmp_lifecycle d = LC_COMPLETE"
      using d'(2) unfolding dd settled_from_def by simp
    have mem: "j \<in> set (jobs_of (job_generation_id j) s)"
      using find_job_mem [OF j(1)] by (simp add: jobs_of_def)
    have "lifecycle_ok u d"
    proof -
      have lok: "lifecycle_ok s c" using ok by (simp add: row_ok_def)
      then consider "cmp_lifecycle c = LC_SCHEDULED" | "cmp_lifecycle c = LC_SENDING" | "cmp_lifecycle c = LC_COMPLETE"
        using lifecycle_ok_cases [OF lok gen] by auto
      then show ?thesis
      proof cases
        case 1
        with lok gen mem have "job_attempt_count j = 0" "job_state j \<in> {PENDING, SKIPPED_PLATFORM_POLICY}"
          by (auto simp: lifecycle_ok_def list_all_iff)
        with scheduled_job_refuses [OF tab run j 1 _ _ ev [OF gen]] True show ?thesis by simp
      next
        case 2
        with lc genu d'(3) show ?thesis
          unfolding dd lifecycle_ok_def by (auto simp: list_all_iff list_ex_iff)
      next
        case 3
        then have "ev \<noteq> RETRY" using ev [OF gen] by (auto simp: settled_evidence_def)
        moreover have "list_all (\<lambda>x. x \<notin> ACTIVE) (states_of (job_generation_id j) s)"
          using lok gen 3 by (simp add: lifecycle_ok_def)
        ultimately have "list_all (\<lambda>x. x \<notin> ACTIVE) (states_of (job_generation_id j) u)"
          by (rule complete_stays_idle [OF dist run j(1)])
        with 3 lc genu show ?thesis by (simp add: lifecycle_ok_def)
      qed
    qed
    ultimately show ?thesis by (simp add: row_ok_def)
  qed
qed

lemma reduce_system_inv:
  assumes inv: "system_inv s" and run: "reduce cr jid aid ev value now cap s = Inr (t, u)"
    and ev: "\<And>j c. find_job jid s = Some j \<Longrightarrow> campaign_of_generation (job_generation_id j) s = Some c \<Longrightarrow>
        cmp_generation_id c = Some (job_generation_id j) \<Longrightarrow> settled_evidence (cmp_lifecycle c) ev aid"
  shows "system_inv u"
proof -
  have tab: "tables_ok s" using inv by (simp add: system_inv_def)
  obtain j c where j: "find_job jid s = Some j" "campaign_of_generation (job_generation_id j) s = Some c"
    by (rule reduce_effect [OF tables_ok_ids [OF tab] run]) blast
  have c: "c \<in> set (campaigns s)" using find_campaign_mem [OF campaign_of_generation_Some(1) [OF j(2)]] by simp
  have "others_ok (cmp_id c) u"
    using inv system_inv_others [of s "cmp_id c"] by (intro reduce_others_ok [OF _ run j]) simp
  moreover have "row_ok u d" if "d \<in> set (campaigns u)" "cmp_id d = cmp_id c" for d
    using reduce_own_row [OF tab system_inv_row [OF inv c] run j ev [OF j] that]
    by blast
  ultimately show ?thesis by (simp add: system_inv_others [of u "cmp_id c"])
qed

text \<open>Every campaign row after the call comes from a row before it.\<close>

lemma reduce_rows_from:
  assumes tab: "tables_ok s" and run: "reduce cr jid aid ev value now cap s = Inr (t, u)"
    and d: "d \<in> set (campaigns u)"
  shows "\<exists>c\<in>set (campaigns s). settled_from c d"
proof -
  note dist = tables_ok_ids [OF tab]
  obtain j c where j: "find_job jid s = Some j" "campaign_of_generation (job_generation_id j) s = Some c"
    by (rule reduce_effect [OF dist run]) blast
  obtain s2 where s2: "settles (cmp_id c) s2 u" "campaigns s2 = campaigns s"
    using reduce_settles [OF run j] by blast
  show ?thesis
  proof (cases "cmp_id d = cmp_id c")
    case True
    have "distinct (map cmp_id (campaigns u))"
      using reduce_tables_ok [OF tab run] by (simp add: tables_ok_def)
    with d True have "find_campaign (cmp_id c) u = Some d" by (simp add: find_campaign_iff)
    with reduce_campaign_row [OF dist run j] find_campaign_mem [OF campaign_of_generation_Some(1) [OF j(2)]]
    show ?thesis by auto
  next
    case False
    with settles_campaign(1) [OF s2(1)] d s2(2) have "d \<in> set (campaigns s)" by metis
    then show ?thesis by (intro bexI [of _ d]) (simp_all add: settled_from_def)
  qed
qed

end
