(* ===== verification/Comms_Resolve.thy ===== *)
theory Comms_Resolve
  imports Comms_Reducer
begin

text \<open>
  \<open>core/campaigns/resolve.py\<close>: target resolution through the audience graph with origin paths,
  and the validity of a path at claim time. The search keeps its explicit stack; it ends because
  an audience is never entered twice on one path (the code raises on a cycle), which is the
  termination argument below. Rows are read from the directory tables of \<open>comms_db\<close>.
\<close>

section \<open>Targets\<close>

record origin =
  o_endpoint_ref :: string
  o_path :: "string list"

record candidate =
  c_transport :: string
  c_identity_id :: nat
  c_endpoint_refs :: "string list"
  c_origins :: "origin list"

definition TARGET_KINDS :: "(string \<times> string) list" where
  "TARGET_KINDS = [(''audiences'', ''audience''), (''locations'', ''location''),
     (''destinations'', ''destination''), (''recipients'', ''recipient'')]"

definition unknown_target :: exn where
  "unknown_target = DirectoryNotFound ''unknown target''"

text \<open>\<open>SELECT 1 FROM table WHERE ref = ?\<close> for the table of a kind.\<close>

definition ref_exists :: "comms_db \<Rightarrow> string \<Rightarrow> string \<Rightarrow> bool" where
  "ref_exists s kind ref =
     (if kind = ''audience'' then list_ex (\<lambda>r. aud_ref r = ref) (audiences s)
      else if kind = ''location'' then list_ex (\<lambda>r. loc_ref r = ref) (locations s)
      else if kind = ''destination'' then list_ex (\<lambda>r. dst_ref r = ref) (destinations s)
      else if kind = ''recipient'' then list_ex (\<lambda>r. rcp_ref r = ref) (recipients s)
      else False)"

definition check_target :: "comms_db \<Rightarrow> string \<Rightarrow> string \<Rightarrow> (string \<times> string) res" where
  "check_target s kind ref =
     (case check ref kind of
        Inl _ \<Rightarrow> Inl unknown_target
      | Inr _ \<Rightarrow> if ref_exists s kind ref then Inr (kind, ref) else Inl unknown_target)"

definition check_targets :: "comms_db \<Rightarrow> targets \<Rightarrow> (string \<times> string) list res" where
  "check_targets s tg =
     (if \<not> set (map fst tg) \<subseteq> set (map fst TARGET_KINDS) then Inl unknown_target
      else res_bind (res_each (\<lambda>(key, kind).
             res_each (check_target s kind) (case map_of tg key of None \<Rightarrow> [] | Some v \<Rightarrow> v))
             TARGET_KINDS)
           (\<lambda>found. Inr (sort (remdups (concat found)))))"

section \<open>The search\<close>

text \<open>A stack entry (kind, ref, path) and an emitted endpoint (transport, identity, ref, path).\<close>

type_synonym entry = "string \<times> string \<times> string list"
type_synonym emitted = "string \<times> nat \<times> string \<times> string list"

definition audience_members_of :: "comms_db \<Rightarrow> nat \<Rightarrow> (string \<times> string) list" where
  "audience_members_of s aid =
     sort (concat (map (\<lambda>m. case am_member m of
         MAudience i \<Rightarrow> map (\<lambda>a. (''audience'', aud_ref a)) (filter (\<lambda>a. aud_id a = i) (audiences s))
       | MLocation i \<Rightarrow> map (\<lambda>l. (''location'', loc_ref l)) (filter (\<lambda>l. loc_id l = i) (locations s))
       | MDestination i \<Rightarrow>
           map (\<lambda>d. (''destination'', dst_ref d)) (filter (\<lambda>d. dst_id d = i) (destinations s))
       | MRecipient i \<Rightarrow>
           map (\<lambda>r. (''recipient'', rcp_ref r)) (filter (\<lambda>r. rcp_id r = i) (recipients s)))
       (filter (\<lambda>m. am_audience_id m = aid) (audience_members s))))"

definition destination_live :: "comms_db \<Rightarrow> destination_row \<Rightarrow> bool" where
  "destination_live s d \<longleftrightarrow> dst_enabled d \<and>
     list_ex (\<lambda>l. loc_id l = dst_location_id d \<and> loc_enabled l) (locations s)"

definition contact_live :: "comms_db \<Rightarrow> contact_row \<Rightarrow> bool" where
  "contact_live s c \<longleftrightarrow> cp_enabled c \<and> cp_opted_out_at c = None \<and>
     list_ex (\<lambda>r. rcp_id r = cp_recipient_id c \<and> rcp_enabled r) (recipients s)"

definition expand_audience :: "comms_db \<Rightarrow> string \<Rightarrow> string list \<Rightarrow> (emitted list \<times> entry list) res" where
  "expand_audience s ref path =
     (case find (\<lambda>a. aud_ref a = ref) (audiences s) of
        None \<Rightarrow> Inl no_row
      | Some a \<Rightarrow>
          let members = audience_members_of s (aud_id a)
          in if list_ex (\<lambda>(k, r). k = ''audience'' \<and> r \<in> set path) members
             then Inl (DirectoryError ''audience cycle'')
             else Inr ([], map (\<lambda>(k, r). (k, r, path @ [r])) members))"

definition expand_location :: "comms_db \<Rightarrow> string \<Rightarrow> string list \<Rightarrow> (emitted list \<times> entry list) res" where
  "expand_location s ref path =
     (case find (\<lambda>l. loc_ref l = ref) (locations s) of
        None \<Rightarrow> Inl no_row
      | Some l \<Rightarrow>
          if \<not> loc_enabled l then Inr ([], [])
          else Inr ([], map (\<lambda>d. (''destination'', dst_ref d, path @ [dst_ref d]))
                          (filter (\<lambda>d. dst_location_id d = loc_id l) (destinations s))
                       @ concat (map (\<lambda>(lid, rid). map (\<lambda>r. (''recipient'', rcp_ref r, path @ [rcp_ref r]))
                          (filter (\<lambda>r. rcp_id r = rid) (recipients s)))
                          (filter (\<lambda>(lid, rid). lid = loc_id l) (location_members s)))))"

definition expand :: "comms_db \<Rightarrow> string list \<Rightarrow> entry \<Rightarrow> (emitted list \<times> entry list) res" where
  "expand s transports e =
     (case e of (kind, ref, path) \<Rightarrow>
        if kind = ''audience'' then expand_audience s ref path
        else if kind = ''location'' then expand_location s ref path
        else if kind = ''destination'' then
          (if ''telegram'' \<notin> set transports then Inr ([], [])
           else case find (\<lambda>d. dst_ref d = ref \<and> destination_live s d) (destinations s) of
                  None \<Rightarrow> Inr ([], [])
                | Some d \<Rightarrow> Inr ([(dst_transport d, dst_identity_id d, ref, path)], []))
        else if kind = ''recipient'' then
          Inr (map (\<lambda>c. (cp_transport c, cp_identity_id c, cp_ref c, path @ [cp_ref c]))
                 (filter (\<lambda>c. cp_enabled c \<and> cp_opted_out_at c = None
                              \<and> list_ex (\<lambda>r. rcp_id r = cp_recipient_id c \<and> rcp_ref r = ref \<and> rcp_enabled r)
                                  (recipients s)
                              \<and> cp_transport c \<in> set transports)
                    (contact_points s)), [])
        else Inr ([], []))"

text \<open>How deep an entry may still go: an audience enters only audiences not yet on its path.\<close>

definition entry_rank :: "comms_db \<Rightarrow> entry \<Rightarrow> nat" where
  "entry_rank s e = (case e of (kind, ref, path) \<Rightarrow>
     if kind = ''audience'' then 3 + card (aud_ref ` set (audiences s) - set path)
     else if kind = ''location'' then 2 else 1)"

definition member_names :: "comms_db \<Rightarrow> member \<Rightarrow> string \<Rightarrow> string \<Rightarrow> bool" where
  "member_names s m kind ref \<longleftrightarrow> (case m of
       MAudience i \<Rightarrow> kind = ''audience'' \<and> (\<exists>a\<in>set (audiences s). aud_id a = i \<and> aud_ref a = ref)
     | MLocation i \<Rightarrow> kind = ''location'' \<and> (\<exists>l\<in>set (locations s). loc_id l = i \<and> loc_ref l = ref)
     | MDestination i \<Rightarrow>
         kind = ''destination'' \<and> (\<exists>d\<in>set (destinations s). dst_id d = i \<and> dst_ref d = ref)
     | MRecipient i \<Rightarrow> kind = ''recipient'' \<and> (\<exists>r\<in>set (recipients s). rcp_id r = i \<and> rcp_ref r = ref))"

lemma audience_members_iff:
  "(k, r) \<in> set (audience_members_of s aid) \<longleftrightarrow>
     (\<exists>m\<in>set (audience_members s). am_audience_id m = aid \<and> member_names s (am_member m) k r)"
proof -
  have "(k, r) \<in> set (case am_member m of
         MAudience i \<Rightarrow> map (\<lambda>a. (''audience'', aud_ref a)) (filter (\<lambda>a. aud_id a = i) (audiences s))
       | MLocation i \<Rightarrow> map (\<lambda>l. (''location'', loc_ref l)) (filter (\<lambda>l. loc_id l = i) (locations s))
       | MDestination i \<Rightarrow>
           map (\<lambda>d. (''destination'', dst_ref d)) (filter (\<lambda>d. dst_id d = i) (destinations s))
       | MRecipient i \<Rightarrow>
           map (\<lambda>r. (''recipient'', rcp_ref r)) (filter (\<lambda>r. rcp_id r = i) (recipients s)))
     \<longleftrightarrow> member_names s (am_member m) k r" for m :: audience_member_row
    by (cases "am_member m") (auto simp: member_names_def)
  then show ?thesis by (auto simp: audience_members_of_def)
qed

lemma audience_members_audience:
  "(''audience'', r) \<in> set (audience_members_of s aid) \<Longrightarrow> r \<in> aud_ref ` set (audiences s)"
proof -
  have "member_names s m ''audience'' r \<Longrightarrow> r \<in> aud_ref ` set (audiences s)" for m
    by (cases m) (auto simp: member_names_def)
  then show "(''audience'', r) \<in> set (audience_members_of s aid) \<Longrightarrow> r \<in> aud_ref ` set (audiences s)"
    by (auto simp: audience_members_iff)
qed

lemma expand_rank:
  assumes "expand s transports e = Inr (ems, kids)" and "k \<in> set kids"
  shows "entry_rank s k < entry_rank s e"
proof -
  obtain kind ref path where e: "e = (kind, ref, path)" by (cases e)
  consider "kind = ''audience''" | "kind = ''location''" | "kids = []"
    using assms(1) by (auto simp: expand_def e split: if_splits option.splits)
  then show ?thesis
  proof cases
    case 1
    with assms obtain a where a: "find (\<lambda>a. aud_ref a = ref) (audiences s) = Some a"
      and nocyc: "\<not> list_ex (\<lambda>(k, r). k = ''audience'' \<and> r \<in> set path) (audience_members_of s (aud_id a))"
      and kids: "kids = map (\<lambda>(k, r). (k, r, path @ [r])) (audience_members_of s (aud_id a))"
      by (auto simp: expand_def expand_audience_def e Let_def split: option.splits if_splits)
    from assms(2) kids obtain mk mr where k: "k = (mk, mr, path @ [mr])"
      and mem: "(mk, mr) \<in> set (audience_members_of s (aud_id a))" by auto
    show ?thesis
    proof (cases "mk = ''audience''")
      case True
      with mem nocyc have "mr \<in> aud_ref ` set (audiences s) - set path"
        by (auto dest: audience_members_audience simp: list_ex_iff)
      then have "card (aud_ref ` set (audiences s) - set (path @ [mr]))
          < card (aud_ref ` set (audiences s) - set path)"
        by (intro psubset_card_mono) auto
      with True 1 show ?thesis by (simp add: entry_rank_def k e)
    next
      case False
      with 1 show ?thesis by (simp add: entry_rank_def k e)
    qed
  next
    case 2
    with assms show ?thesis
      by (auto simp: expand_def expand_location_def e entry_rank_def split: option.splits if_splits)
  qed (use assms(2) in simp)
qed

text \<open>The loop: pop the top, push the new entries in order (so the last one is on top).\<close>

function walk :: "comms_db \<Rightarrow> string list \<Rightarrow> entry list \<Rightarrow> emitted list \<Rightarrow> emitted list res" where
  "walk s transports [] acc = Inr acc"
| "walk s transports (e # stack) acc =
     (case expand s transports e of
        Inl err \<Rightarrow> Inl err
      | Inr (ems, kids) \<Rightarrow> walk s transports (rev kids @ stack) (acc @ ems))"
  by pat_completeness auto

termination
proof (relation "inv_image (mult less_than) (\<lambda>(s, transports, stack, acc). mset (map (entry_rank s) stack))")
  show "wf (inv_image (mult less_than)
      (\<lambda>(s, transports, stack, acc). mset (map (entry_rank s) stack)))"
    by (intro wf_inv_image wf_mult) simp
next
  fix s transports e stack and acc :: "emitted list" and x ems kids
  assume "expand s transports e = Inr x" and "(ems, kids) = x"
  then have rank: "\<And>k. k \<in> set kids \<Longrightarrow> entry_rank s k < entry_rank s e"
    using expand_rank by blast
  have "(mset (map (entry_rank s) stack) + mset (map (entry_rank s) kids),
         mset (map (entry_rank s) stack) + {#entry_rank s e#}) \<in> mult less_than"
    by (rule one_step_implies_mult) (auto simp: rank)
  then show "((s, transports, rev kids @ stack, acc @ ems), s, transports, e # stack, acc)
      \<in> inv_image (mult less_than) (\<lambda>(s, transports, stack, acc). mset (map (entry_rank s) stack))"
    by (simp add: union_commute)
qed

text \<open>Grouping by delivery identity.\<close>

definition candidate_of :: "emitted list \<Rightarrow> string \<times> nat \<Rightarrow> candidate" where
  "candidate_of ems key =
     (let mine = filter (\<lambda>(t, i, _). (t, i) = key) ems
      in \<lparr>c_transport = fst key, c_identity_id = snd key,
          c_endpoint_refs = sort (remdups (map (\<lambda>(_, _, r, _). r) mine)),
          c_origins = sort_key o_path (remdups (map (\<lambda>(_, _, r, p). \<lparr>o_endpoint_ref = r, o_path = p\<rparr>) mine))\<rparr>)"

definition resolve_targets :: "comms_db \<Rightarrow> targets \<Rightarrow> string list \<Rightarrow> candidate list res" where
  "resolve_targets s tg transports =
     res_bind (check_targets s tg) (\<lambda>found.
     res_bind (res_each (\<lambda>(kind, ref). walk s transports [(kind, ref, [ref])] []) found) (\<lambda>ems.
     Inr (map (candidate_of (concat ems))
            (sort (remdups (map (\<lambda>(t, i, _). (t, i)) (concat ems)))))))"

section \<open>Path validity\<close>

definition node_valid :: "comms_db \<Rightarrow> string \<Rightarrow> string \<Rightarrow> bool" where
  "node_valid s kind ref =
     (if kind = ''audience'' then list_ex (\<lambda>r. aud_ref r = ref) (audiences s)
      else if kind = ''location'' then list_ex (\<lambda>l. loc_ref l = ref \<and> loc_enabled l) (locations s)
      else if kind = ''destination'' then
        list_ex (\<lambda>d. dst_ref d = ref \<and> destination_live s d) (destinations s)
      else if kind = ''recipient'' then list_ex (\<lambda>r. rcp_ref r = ref \<and> rcp_enabled r) (recipients s)
      else if kind = ''contact_point'' then
        list_ex (\<lambda>c. cp_ref c = ref \<and> contact_live s c) (contact_points s)
      else False)"

text \<open>A scalar subquery \<open>(SELECT id FROM t WHERE ref = ?)\<close>: the first row's id, or NULL.\<close>

definition audience_edge :: "comms_db \<Rightarrow> string \<Rightarrow> string \<Rightarrow> string \<Rightarrow> bool" where
  "audience_edge s pref ckind cref =
     (case find (\<lambda>a. aud_ref a = pref) (audiences s) of
        None \<Rightarrow> False
      | Some a \<Rightarrow>
          list_ex (\<lambda>m. am_audience_id m = aud_id a \<and>
            (if ckind = ''audience'' then
               (case find (\<lambda>r. aud_ref r = cref) (audiences s) of
                  None \<Rightarrow> False | Some r \<Rightarrow> am_member m = MAudience (aud_id r))
             else if ckind = ''location'' then
               (case find (\<lambda>r. loc_ref r = cref) (locations s) of
                  None \<Rightarrow> False | Some r \<Rightarrow> am_member m = MLocation (loc_id r))
             else if ckind = ''destination'' then
               (case find (\<lambda>r. dst_ref r = cref) (destinations s) of
                  None \<Rightarrow> False | Some r \<Rightarrow> am_member m = MDestination (dst_id r))
             else
               (case find (\<lambda>r. rcp_ref r = cref) (recipients s) of
                  None \<Rightarrow> False | Some r \<Rightarrow> am_member m = MRecipient (rcp_id r))))
            (audience_members s))"

definition edge_valid :: "comms_db \<Rightarrow> string \<times> string \<Rightarrow> string \<times> string \<Rightarrow> bool" where
  "edge_valid s parent child =
     (case (parent, child) of ((pk, pref), (ck, cref)) \<Rightarrow>
        if pk = ''audience'' \<and> ck \<in> {''audience'', ''location'', ''destination'', ''recipient''}
        then audience_edge s pref ck cref
        else if pk = ''location'' \<and> ck = ''destination'' then
          list_ex (\<lambda>d. dst_ref d = cref \<and>
            list_ex (\<lambda>l. loc_id l = dst_location_id d \<and> loc_ref l = pref) (locations s)) (destinations s)
        else if pk = ''location'' \<and> ck = ''recipient'' then
          list_ex (\<lambda>(lid, rid). list_ex (\<lambda>l. loc_id l = lid \<and> loc_ref l = pref) (locations s)
            \<and> list_ex (\<lambda>r. rcp_id r = rid \<and> rcp_ref r = cref) (recipients s)) (location_members s)
        else if pk = ''recipient'' \<and> ck = ''contact_point'' then
          list_ex (\<lambda>c. cp_ref c = cref \<and>
            list_ex (\<lambda>r. rcp_id r = cp_recipient_id c \<and> rcp_ref r = pref) (recipients s)) (contact_points s)
        else False)"

fun pairwise :: "'a list \<Rightarrow> ('a \<times> 'a) list" where
  "pairwise (x # y # zs) = (x, y) # pairwise (y # zs)"
| "pairwise _ = []"

definition path_is_valid :: "comms_db \<Rightarrow> string list \<Rightarrow> bool" where
  "path_is_valid s path =
     (if path = [] then False
      else case res_each (\<lambda>ref. res_bind (kind_of ref) (\<lambda>k. Inr (k, ref))) path of
             Inl _ \<Rightarrow> False
           | Inr nodes \<Rightarrow>
               fst (last nodes) \<in> {''destination'', ''contact_point''}
               \<and> list_all (\<lambda>(k, r). node_valid s k r) nodes
               \<and> list_all (\<lambda>(a, b). edge_valid s a b) (pairwise nodes))"

end
