(* ===== verification/Comms_Drafts.thy ===== *)
theory Comms_Drafts
  imports Comms_Resolve
begin

text \<open>
  Campaign drafts (\<open>core/campaigns/drafts.py\<close>), template bindings (\<open>core/campaigns/templates.py\<close>),
  the message text (\<open>core/campaigns/render.py\<close>) and the identity binding
  (\<open>core/campaigns/binding.py\<close>). Content arguments are Python values (\<open>json\<close>, \<open>JNull\<close> for
  \<open>None\<close>), because the code checks their types; refs, titles and transports are strings. The
  content column holds the value: every reader goes through \<open>jcs_dumps\<close>, which sorts the keys.
\<close>

section \<open>Loading\<close>

definition load :: "string \<Rightarrow> campaign_row db_tx" where
  "load cmp s =
     (case check cmp ''campaign'' of
        Inl _ \<Rightarrow> Inl (NotFound ''unknown campaign'')
      | Inr _ \<Rightarrow>
          (case find (\<lambda>c. cmp_ref c = cmp) (campaigns s) of
             None \<Rightarrow> Inl (NotFound ''unknown campaign'')
           | Some c \<Rightarrow> Inr (c, s)))"

definition require_lifecycle :: "campaign_row \<Rightarrow> lifecycle \<Rightarrow> string \<Rightarrow> unit db_tx" where
  "require_lifecycle c lc message = tx_guard (cmp_lifecycle c = lc) (LifecycleError message)"

text \<open>\<open>UPDATE campaigns SET column = ?, updated_at = ? WHERE id = ?\<close>.\<close>

definition set_column :: "nat \<Rightarrow> (campaign_row \<Rightarrow> campaign_row) \<Rightarrow> string \<Rightarrow> unit db_tx" where
  "set_column cid f stamp =
     tx_then (update_campaigns (\<lambda>c. cmp_id c = cid) (\<lambda>c. (f c)\<lparr>cmp_updated_at := stamp\<rparr>)) (tx_return ())"

definition journal :: "crypto \<Rightarrow> string \<Rightarrow> string \<Rightarrow> lifecycle \<Rightarrow> datetime \<Rightarrow> unit db_tx" where
  "journal cr ty cmp lc now =
     tx_then (append_event cr ty (Some cmp) [(''lifecycle'', jstr (lifecycle_name lc))] now None None)
       (tx_return ())"

definition TARGET_KEYS :: "string list" where
  "TARGET_KEYS = [''audiences'', ''locations'', ''destinations'', ''recipients'']"

section \<open>Creating and editing\<close>

definition create_campaign_in_tx :: "crypto \<Rightarrow> string \<Rightarrow> datetime \<Rightarrow> string db_tx" where
  "create_campaign_in_tx cr title now =
     tx_then require_tx
     (tx_bind (mint_ref ''campaign'') (\<lambda>ref.
      tx_bind (tx_lift (iso now)) (\<lambda>stamp.
      tx_bind (tx_reads (\<lambda>s. next_id cmp_id (campaigns s))) (\<lambda>cid.
      tx_then (insert_campaign
        \<lparr>cmp_id = cid, cmp_ref = ref, cmp_title = title, cmp_lifecycle = LC_DRAFT,
         cmp_content = JObj [], cmp_targets = map (\<lambda>k. (k, [])) TARGET_KEYS, cmp_transports = [],
         cmp_summary = None, cmp_generation_id = None, cmp_created_at = stamp,
         cmp_updated_at = stamp\<rparr>)
      (tx_then (journal cr ''campaign.created'' ref LC_DRAFT now) (tx_return ref))))))"

definition create_campaign :: "crypto \<Rightarrow> string \<Rightarrow> datetime \<Rightarrow> string db_tx" where
  "create_campaign cr title now = write_tx (create_campaign_in_tx cr title now)"

text \<open>\<open>{**a, **b}\<close>: later keys win and keep the place of the earlier one.\<close>

definition dict_set :: "(json \<times> json) list \<Rightarrow> json \<times> json \<Rightarrow> (json \<times> json) list" where
  "dict_set kvs kv = (if fst kv \<in> fst ` set kvs
     then map (\<lambda>p. if fst p = fst kv then kv else p) kvs else kvs @ [kv])"

definition dict_merge :: "(json \<times> json) list \<Rightarrow> (json \<times> json) list \<Rightarrow> (json \<times> json) list" where
  "dict_merge a b = foldl dict_set a b"

definition dict_get :: "string \<Rightarrow> json \<Rightarrow> json" where
  "dict_get key v = (case v of
     JObj kvs \<Rightarrow> (case map_of kvs (jstr key) of None \<Rightarrow> JNull | Some x \<Rightarrow> x) | _ \<Rightarrow> JNull)"

fun is_JStr :: "json \<Rightarrow> bool" where
  "is_JStr (JStr _) = True"
| "is_JStr _ = False"

definition text_of :: "json \<Rightarrow> json res" where
  "text_of v = (if is_JStr v then Inr v else Inl (ValueError ''content text must be a string''))"

definition hex64_v :: "json \<Rightarrow> bool" where
  "hex64_v = on_str is_hex64"

definition media_refused :: exn where
  "media_refused = ValueError ''media descriptor refused''"

definition media_item :: "json \<Rightarrow> json res" where
  "media_item item =
     (case item of
        JObj kvs \<Rightarrow>
          if fst ` set kvs \<noteq> set (map jstr [''sha256'', ''mime'', ''name'', ''size'']) then Inl media_refused
          else if \<not> hex64_v (dict_get ''sha256'' item) then Inl media_refused
          else if \<not> (is_JStr (dict_get ''mime'' item) \<and> is_JStr (dict_get ''name'' item)) then Inl media_refused
          else (case dict_get ''size'' item of
                  JInt n \<Rightarrow> if n < 0 then Inl media_refused else Inr item
                | _ \<Rightarrow> Inl media_refused)
      | _ \<Rightarrow> Inl media_refused)"

definition media_of :: "json \<Rightarrow> json res" where
  "media_of items =
     (case items of
        JList xs \<Rightarrow> res_bind (res_each media_item xs) (\<lambda>out. Inr (JList out))
      | _ \<Rightarrow> Inl (ValueError ''media must be a list of descriptors''))"

text \<open>A list of links; a string is refused and other values are not iterable.\<close>

definition links_of :: "json \<Rightarrow> json res" where
  "links_of links =
     (case links of
        JList xs \<Rightarrow> if list_all is_JStr xs then Inr (JList xs)
                    else Inl (ValueError ''links must be a list of strings'')
      | JStr _ \<Rightarrow> Inl (ValueError ''links must be a list of strings'')
      | _ \<Rightarrow> Inl (TypeError ''object is not iterable''))"

definition optional_change :: "string \<Rightarrow> (json \<Rightarrow> json res) \<Rightarrow> json \<Rightarrow> (json \<times> json) list res" where
  "optional_change key f v =
     (if v = JNull then Inr [] else res_bind (f v) (\<lambda>x. Inr [(jstr key, x)]))"

definition content_changes :: "json \<Rightarrow> json \<Rightarrow> json \<Rightarrow> json \<Rightarrow> json \<Rightarrow> (json \<times> json) list res" where
  "content_changes canonical fa en links media =
     res_bind (res_each (\<lambda>(key, f, v). optional_change key f v)
       [(''canonical'', text_of, canonical), (''fa'', text_of, fa), (''en'', text_of, en),
        (''links'', links_of, links), (''media'', media_of, media)])
     (\<lambda>changes. Inr (concat changes))"

definition obj_items :: "json \<Rightarrow> (json \<times> json) list" where
  "obj_items v = (case v of JObj kvs \<Rightarrow> kvs | _ \<Rightarrow> [])"

definition set_content_in_tx ::
  "crypto \<Rightarrow> string \<Rightarrow> json \<Rightarrow> json \<Rightarrow> json \<Rightarrow> json \<Rightarrow> json \<Rightarrow> datetime \<Rightarrow> unit db_tx" where
  "set_content_in_tx cr cmp canonical fa en links media now =
     tx_then require_tx
     (tx_bind (tx_lift (content_changes canonical fa en links media)) (\<lambda>changes.
      tx_bind (tx_lift (iso now)) (\<lambda>stamp.
      tx_bind (load cmp) (\<lambda>c.
      tx_then (require_lifecycle c LC_DRAFT ''campaign is not a draft'')
      (let content = JObj (dict_merge (obj_items (cmp_content c)) changes)
       in tx_then (tx_lift (jcs_dumps content))
          (tx_then (set_column (cmp_id c) (\<lambda>r. r\<lparr>cmp_content := content\<rparr>) stamp)
             (journal cr ''campaign.modified'' cmp LC_DRAFT now)))))))"

definition set_content ::
  "crypto \<Rightarrow> string \<Rightarrow> json \<Rightarrow> json \<Rightarrow> json \<Rightarrow> json \<Rightarrow> json \<Rightarrow> datetime \<Rightarrow> unit db_tx" where
  "set_content cr cmp canonical fa en links media now =
     write_tx (set_content_in_tx cr cmp canonical fa en links media now)"

definition shape_targets :: "targets \<Rightarrow> targets" where
  "shape_targets tg = map (\<lambda>key. (key, sort (remdups (case map_of tg key of None \<Rightarrow> [] | Some v \<Rightarrow> v))))
     TARGET_KEYS"

definition set_targets_in_tx ::
  "crypto \<Rightarrow> string \<Rightarrow> targets \<Rightarrow> string list \<Rightarrow> datetime \<Rightarrow> unit db_tx" where
  "set_targets_in_tx cr cmp tg transports now =
     tx_then require_tx
     (tx_then (tx_guard (set (map fst tg) \<subseteq> set TARGET_KEYS) (ValueError ''unknown target kind''))
     (tx_then (tx_guard (set transports \<subseteq> set TRANSPORT_NAMES) (ValueError ''unknown transport''))
     (tx_bind (tx_lift (iso now)) (\<lambda>stamp.
      tx_bind (load cmp) (\<lambda>c.
      tx_then (require_lifecycle c LC_DRAFT ''campaign is not a draft'')
      (tx_then (set_column (cmp_id c) (\<lambda>r. r\<lparr>cmp_targets := shape_targets tg\<rparr>) stamp)
      (tx_then (set_column (cmp_id c) (\<lambda>r. r\<lparr>cmp_transports := sort (remdups transports)\<rparr>) stamp)
         (journal cr ''campaign.modified'' cmp LC_DRAFT now))))))))"

definition set_targets ::
  "crypto \<Rightarrow> string \<Rightarrow> targets \<Rightarrow> string list \<Rightarrow> datetime \<Rightarrow> unit db_tx" where
  "set_targets cr cmp tg transports now = write_tx (set_targets_in_tx cr cmp tg transports now)"

definition targets_of :: "campaign_row \<Rightarrow> targets \<times> string list" where
  "targets_of c = (cmp_targets c, cmp_transports c)"

text \<open>Python's truth value, for the values content may hold.\<close>

fun truthy :: "json \<Rightarrow> bool" where
  "truthy JNull = False"
| "truthy (JBool b) = b"
| "truthy (JInt n) = (n \<noteq> 0)"
| "truthy (JStr cs) = (cs \<noteq> [])"
| "truthy (JList xs) = (xs \<noteq> [])"
| "truthy (JObj kvs) = (kvs \<noteq> [])"
| "truthy _ = True"

definition complete_draft :: "campaign_row \<Rightarrow> bool" where
  "complete_draft c \<longleftrightarrow>
     list_ex (\<lambda>k. truthy (dict_get k (cmp_content c))) [''canonical'', ''fa'', ''en'']
     \<and> snd (targets_of c) \<noteq> [] \<and> list_ex (\<lambda>(_, v). v \<noteq> []) (fst (targets_of c))"

definition validate_in_tx :: "crypto \<Rightarrow> string \<Rightarrow> datetime \<Rightarrow> unit db_tx" where
  "validate_in_tx cr cmp now =
     tx_then require_tx
     (tx_bind (tx_lift (iso now)) (\<lambda>stamp.
      tx_bind (load cmp) (\<lambda>c.
      tx_then (require_lifecycle c LC_DRAFT ''campaign is not a draft'')
      (tx_then (tx_guard (complete_draft c) (LifecycleError ''campaign is incomplete''))
      (tx_bind (tx_reads (\<lambda>s. check_targets s (cmp_targets c))) (\<lambda>checked.
       tx_then (tx_lift checked)
       (tx_then (set_column (cmp_id c) (\<lambda>r. r\<lparr>cmp_lifecycle := LC_READY\<rparr>) stamp)
          (journal cr ''campaign.validated'' cmp LC_READY now))))))))"

definition validate :: "crypto \<Rightarrow> string \<Rightarrow> datetime \<Rightarrow> unit db_tx" where
  "validate cr cmp now = write_tx (validate_in_tx cr cmp now)"

definition edit_in_tx :: "crypto \<Rightarrow> string \<Rightarrow> datetime \<Rightarrow> unit db_tx" where
  "edit_in_tx cr cmp now =
     tx_then require_tx
     (tx_bind (tx_lift (iso now)) (\<lambda>stamp.
      tx_bind (load cmp) (\<lambda>c.
      tx_then (require_lifecycle c LC_READY ''campaign is not ready'')
      (tx_then (set_column (cmp_id c) (\<lambda>r. r\<lparr>cmp_lifecycle := LC_DRAFT\<rparr>) stamp)
         (journal cr ''campaign.modified'' cmp LC_DRAFT now)))))"

definition edit :: "crypto \<Rightarrow> string \<Rightarrow> datetime \<Rightarrow> unit db_tx" where
  "edit cr cmp now = write_tx (edit_in_tx cr cmp now)"

section \<open>Template bindings\<close>

definition template_name_ok :: "string \<Rightarrow> bool" where
  "template_name_ok name \<longleftrightarrow> 1 \<le> length name \<and> length name \<le> 512 \<and>
     list_all (\<lambda>c. is_az c \<or> is_digit c \<or> c = CHR ''_'') name"

text \<open>Two or three lower-case letters, then optionally an underscore and two capitals.\<close>

definition template_language_ok :: "string \<Rightarrow> bool" where
  "template_language_ok l \<longleftrightarrow>
     (let a = takeWhile is_az l; rest = dropWhile is_az l
      in length a \<in> {2, 3} \<and>
         (rest = [] \<or> (length rest = 3 \<and> hd rest = CHR ''_'' \<and> list_all is_upper_az (tl rest))))"

definition upsert_template :: "template_row \<Rightarrow> unit db_tx" where
  "upsert_template t s =
     (if tpl_campaign_id t \<notin> cmp_id ` set (campaigns s) then violates s
      else Inr ((), s\<lparr>template_bindings :=
             (if tpl_campaign_id t \<in> tpl_campaign_id ` set (template_bindings s)
              then map (\<lambda>r. if tpl_campaign_id r = tpl_campaign_id t then t else r) (template_bindings s)
              else template_bindings s @ [t])\<rparr>))"

definition bind_template ::
  "string \<Rightarrow> string \<Rightarrow> string \<Rightarrow> int \<Rightarrow> string list \<Rightarrow> datetime \<Rightarrow> unit db_tx" where
  "bind_template cmp name language version parameters now =
     tx_then (tx_guard (template_name_ok name) (ValueError ''template name refused''))
     (tx_then (tx_guard (template_language_ok language) (ValueError ''template language refused''))
     (tx_then (tx_guard (1 \<le> version) (ValueError ''template schema version refused''))
     (tx_then (tx_guard (list_all (\<lambda>p. 1 \<le> length p \<and> length p \<le> 1024) parameters)
                (ValueError ''template parameters refused''))
     (write_tx (tx_bind (load cmp) (\<lambda>c.
        tx_then (tx_guard (cmp_lifecycle c \<in> {LC_DRAFT, LC_READY}) (LifecycleError ''campaign is frozen''))
        (tx_bind (tx_lift (iso now)) (\<lambda>stamp.
         upsert_template \<lparr>tpl_campaign_id = cmp_id c, tpl_name = name, tpl_language = language,
           tpl_schema_version = nat version, tpl_parameters = parameters, tpl_bound_at = stamp\<rparr>))))))))"

definition template_binding :: "comms_db \<Rightarrow> nat \<Rightarrow> template_row option" where
  "template_binding s cid = find (\<lambda>t. tpl_campaign_id t = cid) (template_bindings s)"

section \<open>The message text\<close>

definition is_space_point :: "nat \<Rightarrow> bool" where
  "is_space_point c \<longleftrightarrow> (9 \<le> c \<and> c \<le> 13) \<or> (28 \<le> c \<and> c \<le> 32) \<or>
     c \<in> {133, 160, 5760, 8232, 8233, 8239, 8287, 12288} \<or> (8192 \<le> c \<and> c \<le> 8202)"

text \<open>Iterating a list gives its items, a string its characters, a dict its keys.\<close>

definition iterated :: "json \<Rightarrow> json list" where
  "iterated v = (case v of JList xs \<Rightarrow> xs | JStr cs \<Rightarrow> map (\<lambda>c. JStr [c]) cs | JObj kvs \<Rightarrow> map fst kvs
     | _ \<Rightarrow> [])"

definition link_texts :: "json \<Rightarrow> pytext list" where
  "link_texts v =
     concat (map (\<lambda>x. case x of JStr cs \<Rightarrow> (if cs \<noteq> [] then [cs] else []) | _ \<Rightarrow> []) (iterated v))"

fun join_lines :: "pytext list \<Rightarrow> pytext" where
  "join_lines [] = []"
| "join_lines [x] = x"
| "join_lines (x # xs) = x @ 10 # join_lines xs"

definition rendered_text :: "json \<Rightarrow> pytext option" where
  "rendered_text content =
     (case dict_get ''canonical'' content of
        JStr body \<Rightarrow>
          if list_all is_space_point body \<or> truthy (dict_get ''media'' content) then None
          else let links = link_texts (dict_get ''links'' content)
               in Some (body @ (if links \<noteq> [] then [10, 10] @ join_lines links else []))
      | _ \<Rightarrow> None)"

section \<open>The identity binding\<close>

definition DIRECTORY_IDENTITY :: bytes where
  "DIRECTORY_IDENTITY = domain_tag ''comms-directory-identity/v1''"

definition identity_binding :: "crypto \<Rightarrow> bytes \<Rightarrow> string \<Rightarrow> string \<Rightarrow> string res" where
  "identity_binding cr key transport identity =
     res_bind (jcs_dumps (JObj [(jstr ''identity'', jstr identity), (jstr ''transport'', jstr transport)]))
     (\<lambda>body. Inr (hmac_sha256_hex cr key (DIRECTORY_IDENTITY @ body)))"

end
