(* ===== verification/Comms_Operations.thy ===== *)
theory Comms_Operations
  imports Comms_Drafts
begin

text \<open>
  Operator and provider operations on sending campaigns (\<open>core/delivery/operations.py\<close>): cancel,
  retry, the operator's verdict on an unknown outcome, and one provider status report.
\<close>

record cancel_report =
  cancelled_before_send :: nat
  already_sent :: nat
  currently_in_flight :: nat

record retry_report =
  requeued :: nat
  retry_exhausted :: nat

datatype provider_disposition =
  P_applied | P_recorded | P_refused | P_pending_match | P_duplicate | P_duplicate_conflict

fun provider_disposition_of :: "disposition \<Rightarrow> provider_disposition" where
  "provider_disposition_of Applied = P_applied"
| "provider_disposition_of Recorded = P_recorded"
| "provider_disposition_of Refused = P_refused"
| "provider_disposition_of Pending_match = P_pending_match"

definition generation_of :: "campaign_row \<Rightarrow> (nat \<times> string) db_tx" where
  "generation_of c =
     (case cmp_generation_id c of
        None \<Rightarrow> tx_raise no_row
      | Some gid \<Rightarrow>
          tx_bind (tx_reads (find_generation gid)) (\<lambda>row.
          tx_bind (tx_the no_row row) (\<lambda>g. tx_return (gid, gen_ref g))))"

text \<open>\<open>SELECT id FROM delivery_jobs WHERE generation_id = ? AND state = ? ORDER BY id\<close>.\<close>

definition jobs_in_state :: "nat \<Rightarrow> job_state \<Rightarrow> comms_db \<Rightarrow> job_row list" where
  "jobs_in_state gid st s = filter (\<lambda>j. job_state j = st) (sort_key job_id (jobs_of gid s))"

definition count_state :: "nat \<Rightarrow> job_state \<Rightarrow> comms_db \<Rightarrow> nat" where
  "count_state gid st s = length (filter (\<lambda>x. x = st) (states_of gid s))"

text \<open>\<open>SELECT lifecycle FROM campaigns WHERE ref = ?\<close>, subscripted at once.\<close>

definition lifecycle_of_ref :: "string \<Rightarrow> lifecycle db_tx" where
  "lifecycle_of_ref cmp =
     tx_bind (tx_reads (\<lambda>s. find (\<lambda>c. cmp_ref c = cmp) (campaigns s))) (\<lambda>row.
     tx_bind (tx_the no_row row) (\<lambda>c. tx_return (cmp_lifecycle c)))"

text \<open>\<open>sum(reduce(...).disposition == "applied" for job_id in ids)\<close>.\<close>

definition reduce_all :: "crypto \<Rightarrow> evidence \<Rightarrow> datetime \<Rightarrow> nat \<Rightarrow> nat list \<Rightarrow> nat db_tx" where
  "reduce_all cr ev now cap ids =
     tx_bind (tx_each (\<lambda>jid. reduce cr jid None ev None now cap) ids) (\<lambda>ts.
     tx_return (length (filter (\<lambda>t. t_disposition t = Applied) ts)))"

definition jnat :: "nat \<Rightarrow> json" where
  "jnat n = JInt (int n)"

section \<open>Cancelling a sending campaign\<close>

definition cancel_sending_in_tx :: "crypto \<Rightarrow> string \<Rightarrow> datetime \<Rightarrow> cancel_report db_tx" where
  "cancel_sending_in_tx cr cmp now =
     tx_then require_tx
     (tx_bind (load cmp) (\<lambda>c.
      tx_then (tx_guard (cmp_lifecycle c = LC_SENDING) (LifecycleError ''campaign is not sending''))
      (tx_bind (generation_of c) (\<lambda>(gid, gen).
       tx_bind (tx_reads (jobs_in_state gid PENDING)) (\<lambda>pending.
       tx_bind (reduce_all cr CANCEL now 5 (map job_id pending)) (\<lambda>cancelled.
       tx_bind (tx_reads (\<lambda>s. \<lparr>cancelled_before_send = cancelled,
           already_sent = count_state gid ACCEPTED s + count_state gid DELIVERED s,
           currently_in_flight = count_state gid IN_FLIGHT s\<rparr>)) (\<lambda>report.
       tx_bind (lifecycle_of_ref cmp) (\<lambda>lc.
       tx_then (append_event cr ''campaign.cancelled'' (Some cmp)
         [(''generation'', jstr gen), (''lifecycle'', jstr (lifecycle_name lc)),
          (''cancelled_count'', jnat (cancelled_before_send report)),
          (''already_sent_count'', jnat (already_sent report)),
          (''in_flight_count'', jnat (currently_in_flight report))] now None None)
       (tx_return report)))))))))"

definition cancel_sending :: "crypto \<Rightarrow> string \<Rightarrow> datetime \<Rightarrow> cancel_report db_tx" where
  "cancel_sending cr cmp now = write_tx (cancel_sending_in_tx cr cmp now)"

section \<open>Retrying\<close>

definition reopen_if_complete :: "campaign_row \<Rightarrow> nat list \<Rightarrow> datetime \<Rightarrow> unit db_tx" where
  "reopen_if_complete c retryable now =
     (if retryable \<noteq> [] \<and> cmp_lifecycle c = LC_COMPLETE then
        tx_bind (tx_lift (iso now)) (\<lambda>stamp.
        tx_then (update_campaigns (\<lambda>r. cmp_id r = cmp_id c)
                   (\<lambda>r. r\<lparr>cmp_lifecycle := LC_SENDING, cmp_updated_at := stamp\<rparr>)) (tx_return ()))
      else tx_return ())"

definition retry_failed_in_tx :: "crypto \<Rightarrow> string \<Rightarrow> datetime \<Rightarrow> nat \<Rightarrow> retry_report db_tx" where
  "retry_failed_in_tx cr cmp now cap =
     tx_then require_tx
     (tx_bind (load cmp) (\<lambda>c.
      tx_then (tx_guard (cmp_lifecycle c \<in> {LC_SENDING, LC_COMPLETE})
                 (LifecycleError ''campaign has not been sent''))
      (tx_bind (generation_of c) (\<lambda>(gid, gen).
       tx_bind (tx_reads (jobs_in_state gid FAILED_TRANSIENT)) (\<lambda>failed.
       let retryable = map job_id (filter (\<lambda>j. job_attempt_count j < cap) failed)
       in tx_then (reopen_if_complete c retryable now)
          (tx_bind (reduce_all cr RETRY now cap retryable) (\<lambda>n.
           tx_bind (lifecycle_of_ref cmp) (\<lambda>lc.
           tx_then (append_event cr ''campaign.retry_started'' (Some cmp)
             [(''generation'', jstr gen), (''lifecycle'', jstr (lifecycle_name lc)),
              (''requeued_count'', jnat n),
              (''exhausted_count'', jnat (length failed - length retryable))] now None None)
           (tx_return \<lparr>requeued = n, retry_exhausted = length failed - length retryable\<rparr>)))))))))"

definition retry_failed :: "crypto \<Rightarrow> string \<Rightarrow> datetime \<Rightarrow> nat \<Rightarrow> retry_report db_tx" where
  "retry_failed cr cmp now cap = write_tx (retry_failed_in_tx cr cmp now cap)"

section \<open>The operator's verdict\<close>

definition verdict_evidence :: "string \<Rightarrow> evidence option" where
  "verdict_evidence v = (if v = ''sent'' then Some RESOLVE_SENT
     else if v = ''not_sent'' then Some RESOLVE_NOT_SENT else None)"

text \<open>The job and its campaign's ref, as the three-way join gives them.\<close>

definition job_with_campaign :: "(job_row \<Rightarrow> bool) \<Rightarrow> comms_db \<Rightarrow> (nat \<times> string) option" where
  "job_with_campaign p s =
     (case find (\<lambda>j. p j \<and> campaign_of_generation (job_generation_id j) s \<noteq> None) (delivery_jobs s) of
        None \<Rightarrow> None
      | Some j \<Rightarrow> map_option (\<lambda>c. (job_id j, cmp_ref c)) (campaign_of_generation (job_generation_id j) s))"

definition resolve_outcome_in_tx :: "crypto \<Rightarrow> string \<Rightarrow> string \<Rightarrow> datetime \<Rightarrow> unit db_tx" where
  "resolve_outcome_in_tx cr jref verdict now =
     tx_then require_tx
     (tx_bind (tx_the (ValueError ''verdict must be sent or not_sent'') (verdict_evidence verdict)) (\<lambda>ev.
      tx_then (tx_guard (is_ok (check jref ''job'')) (NotFound ''unknown job''))
      (tx_bind (tx_reads (job_with_campaign (\<lambda>j. job_ref j = jref))) (\<lambda>row.
       tx_bind (tx_the (NotFound ''unknown job'') row) (\<lambda>(jid, cmp).
       tx_bind (reduce cr jid None ev None now 5) (\<lambda>t.
       tx_then (tx_guard (t_disposition t = Applied) (LifecycleError ''job outcome is not unknown''))
       (tx_then (append_event cr ''delivery.outcome_resolved'' (Some cmp)
          [(''job'', jstr jref), (''verdict'', jstr verdict)] now None None)
        (tx_return ()))))))))"

definition resolve_outcome :: "crypto \<Rightarrow> string \<Rightarrow> string \<Rightarrow> datetime \<Rightarrow> unit db_tx" where
  "resolve_outcome cr jref verdict now = write_tx (resolve_outcome_in_tx cr jref verdict now)"

section \<open>Provider updates\<close>

definition provider_ref_ok :: "string \<Rightarrow> bool" where
  "provider_ref_ok r \<longleftrightarrow> 0 < length r \<and> length r \<le> 256"

definition attempt_matches :: "string \<Rightarrow> string \<Rightarrow> comms_db \<Rightarrow> (nat \<times> nat) list" where
  "attempt_matches transport mref s =
     concat (map (\<lambda>a. map (\<lambda>j. (att_id a, att_job_id a))
       (filter (\<lambda>j. job_id j = att_job_id a \<and> job_transport j = transport) (delivery_jobs s)))
       (filter (\<lambda>a. att_provider_ref a = Some mref) (delivery_attempts s)))"

definition new_provider_event ::
  "string \<Rightarrow> string \<Rightarrow> string \<Rightarrow> job_state \<Rightarrow> string \<Rightarrow> nat option \<Rightarrow> nat option \<Rightarrow> disposition \<Rightarrow> unit db_tx" where
  "new_provider_event transport eref mref status stamp jid aid d =
     tx_bind (tx_reads (\<lambda>s. next_id pev_id (provider_events s))) (\<lambda>pid.
     insert_provider_event \<lparr>pev_id = pid, pev_transport = transport, pev_event_ref = eref,
       pev_message_ref = mref, pev_job_id = jid, pev_attempt_id = aid, pev_status = status,
       pev_disposition = d, pev_received_at = stamp\<rparr>)"

definition refusal_event ::
  "crypto \<Rightarrow> string option \<Rightarrow> string \<Rightarrow> reason_code \<Rightarrow> job_state \<Rightarrow> datetime \<Rightarrow> unit db_tx" where
  "refusal_event cr cmp transport reason status now =
     tx_then (append_event cr ''delivery.provider_update_refused'' cmp
       [(''transport'', jstr transport), (''reason'', jstr (reason_name reason)),
        (''status'', jstr (job_state_name status))] now None None) (tx_return ())"

definition duplicate_update ::
  "crypto \<Rightarrow> provider_event_row \<Rightarrow> string \<Rightarrow> string \<Rightarrow> job_state \<Rightarrow> datetime \<Rightarrow> provider_disposition db_tx" where
  "duplicate_update cr e transport mref status now =
     (if pev_message_ref e = mref \<and> pev_status e = status then tx_return P_duplicate
      else
        tx_bind (case pev_job_id e of
            None \<Rightarrow> tx_return None
          | Some jid \<Rightarrow>
              tx_bind (tx_reads (job_with_campaign (\<lambda>j. job_id j = jid))) (\<lambda>row.
              tx_bind (tx_the no_row row) (\<lambda>(_, cmp). tx_return (Some cmp)))) (\<lambda>cmp.
        tx_then (refusal_event cr cmp transport DUPLICATE_CONFLICT status now)
        (tx_return P_duplicate_conflict)))"

definition fresh_update ::
  "crypto \<Rightarrow> string \<Rightarrow> string \<Rightarrow> string \<Rightarrow> job_state \<Rightarrow> string \<Rightarrow> datetime \<Rightarrow> (nat \<times> nat) list
     \<Rightarrow> provider_disposition db_tx" where
  "fresh_update cr transport eref mref status stamp now matches =
     (case matches of
        [] \<Rightarrow> tx_then (new_provider_event transport eref mref status stamp None None Pending_match)
                (tx_return P_pending_match)
      | [(aid, jid)] \<Rightarrow>
          tx_bind (reduce cr jid (Some aid) PROVIDER (Some status) now 5) (\<lambda>t.
          tx_then (new_provider_event transport eref mref status stamp (Some jid) (Some aid)
                     (t_disposition t))
          (tx_return (provider_disposition_of (t_disposition t))))
      | _ \<Rightarrow>
          tx_then (new_provider_event transport eref mref status stamp None None Refused)
          (tx_then (refusal_event cr None transport AMBIGUOUS_MATCH status now)
          (tx_return P_refused)))"

definition apply_provider_update ::
  "crypto \<Rightarrow> string \<Rightarrow> string \<Rightarrow> string \<Rightarrow> job_state \<Rightarrow> datetime \<Rightarrow> provider_disposition db_tx" where
  "apply_provider_update cr transport eref mref status now =
     tx_bind (tx_reads in_transaction) (\<lambda>in_tx.
     tx_then (tx_guard in_tx (RuntimeError ''apply_provider_update needs an open transaction''))
     (tx_then (tx_guard (transport \<in> set TRANSPORT_NAMES \<and> status \<in> PROVIDER_STATUSES)
                 (ValueError ''provider update refused''))
     (tx_then (tx_guard (provider_ref_ok eref \<and> provider_ref_ok mref) (ValueError ''provider update refused''))
     (tx_bind (tx_lift (iso now)) (\<lambda>stamp.
      tx_bind (tx_reads (\<lambda>s. find (\<lambda>e. pev_transport e = transport \<and> pev_event_ref e = eref)
                                (provider_events s))) (\<lambda>existing.
      case existing of
        Some e \<Rightarrow> duplicate_update cr e transport mref status now
      | None \<Rightarrow>
          tx_bind (tx_reads (attempt_matches transport mref)) (\<lambda>matches.
          fresh_update cr transport eref mref status stamp now matches)))))))"

definition record_provider_update ::
  "crypto \<Rightarrow> string \<Rightarrow> string \<Rightarrow> string \<Rightarrow> job_state \<Rightarrow> datetime \<Rightarrow> provider_disposition db_tx" where
  "record_provider_update cr transport eref mref status now =
     write_tx (apply_provider_update cr transport eref mref status now)"

end
