(* ===== verification/Comms_Freeze.thy ===== *)
theory Comms_Freeze
  imports Comms_Operations
begin

text \<open>
  Freeze (\<open>core/delivery/freeze.py\<close>): send and schedule create an immutable generation of
  deduplicated jobs in one transaction; unschedule and cancel retire it. With it the transport
  contract (\<open>core/delivery/transport.py\<close>), the mirrored customer-service window
  (\<open>core/delivery/window.py\<close>) and the keyed commitment (\<open>core/delivery/commitment.py\<close>). A transport
  is an argument: the record of the functions the core calls on it.
\<close>

section \<open>core/delivery/transport.py\<close>

datatype skip_reason = PLATFORM_INELIGIBLE | CONTENT_UNSUPPORTED | TEMPLATE_REQUIRED

fun skip_reason_name :: "skip_reason \<Rightarrow> string" where
  "skip_reason_name PLATFORM_INELIGIBLE = ''platform_ineligible''"
| "skip_reason_name CONTENT_UNSUPPORTED = ''content_unsupported''"
| "skip_reason_name TEMPLATE_REQUIRED = ''template_required''"

record prepared_payload =
  pp_data :: bytes
  pp_digest :: string

record delivery_intent =
  di_transport :: string
  di_identity :: string
  di_content :: json
  di_window :: "window_row option"
  di_template :: "template_row option"

text \<open>What \<open>prepare\<close> may return; \<open>Unknown_prepared\<close> is any other type.\<close>

datatype prepared = Prepared prepared_payload | Skip skip_reason | Unknown_prepared

record frozen_delivery =
  fd_job_ref :: string
  fd_generation_ref :: string
  fd_transport :: string
  fd_identity :: string
  fd_payload :: prepared_payload
  fd_idempotency_key :: string
  fd_attempt_no :: nat

text \<open>\<open>kind\<close> is one of the five result kinds (\<open>ResultKind\<close> refuses any other value).\<close>

record delivery_result =
  dr_kind :: job_state
  dr_message_ref :: "string option"

definition result_ok :: "delivery_result \<Rightarrow> bool" where
  "result_ok r \<longleftrightarrow> dr_kind r \<in> RESULT_KINDS"

text \<open>\<open>still_valid(...) is True\<close>; \<open>provider_request_key\<close> and \<open>actor\<close> are optional attributes.\<close>

record delivery_transport =
  tr_prepare :: "delivery_intent \<Rightarrow> instant_t \<Rightarrow> prepared res"
  tr_still_valid :: "prepared_payload \<Rightarrow> instant_t \<Rightarrow> bool res"
  tr_deliver :: "frozen_delivery \<Rightarrow> delivery_result res"
  tr_request_key :: "(string \<Rightarrow> string) option"
  tr_actor :: "string option"

type_synonym transports = "(string \<times> delivery_transport) list"

section \<open>core/delivery/window.py\<close>

definition window_fact :: "comms_db \<Rightarrow> nat \<Rightarrow> window_row option" where
  "window_fact s iid = find (\<lambda>w. win_identity_id w = iid) (endpoint_window s)"

definition upsert_window :: "window_row \<Rightarrow> unit db_tx" where
  "upsert_window w s =
     (if win_identity_id w \<notin> idn_id ` set (delivery_identities s) then violates s
      else Inr ((), s\<lparr>endpoint_window :=
             (if win_identity_id w \<in> win_identity_id ` set (endpoint_window s)
              then map (\<lambda>r. if win_identity_id r = win_identity_id w then w else r) (endpoint_window s)
              else endpoint_window s @ [w])\<rparr>))"

definition mirror_window_in_tx :: "nat \<Rightarrow> string \<Rightarrow> string \<Rightarrow> datetime \<Rightarrow> bool db_tx" where
  "mirror_window_in_tx iid last_at source now =
     tx_bind (tx_reads in_transaction) (\<lambda>in_tx.
     tx_then (tx_guard in_tx (RuntimeError ''mirror_window_in_tx needs an open transaction''))
     (tx_bind (tx_lift (instant last_at)) (\<lambda>at.
      tx_then (tx_guard (source \<noteq> []) (ValueError ''a window fact names its source event''))
      (tx_bind (tx_reads (\<lambda>s. window_fact s iid)) (\<lambda>current.
       tx_bind (case current of
           None \<Rightarrow> tx_return False
         | Some w \<Rightarrow> tx_bind (tx_lift (instant (win_last_customer_message_at w))) (\<lambda>old.
                     tx_return (old \<ge> at))) (\<lambda>stale.
       if stale then tx_return False
       else
         tx_bind (tx_lift (iso now)) (\<lambda>stamp.
         tx_then (upsert_window \<lparr>win_identity_id = iid, win_last_customer_message_at = last_at,
                     win_observed_at = stamp, win_source_event_ref = source\<rparr>)
         (tx_return True))))))))"

definition mirror_window :: "nat \<Rightarrow> string \<Rightarrow> string \<Rightarrow> datetime \<Rightarrow> bool db_tx" where
  "mirror_window iid last_at source now = write_tx (mirror_window_in_tx iid last_at source now)"

section \<open>core/delivery/commitment.py\<close>

definition campaign_commitment :: "crypto \<Rightarrow> bytes \<Rightarrow> string \<Rightarrow> string \<Rightarrow> string res" where
  "campaign_commitment cr key gref digest =
     res_bind (fromhex digest) (\<lambda>raw. Inr (hmac_sha256_hex cr key (CAMPAIGN_COMMIT @ gref @ raw)))"

record commit_context =
  cc_key :: bytes
  cc_key_id :: string

section \<open>Digests\<close>

definition sha_json :: "crypto \<Rightarrow> bytes \<Rightarrow> json \<Rightarrow> string res" where
  "sha_json cr domain v = res_bind (jcs_dumps v) (\<lambda>body. Inr (sha256_hex cr (domain @ body)))"

definition idempotency_key :: "crypto \<Rightarrow> string \<Rightarrow> string \<Rightarrow> string \<Rightarrow> string \<Rightarrow> string res" where
  "idempotency_key cr cmp gen transport identity =
     sha_json cr IDEMPOTENCY (JObj [
       (jstr ''campaign'', jstr cmp), (jstr ''delivery_identity'', jstr identity),
       (jstr ''generation'', jstr gen), (jstr ''transport'', jstr transport)])"

record job_facts =
  jf_transport :: string
  jf_identity :: string
  jf_payload_digest :: "string option"
  jf_initial_state :: job_state
  jf_skip_reason :: "string option"

definition job_facts_json :: "job_facts \<Rightarrow> json" where
  "job_facts_json f = JObj [
     (jstr ''transport'', jstr (jf_transport f)), (jstr ''delivery_identity'', jstr (jf_identity f)),
     (jstr ''payload_digest'', jopt (jf_payload_digest f)),
     (jstr ''initial_state'', jstr (job_state_name (jf_initial_state f))),
     (jstr ''skip_reason'', jopt (jf_skip_reason f))]"

definition snapshot_digest ::
  "crypto \<Rightarrow> string \<Rightarrow> string \<Rightarrow> string \<Rightarrow> json \<Rightarrow> string list \<Rightarrow> job_facts list \<Rightarrow> string res" where
  "snapshot_digest cr cmp gen send_at content transports jobs =
     res_bind (jcs_dumps content) (\<lambda>body.
     sha_json cr SNAPSHOT (JObj [
       (jstr ''campaign'', jstr cmp), (jstr ''content_digest'', jstr (sha256_hex cr body)),
       (jstr ''generation'', jstr gen),
       (jstr ''jobs'', JList (map job_facts_json
          (sort_key (\<lambda>f. (jf_transport f, jf_identity f)) jobs))),
       (jstr ''send_at'', jstr send_at),
       (jstr ''transports'', JList (map jstr (sort transports)))]))"

definition TARGET_KIND :: "(string \<times> string) list" where
  "TARGET_KIND = [(''audiences'', ''audience''), (''destinations'', ''destination''),
     (''locations'', ''location''), (''recipients'', ''recipient'')]"

definition target_digest :: "crypto \<Rightarrow> targets \<Rightarrow> string list \<Rightarrow> string res" where
  "target_digest cr tg transports =
     res_bind (res_each (\<lambda>(key, kind).
       let values = sort (case map_of tg key of None \<Rightarrow> [] | Some v \<Rightarrow> v)
       in res_bind (res_each (\<lambda>ref. check ref kind) values) (\<lambda>_.
          Inr (jstr key, JList (map jstr values)))) TARGET_KIND) (\<lambda>shaped.
     if \<not> set transports \<subseteq> {''telegram'', ''whatsapp''} then Inl (ValueError ''unknown transport'')
     else sha_json cr TARGET (JObj [(jstr ''targets'', JObj shaped),
            (jstr ''transports'', JList (map jstr (sort transports)))]))"

definition recipient_entry :: "string \<times> string \<times> string list \<times> job_state \<Rightarrow> (string \<times> json) res" where
  "recipient_entry e = (case e of (jref, transport, endpoints, st) \<Rightarrow>
     res_bind (check jref ''job'') (\<lambda>_.
     res_bind (res_each (\<lambda>ref. res_bind (kind_of ref) (\<lambda>k.
       if k \<in> {''destination'', ''contact_point''} then Inr () else Inl (ValueError ''unexpected ref'')))
       endpoints) (\<lambda>_.
     if transport \<notin> {''telegram'', ''whatsapp''} then Inl (ValueError ''unknown transport'')
     else Inr (jref, JObj [(jstr ''endpoints'', JList (map jstr (sort endpoints))), (jstr ''job'', jstr jref),
            (jstr ''state'', jstr (job_state_name st)), (jstr ''transport'', jstr transport)]))))"

definition recipient_digest :: "crypto \<Rightarrow> (string \<times> string \<times> string list \<times> job_state) list \<Rightarrow> string res" where
  "recipient_digest cr jobs =
     res_bind (res_each recipient_entry jobs) (\<lambda>entries.
     sha_json cr RECIPIENTS (JList (map snd (sort_key fst entries))))"

section \<open>Planning\<close>

record planned =
  pl_candidate :: candidate
  pl_identity :: string
  pl_job_ref :: string
  pl_key :: string
  pl_payload :: "prepared_payload option"
  pl_skip :: "skip_reason option"

definition planned_state :: "planned \<Rightarrow> job_state" where
  "planned_state p = (if pl_payload p \<noteq> None then PENDING else SKIPPED_PLATFORM_POLICY)"

definition plan_outcome :: "crypto \<Rightarrow> prepared \<Rightarrow> (prepared_payload option \<times> skip_reason option) res" where
  "plan_outcome cr p =
     (case p of
        Skip r \<Rightarrow> Inr (None, Some r)
      | Prepared x \<Rightarrow>
          if sha256_hex cr (pp_data x) \<noteq> pp_digest x
          then Inl (ValueError ''payload digest does not match its data'') else Inr (Some x, None)
      | Unknown_prepared \<Rightarrow> Inl (TypeError ''prepare returned an unknown type''))"

definition plan_job ::
  "crypto \<Rightarrow> transports \<Rightarrow> string \<Rightarrow> string \<Rightarrow> json \<Rightarrow> template_row option \<Rightarrow> datetime \<Rightarrow> candidate \<Rightarrow> planned db_tx" where
  "plan_job cr trs cmp gen content template send_at cand =
     tx_bind (tx_reads (\<lambda>s. find (\<lambda>i. idn_id i = c_identity_id cand) (delivery_identities s))) (\<lambda>irow.
     tx_bind (tx_the no_row irow) (\<lambda>i.
     tx_bind (tx_reads (\<lambda>s. window_fact s (c_identity_id cand))) (\<lambda>window.
     tx_bind (tx_the (KeyError ''transport'') (map_of trs (c_transport cand))) (\<lambda>tr.
     tx_bind (tx_lift (utc send_at)) (\<lambda>at.
     tx_bind (tx_lift (tr_prepare tr \<lparr>di_transport = c_transport cand, di_identity = idn_identity i,
        di_content = content, di_window = window, di_template = template\<rparr> at)) (\<lambda>prepared.
     tx_bind (tx_lift (plan_outcome cr prepared)) (\<lambda>(payload, skip).
     tx_bind (mint_ref ''job'') (\<lambda>jref.
     tx_bind (tx_lift (idempotency_key cr cmp gen (c_transport cand) (idn_identity i))) (\<lambda>key.
     tx_return \<lparr>pl_candidate = cand, pl_identity = idn_identity i, pl_job_ref = jref, pl_key = key,
       pl_payload = payload, pl_skip = skip\<rparr>)))))))))"

definition planned_facts :: "planned \<Rightarrow> job_facts" where
  "planned_facts p =
     \<lparr>jf_transport = c_transport (pl_candidate p), jf_identity = pl_identity p,
      jf_payload_digest = map_option pp_digest (pl_payload p), jf_initial_state = planned_state p,
      jf_skip_reason = map_option skip_reason_name (pl_skip p)\<rparr>"

definition insert_planned :: "nat \<Rightarrow> planned \<Rightarrow> unit db_tx" where
  "insert_planned gid p =
     tx_bind (tx_reads (\<lambda>s. next_id job_id (delivery_jobs s))) (\<lambda>jid.
     tx_then (insert_job
       \<lparr>job_id = jid, job_ref = pl_job_ref p, job_generation_id = gid,
        job_transport = c_transport (pl_candidate p), job_identity_id = c_identity_id (pl_candidate p),
        job_key = pl_key p, job_payload = map_option pp_data (pl_payload p),
        job_payload_digest = map_option pp_digest (pl_payload p),
        job_skip_reason = map_option skip_reason_name (pl_skip p), job_state = planned_state p,
        job_attempt_count = 0\<rparr>)
     (tx_then (tx_each (\<lambda>og. insert_origin
          \<lparr>org_job_id = jid, org_endpoint_ref = o_endpoint_ref og, org_path = o_path og\<rparr>)
        (c_origins (pl_candidate p)))
      (tx_return ())))"

definition freeze_payload ::
  "string \<Rightarrow> lifecycle \<Rightarrow> planned list \<Rightarrow> string \<Rightarrow> string \<Rightarrow> string \<Rightarrow> payload" where
  "freeze_payload gen lc pls tdigest rdigest at =
     [(''generation'', jstr gen), (''lifecycle'', jstr (lifecycle_name lc)),
      (''job_count'', jnat (length pls)),
      (''pending_count'', jnat (length (filter (\<lambda>p. pl_payload p \<noteq> None) pls))),
      (''skipped_count'', jnat (length (filter (\<lambda>p. pl_payload p = None) pls))),
      (''target_digest'', jstr tdigest), (''recipient_digest'', jstr rdigest)]
     @ (if lc = LC_SCHEDULED then [(''send_at'', jstr at)] else [])"

text \<open>The generation row and its jobs, then the campaign's pointer, summary and lifecycle.\<close>

definition store_generation ::
  "crypto \<Rightarrow> campaign_row \<Rightarrow> string \<Rightarrow> string \<Rightarrow> string \<Rightarrow> string \<Rightarrow> string option \<Rightarrow> commit_context option
     \<Rightarrow> lifecycle \<Rightarrow> planned list \<Rightarrow> unit db_tx" where
  "store_generation cr c gen stamp at digest commitment audited lc pls =
     tx_bind (tx_reads (\<lambda>s. next_id gen_id (generations s))) (\<lambda>gid.
     tx_then (tx_lift (jcs_dumps (cmp_content c)))
     (tx_then (insert_generation
        \<lparr>gen_id = gid, gen_ref = gen, gen_campaign_id = cmp_id c, gen_created_at = stamp,
         gen_send_at = at, gen_content = cmp_content c, gen_snapshot_digest = digest,
         gen_status = GEN_ACTIVE, gen_commitment = commitment,
         gen_commit_key_id = map_option cc_key_id audited\<rparr>)
     (tx_then (tx_each (insert_planned gid) pls)
     (tx_then (set_generation (cmp_id c) (Some gid)
        (\<lambda>r. r\<lparr>cmp_summary := Some SUM_IN_PROGRESS, cmp_lifecycle := lc, cmp_updated_at := stamp\<rparr>))
      (tx_return ())))))"

definition freeze_in_tx ::
  "crypto \<Rightarrow> string \<Rightarrow> transports \<Rightarrow> datetime \<Rightarrow> datetime \<Rightarrow> lifecycle \<Rightarrow> commit_context option
     \<Rightarrow> audit_tx option \<Rightarrow> string db_tx" where
  "freeze_in_tx cr cmp trs now send_at lc audited audit =
     tx_then require_tx
     (tx_bind (tx_lift (iso now)) (\<lambda>stamp.
      tx_bind (tx_lift (iso send_at)) (\<lambda>at.
      tx_bind (load cmp) (\<lambda>c.
      tx_then (tx_guard (cmp_lifecycle c = LC_READY) (LifecycleError ''campaign is not ready''))
      (tx_then (tx_guard (set (cmp_transports c) \<subseteq> fst ` set trs) (LifecycleError ''transport unavailable''))
      (tx_bind (tx_reads (\<lambda>s. template_binding s (cmp_id c))) (\<lambda>template.
       tx_bind (mint_ref ''generation'') (\<lambda>gen.
       tx_bind (tx_reads (\<lambda>s. resolve_targets s (cmp_targets c) (cmp_transports c))) (\<lambda>resolved.
       tx_bind (tx_lift resolved) (\<lambda>cands.
       tx_bind (tx_each (plan_job cr trs cmp gen (cmp_content c) template send_at) cands) (\<lambda>pls.
       tx_then (tx_guard (list_ex (\<lambda>p. pl_payload p \<noteq> None) pls) NoEligibleEndpoints)
       (tx_bind (tx_lift (snapshot_digest cr cmp gen at (cmp_content c) (cmp_transports c)
                   (map planned_facts pls))) (\<lambda>digest.
        tx_bind (case audited of
            None \<Rightarrow> tx_return None
          | Some a \<Rightarrow> tx_bind (tx_lift (campaign_commitment cr (cc_key a) gen digest)) (\<lambda>x.
                      tx_return (Some x))) (\<lambda>commitment.
        tx_then (store_generation cr c gen stamp at digest commitment audited lc pls)
        (tx_bind (tx_lift (target_digest cr (cmp_targets c) (cmp_transports c))) (\<lambda>tdigest.
         tx_bind (tx_lift (recipient_digest cr (map (\<lambda>p. (pl_job_ref p, c_transport (pl_candidate p),
             c_endpoint_refs (pl_candidate p), planned_state p)) pls))) (\<lambda>rdigest.
         tx_then (append_event cr (if lc = LC_SENDING then ''campaign.send_started'' else ''campaign.scheduled'')
           (Some cmp) (freeze_payload gen lc pls tdigest rdigest at) now
           (if audited = None then None else audit)
           (case audited of
              None \<Rightarrow> None
            | Some a \<Rightarrow> Some [(''commitment'', jstr (case commitment of None \<Rightarrow> [] | Some x \<Rightarrow> x)),
                         (''commit_key_id'', jstr (cc_key_id a)), (''generation'', jstr gen)]))
         (tx_return gen))))))))))))))))))"

definition send_in_tx ::
  "crypto \<Rightarrow> audit_tx \<Rightarrow> string \<Rightarrow> transports \<Rightarrow> datetime \<Rightarrow> commit_context \<Rightarrow> string db_tx" where
  "send_in_tx cr tx cmp trs now audited = freeze_in_tx cr cmp trs now now LC_SENDING (Some audited) (Some tx)"

definition schedule_in_tx ::
  "crypto \<Rightarrow> audit_tx \<Rightarrow> string \<Rightarrow> datetime \<Rightarrow> transports \<Rightarrow> datetime \<Rightarrow> commit_context \<Rightarrow> string db_tx" where
  "schedule_in_tx cr tx cmp send_at trs now audited =
     tx_bind (tx_lift (utc send_at)) (\<lambda>at.
     freeze_in_tx cr cmp trs now (Aware at) LC_SCHEDULED (Some audited) (Some tx))"

text \<open>\<open>send\<close> and \<open>schedule\<close> without an audit context open their own transaction.\<close>

definition send :: "crypto \<Rightarrow> string \<Rightarrow> transports \<Rightarrow> datetime \<Rightarrow> string db_tx" where
  "send cr cmp trs now = write_tx (freeze_in_tx cr cmp trs now now LC_SENDING None None)"

definition schedule :: "crypto \<Rightarrow> string \<Rightarrow> datetime \<Rightarrow> transports \<Rightarrow> datetime \<Rightarrow> string db_tx" where
  "schedule cr cmp at trs now =
     tx_bind (tx_lift (utc at)) (\<lambda>send_at.
     write_tx (freeze_in_tx cr cmp trs now (Aware send_at) LC_SCHEDULED None None))"

section \<open>Retiring a scheduled generation\<close>

definition retire_scheduled :: "crypto \<Rightarrow> campaign_row \<Rightarrow> datetime \<Rightarrow> (string \<times> nat) db_tx" where
  "retire_scheduled cr c now =
     tx_bind (generation_of c) (\<lambda>(gid, gen).
     tx_bind (tx_reads (jobs_in_state gid PENDING)) (\<lambda>pending.
     tx_bind (reduce_all cr CANCEL now 5 (map job_id pending)) (\<lambda>cancelled.
     tx_bind (tx_lift (iso now)) (\<lambda>stamp.
     tx_then (set_generation (cmp_id c) None (\<lambda>r. r\<lparr>cmp_summary := None, cmp_updated_at := stamp\<rparr>))
     (tx_then (discard_generation gid) (tx_return (gen, cancelled)))))))"

definition unschedule_in_tx :: "crypto \<Rightarrow> string \<Rightarrow> datetime \<Rightarrow> unit db_tx" where
  "unschedule_in_tx cr cmp now =
     tx_then require_tx
     (tx_bind (load cmp) (\<lambda>c.
      tx_then (tx_guard (cmp_lifecycle c = LC_SCHEDULED) (LifecycleError ''campaign is not scheduled''))
      (tx_bind (retire_scheduled cr c now) (\<lambda>(gen, cancelled).
       tx_then (update_campaigns (\<lambda>r. cmp_id r = cmp_id c) (\<lambda>r. r\<lparr>cmp_lifecycle := LC_READY\<rparr>))
       (tx_then (append_event cr ''campaign.unscheduled'' (Some cmp)
          [(''generation'', jstr gen), (''cancelled_count'', jnat cancelled),
           (''lifecycle'', jstr (lifecycle_name LC_READY))] now None None)
        (tx_return ()))))))"

definition unschedule :: "crypto \<Rightarrow> string \<Rightarrow> datetime \<Rightarrow> unit db_tx" where
  "unschedule cr cmp now = write_tx (unschedule_in_tx cr cmp now)"

definition cancel_in_tx :: "crypto \<Rightarrow> string \<Rightarrow> datetime \<Rightarrow> cancel_report db_tx" where
  "cancel_in_tx cr cmp now =
     tx_then require_tx
     (tx_bind (load cmp) (\<lambda>c.
      if cmp_lifecycle c = LC_SENDING then cancel_sending_in_tx cr cmp now
      else
        tx_then (tx_guard (cmp_lifecycle c \<in> {LC_DRAFT, LC_READY, LC_SCHEDULED})
                   (LifecycleError ''campaign cannot be cancelled''))
        (tx_bind (if cmp_lifecycle c = LC_SCHEDULED then
             tx_bind (retire_scheduled cr c now) (\<lambda>(gen, n).
             tx_return (n, [(''generation'', jstr gen), (''cancelled_count'', jnat n)]))
           else tx_return (0, [])) (\<lambda>(cancelled, extra).
         tx_bind (tx_lift (iso now)) (\<lambda>stamp.
         tx_then (update_campaigns (\<lambda>r. cmp_id r = cmp_id c)
                    (\<lambda>r. r\<lparr>cmp_lifecycle := LC_CANCELLED, cmp_updated_at := stamp\<rparr>))
         (tx_then (append_event cr ''campaign.cancelled'' (Some cmp)
            ((''lifecycle'', jstr (lifecycle_name LC_CANCELLED)) # extra) now None None)
          (tx_return \<lparr>cancelled_before_send = cancelled, already_sent = 0,
                       currently_in_flight = 0\<rparr>)))))))"

definition cancel :: "crypto \<Rightarrow> string \<Rightarrow> datetime \<Rightarrow> cancel_report db_tx" where
  "cancel cr cmp now = write_tx (cancel_in_tx cr cmp now)"

end
