(* ===== verification/Comms_Runs.thy ===== *)
theory Comms_Runs
  imports Comms_Prelude
begin

text \<open>
  Runs that span several transactions and calls to the outside: an exception does not undo what was
  done before it, so a run returns its outcome together with the state it left. A locale gives the
  sequencing rules for any preorder on these states.
\<close>

section \<open>Sequencing\<close>

type_synonym ('s, 'a) run = "'s \<Rightarrow> (exn + 'a) \<times> 's"

definition io_return :: "'a \<Rightarrow> ('s, 'a) run" where
  "io_return x w = (Inr x, w)"

definition io_raise :: "exn \<Rightarrow> ('s, 'a) run" where
  "io_raise e w = (Inl e, w)"

definition io_bind :: "('s, 'a) run \<Rightarrow> ('a \<Rightarrow> ('s, 'b) run) \<Rightarrow> ('s, 'b) run" where
  "io_bind m f w = (case m w of (Inl e, w') \<Rightarrow> (Inl e, w') | (Inr x, w') \<Rightarrow> f x w')"

definition io_then :: "('s, 'a) run \<Rightarrow> ('s, 'b) run \<Rightarrow> ('s, 'b) run" where
  "io_then m k = io_bind m (\<lambda>_. k)"

fun io_each :: "('a \<Rightarrow> ('s, 'b) run) \<Rightarrow> 'a list \<Rightarrow> ('s, 'b list) run" where
  "io_each f [] = io_return []"
| "io_each f (x # xs) = io_bind (f x) (\<lambda>y. io_bind (io_each f xs) (\<lambda>ys. io_return (y # ys)))"

section \<open>Guarantees of a run\<close>

definition io_within :: "('s \<Rightarrow> 's \<Rightarrow> bool) \<Rightarrow> ('s, 'a) run \<Rightarrow> bool" where
  "io_within R m \<longleftrightarrow> (\<forall>w r w'. m w = (r, w') \<longrightarrow> R w w')"

lemma io_withinI: "(\<And>w r w'. m w = (r, w') \<Longrightarrow> R w w') \<Longrightarrow> io_within R m"
  by (simp add: io_within_def)

lemma io_withinD: "io_within R m \<Longrightarrow> m w = (r, w') \<Longrightarrow> R w w'"
  by (simp add: io_within_def)

locale io_preorder =
  fixes R :: "'s \<Rightarrow> 's \<Rightarrow> bool"
  assumes R_refl: "R w w" and R_trans: "R w w' \<Longrightarrow> R w' w'' \<Longrightarrow> R w w''"
begin

lemma io_return: "io_within R (io_return x)"
  by (rule io_withinI) (auto simp: io_return_def R_refl)

lemma io_raise: "io_within R (io_raise e)"
  by (rule io_withinI) (auto simp: io_raise_def R_refl)

lemma io_bind:
  assumes "io_within R m" "\<And>x. io_within R (f x)"
  shows "io_within R (io_bind m f)"
proof (rule io_withinI)
  fix w r w' assume run: "io_bind m f w = (r, w')"
  obtain x w1 where m: "m w = (x, w1)" by fastforce
  have "R w w1" by (rule io_withinD [OF assms(1) m])
  moreover have "R w1 w'"
    using run m assms(2) R_refl by (auto simp: io_bind_def split: sum.splits dest: io_withinD)
  ultimately show "R w w'" by (rule R_trans)
qed

lemma io_then: "io_within R m \<Longrightarrow> io_within R k \<Longrightarrow> io_within R (io_then m k)"
  unfolding io_then_def by (rule io_bind)

lemma io_if: "(b \<Longrightarrow> io_within R m) \<Longrightarrow> (\<not> b \<Longrightarrow> io_within R k) \<Longrightarrow> io_within R (if b then m else k)"
  by simp

lemma io_case_option:
  "io_within R m \<Longrightarrow> (\<And>x. io_within R (f x)) \<Longrightarrow> io_within R (case v of None \<Rightarrow> m | Some x \<Rightarrow> f x)"
  by (cases v) simp_all

lemma io_case_prod:
  "(\<And>x y. io_within R (f x y)) \<Longrightarrow> io_within R (case p of (x, y) \<Rightarrow> f x y)"
  by (cases p) simp

lemma io_each:
  assumes "\<And>x. x \<in> set xs \<Longrightarrow> io_within R (f x)"
  shows "io_within R (io_each f xs)"
  using assms
proof (induction xs)
  case Nil
  show ?case unfolding io_each.simps by (rule io_return)
next
  case (Cons x xs)
  then show ?case unfolding io_each.simps by (intro io_bind io_return) auto
qed

lemmas run_intros = io_return io_raise io_bind io_then io_if io_case_option io_case_prod

end

end
