(* ===== verification/Comms_Engine.thy ===== *)
theory Comms_Engine
  imports Comms_Freeze Comms_Runs
begin

text \<open>
  The delivery engine (\<open>core/delivery/engine.py\<close>), startup recovery (\<open>core/delivery/recovery.py\<close>)
  and scheduled starts (\<open>core/delivery/scheduling.py\<close>). These span several transactions, so an
  exception does not undo what was committed before it: a run returns its outcome together with
  the world it left, which holds the database, the calls made to \<open>deliver\<close> so far and the number of
  clock reads. \<open>deliver\<close> may answer anything that depends on the delivery handed to it; a delivery
  names its job and attempt number, so the answers of different calls are independent.
\<close>

section \<open>Runs over several transactions\<close>

record world =
  w_db :: comms_db
  w_calls :: "frozen_delivery list"
  w_ticks :: nat

type_synonym 'a io = "(world, 'a) run"

text \<open>A query or one whole transaction: an exception leaves the database as it was.\<close>

definition io_db :: "'a db_tx \<Rightarrow> 'a io" where
  "io_db m w = (case m (w_db w) of Inl e \<Rightarrow> (Inl e, w) | Inr (x, t) \<Rightarrow> (Inr x, w\<lparr>w_db := t\<rparr>))"

section \<open>core/delivery/engine.py\<close>

text \<open>The engine's transports, its clock (by read number) and its test seam.\<close>

record engine =
  en_transports :: transports
  en_clock :: "nat \<Rightarrow> datetime"
  en_crash_at :: "string option"

definition CRASH_POINTS :: "string list" where
  "CRASH_POINTS = [''after_claim'', ''during_deliver'', ''after_deliver_before_record'']"

definition new_engine :: "transports \<Rightarrow> (nat \<Rightarrow> datetime) \<Rightarrow> string option \<Rightarrow> engine res" where
  "new_engine trs clock crash_at =
     (case crash_at of
        Some p \<Rightarrow> if p \<notin> set CRASH_POINTS then Inl (ValueError ''unknown crash point'')
                  else Inr \<lparr>en_transports = trs, en_clock = clock, en_crash_at = crash_at\<rparr>
      | None \<Rightarrow> Inr \<lparr>en_transports = trs, en_clock = clock, en_crash_at = None\<rparr>)"

definition now_io :: "engine \<Rightarrow> datetime io" where
  "now_io en w =
     (case utc (en_clock en (w_ticks w)) of
        Inl e \<Rightarrow> (Inl e, w\<lparr>w_ticks := Suc (w_ticks w)\<rparr>)
      | Inr t \<Rightarrow> (Inr (Aware t), w\<lparr>w_ticks := Suc (w_ticks w)\<rparr>))"

definition crash_io :: "engine \<Rightarrow> string \<Rightarrow> unit io" where
  "crash_io en point = (if en_crash_at en = Some point then io_raise (EngineCrash point) else io_return ())"

text \<open>The lease: whether the single-runtime lock is held.\<close>

definition require_lease :: "bool \<Rightarrow> unit io" where
  "require_lease held =
     (if held then io_return () else io_raise (PermissionError ''executor lease required''))"

text \<open>\<open>transport.deliver(delivery)\<close>: the call is made, and any exception or a result of no known kind
  is an unknown outcome.\<close>

definition deliver_io :: "delivery_transport \<Rightarrow> frozen_delivery \<Rightarrow> delivery_result io" where
  "deliver_io tr d w =
     (let unknown = \<lparr>dr_kind = OUTCOME_UNKNOWN, dr_message_ref = None\<rparr>;
          result = (case tr_deliver tr d of
                      Inl _ \<Rightarrow> unknown
                    | Inr r \<Rightarrow> if result_ok r then r else unknown)
      in (Inr result, w\<lparr>w_calls := w_calls w @ [d]\<rparr>))"

definition provider_key_collides :: "delivery_transport \<Rightarrow> nat \<Rightarrow> nat \<Rightarrow> string \<Rightarrow> bool db_tx" where
  "provider_key_collides tr jid aid key =
     (case tr_request_key tr of
        None \<Rightarrow> tx_return False
      | Some keyer \<Rightarrow>
          (case tr_actor tr of
             None \<Rightarrow> tx_raise (TypeError ''a keyed transport names its actor and a non-empty key'')
           | Some actor \<Rightarrow>
               if keyer key = [] then
                 tx_raise (TypeError ''a keyed transport names its actor and a non-empty key'')
               else
                 tx_bind (tx_reads (\<lambda>s. list_ex (\<lambda>a. att_actor a = Some actor
                     \<and> att_request_key a = Some (keyer key) \<and> att_job_id a \<noteq> jid)
                     (delivery_attempts s))) (\<lambda>taken.
                 if taken then tx_return True
                 else tx_then (set_request_key aid (keyer key) actor) (tx_return False))))"

datatype claim_outcome = Not_claimed | Claim_skipped | Claim_collision | Claimed frozen_delivery nat

definition claim_body :: "crypto \<Rightarrow> nat \<Rightarrow> string \<Rightarrow> delivery_transport \<Rightarrow> datetime \<Rightarrow> claim_outcome db_tx" where
  "claim_body cr jid gref tr now =
     tx_bind (tx_reads (find_job jid)) (\<lambda>jrow.
     tx_bind (tx_the no_row jrow) (\<lambda>j.
     tx_bind (tx_reads (\<lambda>s. find (\<lambda>i. idn_id i = job_identity_id j) (delivery_identities s))) (\<lambda>irow.
     tx_bind (tx_the no_row irow) (\<lambda>i.
     if job_state j \<noteq> PENDING then tx_return Not_claimed
     else
     tx_bind (tx_the (TypeError ''cannot convert NoneType object to bytes'') (job_payload j)) (\<lambda>data.
     tx_bind (tx_the (TypeError ''payload digest'') (job_payload_digest j)) (\<lambda>digest.
     tx_bind (tx_reads (\<lambda>s. list_ex (\<lambda>o'. org_job_id o' = jid \<and> path_is_valid s (org_path o'))
                               (job_origins s))) (\<lambda>eligible.
     tx_bind (tx_lift (utc now)) (\<lambda>at.
     tx_bind (if eligible then tx_lift (tr_still_valid tr \<lparr>pp_data = data, pp_digest = digest\<rparr> at)
              else tx_return False) (\<lambda>valid.
     if \<not> valid then
       tx_then (reduce cr jid None SKIP_REVALIDATION None now 5) (tx_return Claim_skipped)
     else
       tx_bind (reduce cr jid None CLAIM None now 5) (\<lambda>t.
       case (t_disposition t, t_attempt_id t) of
         (Applied, Some aid) \<Rightarrow>
           tx_bind (provider_key_collides tr jid aid (job_key j)) (\<lambda>collides.
           if collides then
             tx_then (reduce cr jid (Some aid) RESULT (Some FAILED_PERMANENT) now 5)
             (tx_then (set_outcome_code aid ''RANDOM_ID_COLLISION'') (tx_return Claim_collision))
           else
             tx_return (Claimed \<lparr>fd_job_ref = job_ref j, fd_generation_ref = gref,
               fd_transport = job_transport j, fd_identity = idn_identity i,
               fd_payload = \<lparr>pp_data = data, pp_digest = digest\<rparr>, fd_idempotency_key = job_key j,
               fd_attempt_no = job_attempt_count j + 1\<rparr> aid))
       | _ \<Rightarrow> tx_return Not_claimed))))))))))"

definition claim_io :: "crypto \<Rightarrow> engine \<Rightarrow> nat \<Rightarrow> string \<Rightarrow> delivery_transport \<Rightarrow> claim_outcome io" where
  "claim_io cr en jid gref tr =
     io_bind (now_io en) (\<lambda>now. io_db (write_tx (claim_body cr jid gref tr now)))"

definition record_result :: "crypto \<Rightarrow> nat \<Rightarrow> nat \<Rightarrow> delivery_result \<Rightarrow> datetime \<Rightarrow> datetime \<Rightarrow> unit db_tx" where
  "record_result cr jid aid r now later =
     tx_then (reduce cr jid (Some aid) RESULT (Some (dr_kind r)) now 5)
     (case dr_message_ref r of
        None \<Rightarrow> tx_return ()
      | Some ref \<Rightarrow> if ref = [] then tx_return ()
                    else tx_then (bind_provider_ref cr aid ref later) (tx_return ()))"

text \<open>One job of the loop: the outcome counted for it, if any.\<close>

datatype job_run = Run_none | Run_skipped | Run_outcome bool job_state

definition deliver_claimed ::
  "crypto \<Rightarrow> engine \<Rightarrow> delivery_transport \<Rightarrow> nat \<Rightarrow> frozen_delivery \<Rightarrow> nat \<Rightarrow> job_run io" where
  "deliver_claimed cr en tr jid d aid =
     io_then (crash_io en ''after_claim'')
     (io_then (io_db io_guard)
     (io_then (crash_io en ''during_deliver'')
     (io_bind (deliver_io tr d) (\<lambda>r.
      io_then (crash_io en ''after_deliver_before_record'')
      (io_bind (now_io en) (\<lambda>now.
       io_bind (if dr_message_ref r \<noteq> None \<and> dr_message_ref r \<noteq> Some []
                then now_io en else io_return now) (\<lambda>later.
       io_then (io_db (write_tx (record_result cr jid aid r now later)))
       (io_return (Run_outcome True (dr_kind r))))))))))"

definition run_job :: "crypto \<Rightarrow> engine \<Rightarrow> string \<Rightarrow> nat \<times> string \<Rightarrow> job_run io" where
  "run_job cr en gref job =
     (case map_of (en_transports en) (snd job) of
        None \<Rightarrow> io_raise (KeyError ''transport'')
      | Some tr \<Rightarrow>
          io_bind (claim_io cr en (fst job) gref tr) (\<lambda>outcome.
          case outcome of
            Not_claimed \<Rightarrow> io_return Run_none
          | Claim_skipped \<Rightarrow> io_return Run_skipped
          | Claim_collision \<Rightarrow> io_return (Run_outcome False FAILED_PERMANENT)
          | Claimed d aid \<Rightarrow> deliver_claimed cr en tr (fst job) d aid))"

record execution_report =
  er_claimed :: nat
  er_skipped :: nat
  er_outcomes :: "job_state list"

definition report_of :: "job_run list \<Rightarrow> execution_report" where
  "report_of rs =
     \<lparr>er_claimed = length (filter (\<lambda>r. case r of Run_outcome c _ \<Rightarrow> c | _ \<Rightarrow> False) rs),
      er_skipped = length (filter (\<lambda>r. r = Run_skipped) rs),
      er_outcomes = concat (map (\<lambda>r. case r of Run_outcome _ k \<Rightarrow> [k] | _ \<Rightarrow> []) rs)\<rparr>"

definition pending_jobs :: "nat \<Rightarrow> comms_db \<Rightarrow> (nat \<times> string) list" where
  "pending_jobs gid s = map (\<lambda>j. (job_id j, job_transport j))
     (sort_key (\<lambda>j. (job_transport j, job_id j)) (filter (\<lambda>j. job_state j = PENDING) (jobs_of gid s)))"

definition execute :: "crypto \<Rightarrow> engine \<Rightarrow> bool \<Rightarrow> string \<Rightarrow> execution_report io" where
  "execute cr en lease cmp =
     io_then (require_lease lease)
     (io_then (io_db require_not_degraded)
     (io_bind (io_db (load cmp)) (\<lambda>c.
      case cmp_generation_id c of
        None \<Rightarrow> io_return (report_of [])
      | Some gid \<Rightarrow>
          if cmp_lifecycle c \<noteq> LC_SENDING then io_return (report_of [])
          else
          io_bind (io_db (tx_reads (pending_jobs gid))) (\<lambda>pending.
          if \<not> snd ` set pending \<subseteq> fst ` set (en_transports en)
          then io_raise (LifecycleError ''transport unavailable'')
          else
          io_bind (io_db (tx_bind (tx_reads (find_generation gid)) (tx_the no_row))) (\<lambda>g.
          io_bind (io_each (run_job cr en (gen_ref g)) pending) (\<lambda>rs. io_return (report_of rs)))))))"

section \<open>core/delivery/recovery.py\<close>

record recovery_report =
  marked_unknown :: nat
  completed :: "string list"
  resumable :: "string list"

definition jobs_of_campaign :: "nat \<Rightarrow> comms_db \<Rightarrow> job_row list" where
  "jobs_of_campaign cid s =
     filter (\<lambda>j. list_ex (\<lambda>g. gen_id g = job_generation_id j \<and> gen_campaign_id g = cid) (generations s))
       (delivery_jobs s)"

definition recoverable :: "comms_db \<Rightarrow> (nat \<times> string) list" where
  "recoverable s = map (\<lambda>c. (cmp_id c, cmp_ref c))
     (sort_key cmp_ref (filter (\<lambda>c. cmp_lifecycle c = LC_SENDING
        \<or> list_ex (\<lambda>j. job_state j = IN_FLIGHT) (jobs_of_campaign (cmp_id c) s)) (campaigns s)))"

definition lifecycle_of :: "nat \<Rightarrow> lifecycle db_tx" where
  "lifecycle_of cid =
     tx_bind (tx_reads (find_campaign cid)) (\<lambda>row.
     tx_bind (tx_the no_row row) (\<lambda>c. tx_return (cmp_lifecycle c)))"

definition recover_campaign :: "crypto \<Rightarrow> datetime \<Rightarrow> nat \<Rightarrow> (nat \<times> lifecycle \<times> lifecycle) db_tx" where
  "recover_campaign cr now cid =
     tx_bind (lifecycle_of cid) (\<lambda>before.
     tx_bind (tx_reads (\<lambda>s. map job_id (sort_key job_id
        (filter (\<lambda>j. job_state j = IN_FLIGHT) (jobs_of_campaign cid s))))) (\<lambda>in_flight.
     tx_bind (reduce_all cr RECOVER now 5 in_flight) (\<lambda>marked.
     tx_bind (lifecycle_of cid) (\<lambda>mid.
     tx_then (if mid = LC_SENDING then
         tx_then (refresh_summary cr cid now) (tx_then (complete_if_idle cr cid now) (tx_return ()))
       else tx_return ())
     (tx_bind (lifecycle_of cid) (\<lambda>after. tx_return (marked, before, after)))))))"

definition recover :: "crypto \<Rightarrow> bool \<Rightarrow> datetime \<Rightarrow> recovery_report io" where
  "recover cr lease now =
     io_then (require_lease lease)
     (io_bind (io_db (tx_reads recoverable)) (\<lambda>cs.
      io_bind (io_each (\<lambda>(cid, ref). io_bind (io_db (write_tx (recover_campaign cr now cid)))
                          (\<lambda>r. io_return (ref, r))) cs) (\<lambda>rs.
      io_return \<lparr>marked_unknown = sum_list (map (\<lambda>(_, n, _). n) rs),
        completed = map fst (filter (\<lambda>(_, _, before, after). before = LC_SENDING \<and> after = LC_COMPLETE) rs),
        resumable = map fst (filter (\<lambda>(_, _, _, after). after = LC_SENDING) rs)\<rparr>)))"

section \<open>core/delivery/scheduling.py\<close>

definition due_campaigns :: "string \<Rightarrow> comms_db \<Rightarrow> string list" where
  "due_campaigns stamp s =
     map snd (sort (concat (map (\<lambda>c. map (\<lambda>g. (gen_send_at g, cmp_ref c))
       (filter (\<lambda>g. cmp_generation_id c = Some (gen_id g) \<and> gen_status g = GEN_ACTIVE
                    \<and> gen_send_at g \<le> stamp) (generations s)))
       (filter (\<lambda>c. cmp_lifecycle c = LC_SCHEDULED) (campaigns s)))))"

text \<open>\<open>False\<close>: the compare-and-set found the campaign no longer scheduled.\<close>

definition start_due :: "crypto \<Rightarrow> string \<Rightarrow> datetime \<Rightarrow> string \<Rightarrow> bool db_tx" where
  "start_due cr stamp now cmp =
     tx_bind (update_campaigns (\<lambda>c. cmp_ref c = cmp \<and> cmp_lifecycle c = LC_SCHEDULED)
                (\<lambda>c. c\<lparr>cmp_lifecycle := LC_SENDING, cmp_updated_at := stamp\<rparr>)) (\<lambda>rowcount.
     if rowcount \<noteq> 1 then tx_return False
     else
       tx_bind (tx_reads (\<lambda>s. find (\<lambda>c. cmp_ref c = cmp) (campaigns s))) (\<lambda>crow.
       tx_bind (tx_the no_row crow) (\<lambda>c.
       tx_bind (generation_of c) (\<lambda>(_, gen).
       tx_then (append_event cr ''campaign.send_started'' (Some cmp)
         [(''generation'', jstr gen), (''lifecycle'', jstr (lifecycle_name LC_SENDING))] now None None)
       (tx_return True)))))"

definition run_due :: "crypto \<Rightarrow> engine \<Rightarrow> bool \<Rightarrow> datetime \<Rightarrow> string list io" where
  "run_due cr en lease now =
     io_then (require_lease lease)
     (io_then (io_db require_not_degraded)
     (io_bind (io_db (tx_lift (iso now))) (\<lambda>stamp.
      io_bind (io_db (tx_reads (due_campaigns stamp))) (\<lambda>due.
      io_bind (io_each (\<lambda>cmp. io_bind (io_db (write_tx (start_due cr stamp now cmp))) (\<lambda>started.
                 if started then io_then (execute cr en lease cmp) (io_return [cmp])
                 else io_return [])) due) (\<lambda>started.
      io_return (concat started))))))"

end
