(* ===== verification/Comms_Invariants.thy ===== *)
theory Comms_Invariants
  imports Comms_System Comms_Engine
begin

text \<open>
  Every operation of the campaign core keeps the system invariant. Operations made of reducer calls,
  events and reads keep it step by step (\<open>kept system_inv\<close> as the preorder of the run); the ones that
  rewrite a campaign's lifecycle or generation (drafts, freeze, retire, retry, scheduled start) have
  lemmas of their own about the campaign's row.
\<close>

section \<open>What the invariant reads\<close>

definition same_tables :: "comms_db \<Rightarrow> comms_db \<Rightarrow> bool" where
  "same_tables s t \<longleftrightarrow> delivery_jobs t = delivery_jobs s \<and> delivery_attempts t = delivery_attempts s
     \<and> campaigns t = campaigns s \<and> generations t = generations s"

lemma same_tables_refl [simp]: "same_tables s s"
  by (simp add: same_tables_def)

lemma same_tables_views:
  assumes "same_tables s t"
  shows "find_generation gid t = find_generation gid s" "jobs_of gid t = jobs_of gid s"
    "attempted gid t = attempted gid s" "find_campaign cid t = find_campaign cid s"
    "states_of gid t = states_of gid s"
  using assms
  by (simp_all add: same_tables_def find_generation_def jobs_of_def attempted_def find_campaign_def states_of_def)

lemma row_ok_same_tables: "same_tables s t \<Longrightarrow> row_ok t c = row_ok s c"
  by (intro row_ok_cong) (simp add: same_tables_views)

lemma system_inv_same_tables: "same_tables s t \<Longrightarrow> system_inv t = system_inv s"
  using row_ok_same_tables [of s t]
  by (simp add: system_inv_def tables_ok_def same_tables_def list_all_iff)

lemma others_ok_same_tables: "same_tables s t \<Longrightarrow> others_ok cid t = others_ok cid s"
  using row_ok_same_tables [of s t]
  by (simp add: others_ok_def tables_ok_def same_tables_def list_all_iff)

lemma kept_same_tables: "same_tables s t \<Longrightarrow> kept system_inv s t"
  by (simp add: kept_def system_inv_same_tables)

lemma same_core_tables: "same_core s t \<Longrightarrow> same_tables s t"
  by (simp add: same_tables_def same_core_fields)

interpretation tables: journal_client same_tables
  by unfold_locales (simp_all add: same_tables_def)

interpretation keeps: journal_client "kept system_inv"
  by unfold_locales (rule kept_same_tables, simp add: same_tables_def)+

lemma same_tables_kept: "tx_within same_tables m \<Longrightarrow> tx_within (kept system_inv) m"
  by (auto simp: tx_within_def intro: kept_same_tables)

text \<open>Steps that touch none of the four tables.\<close>

lemma state_unchanged_tables: "(\<And>s x t. m s = Inr (x, t) \<Longrightarrow> t = s) \<Longrightarrow> tx_within same_tables m"
  by (rule tx_withinI) (auto simp: same_tables_def)

lemma load_state: "load cmp s = Inr (c, t) \<Longrightarrow> t = s"
  by (auto simp: load_def split: sum.splits option.splits)

lemma load_found: "load cmp s = Inr (c, t) \<Longrightarrow> t = s \<and> c \<in> set (campaigns s) \<and> cmp_ref c = cmp"
  by (auto simp: load_def dest: find_Some_iff_key split: sum.splits option.splits)

lemma require_tx_state: "require_tx s = Inr (x, t) \<Longrightarrow> t = s \<and> in_transaction s"
  by (auto simp: require_tx_def split: if_splits)

lemma generation_of_state: "generation_of c s = Inr (x, t) \<Longrightarrow> t = s"
  by (auto simp: generation_of_def tx_inr split: option.splits)

lemma generation_of_gid: "generation_of c s = Inr ((gid, gen), t) \<Longrightarrow> t = s \<and> cmp_generation_id c = Some gid"
  by (auto simp: generation_of_def tx_inr split: option.splits)

lemma lifecycle_of_ref_state: "lifecycle_of_ref cmp s = Inr (x, t) \<Longrightarrow> t = s"
  by (auto simp: lifecycle_of_ref_def tx_inr)

lemma lifecycle_of_state: "lifecycle_of cid s = Inr (x, t) \<Longrightarrow> t = s"
  by (auto simp: lifecycle_of_def tx_inr)

lemma reading_tables:
  "tx_within same_tables (load cmp)" "tx_within same_tables require_tx"
  "tx_within same_tables (generation_of c)" "tx_within same_tables (lifecycle_of_ref cmp)"
  "tx_within same_tables (lifecycle_of cid)" "tx_within same_tables require_job_tx"
  by (rule state_unchanged_tables,
      auto dest: load_state require_tx_state generation_of_state lifecycle_of_ref_state lifecycle_of_state
        simp: require_job_tx_def split: if_splits)+

lemma provider_event_tables:
  "tx_within same_tables (insert_provider_event e)" "tx_within same_tables (resolve_provider_event eid f)"
  by (rule tx_withinI, auto simp: insert_provider_event_def resolve_provider_event_def violates_def Let_def
      same_tables_def split: if_splits)+

lemmas reading_kept = reading_tables [THEN same_tables_kept]
lemmas provider_event_kept = provider_event_tables [THEN same_tables_kept]

text \<open>Updates of attempt columns the invariant does not read.\<close>

definition attempt_view :: "attempt_row \<Rightarrow> nat \<times> nat \<times> nat \<times> job_state option" where
  "attempt_view a = (att_id a, att_job_id a, att_no a, att_outcome a)"

lemma same_view:
  assumes "map v xs = map v ys"
  shows "(\<And>a. f a = g (v a)) \<Longrightarrow> map f xs = map f ys"
    and "(\<And>a. P a = Q (v a)) \<Longrightarrow> list_all P xs = list_all P ys"
    and "(\<And>a. P a = Q (v a)) \<Longrightarrow> list_ex P xs = list_ex P ys"
proof -
  show "map f xs = map f ys" if "\<And>a. f a = g (v a)"
  proof -
    have "f = g \<circ> v" using that by (simp add: fun_eq_iff)
    with arg_cong [OF assms, of "map g"] show ?thesis by simp
  qed
  show all: "list_all P xs = list_all P ys" if "\<And>a. P a = Q (v a)" for P Q
  proof -
    have "P = Q \<circ> v" using that by (simp add: fun_eq_iff)
    with arg_cong [OF assms, of "list_all Q"] show ?thesis by (simp add: list.pred_map)
  qed
  show "list_ex P xs = list_ex P ys" if "\<And>a. P a = Q (v a)" for P Q
    using all [of "\<lambda>a. \<not> P a" "\<lambda>v. \<not> Q v"] that
    by (simp add: list_ex_iff list_all_iff) blast
qed

lemma attempts_inv_view:
  assumes "map attempt_view atts' = map attempt_view atts"
  shows "attempts_inv jobs atts' = attempts_inv jobs atts"
proof -
  note view = same_view [OF assms]
  have "map att_id atts' = map att_id atts"
    by (rule view(1) [of _ fst]) (simp add: attempt_view_def)
  moreover have "map (\<lambda>a. (att_job_id a, att_no a)) atts' = map (\<lambda>a. (att_job_id a, att_no a)) atts"
    by (rule view(1) [of _ "\<lambda>(_, j, n, _). (j, n)"]) (simp add: attempt_view_def)
  moreover have "list_all (attempt_fits jobs) atts' = list_all (attempt_fits jobs) atts"
    by (rule view(2) [of _ "\<lambda>(_, i, n, out). \<exists>j\<in>set jobs. job_id j = i \<and> 1 \<le> n \<and> n \<le> job_attempt_count j
          \<and> (out = None \<longrightarrow> n = job_attempt_count j \<and> job_state j \<in> OPEN_STATES)"])
      (simp add: attempt_view_def attempt_fits_def)
  moreover have "list_ex (\<lambda>a. att_job_id a = i \<and> att_no a = n) atts'
      = list_ex (\<lambda>a. att_job_id a = i \<and> att_no a = n) atts" for i n
    by (rule view(3) [of _ "\<lambda>(_, j, m, _). j = i \<and> m = n"]) (simp add: attempt_view_def)
  ultimately show ?thesis by (simp add: attempts_inv_def del: upt_Suc)
qed


lemma attempted_view:
  assumes "map attempt_view atts' = map attempt_view (delivery_attempts s)"
  shows "attempted gid (s\<lparr>delivery_attempts := atts'\<rparr>) = attempted gid s"
proof -
  have "list_ex (\<lambda>a. list_ex (\<lambda>j. job_id j = att_job_id a) (jobs_of gid s)) atts'
      = list_ex (\<lambda>a. list_ex (\<lambda>j. job_id j = att_job_id a) (jobs_of gid s)) (delivery_attempts s)"
    by (rule same_view(3) [OF assms, of _ "\<lambda>(_, i, _). list_ex (\<lambda>j. job_id j = i) (jobs_of gid s)"])
      (simp add: attempt_view_def)
  then show ?thesis by (simp add: attempted_def jobs_of_def)
qed

lemma system_inv_attempt_view:
  assumes "map attempt_view atts' = map attempt_view (delivery_attempts s)"
  shows "system_inv (s\<lparr>delivery_attempts := atts'\<rparr>) = system_inv s"
proof -
  have "row_ok (s\<lparr>delivery_attempts := atts'\<rparr>) c = row_ok s c" for c
    by (rule row_ok_cong) (simp add: attempted_view [OF assms] find_generation_def jobs_of_def)
  then show ?thesis
    by (simp add: system_inv_def tables_ok_def attempts_inv_view [OF assms] list_all_iff)
qed

lemma attempt_columns_kept:
  "tx_within (kept system_inv) (set_request_key aid key actor)"
  "tx_within (kept system_inv) (set_outcome_code aid code)"
  "tx_within (kept system_inv) (bind_attempt_ref aid ref)"
  by (rule tx_withinI, auto simp: set_request_key_def set_outcome_code_def bind_attempt_ref_def violates_def
      Let_def kept_def attempt_view_def system_inv_attempt_view split: if_splits)+

section \<open>Operations made of reducer calls\<close>

lemma within_case_disposition:
  "tx_within R a \<Longrightarrow> tx_within R b \<Longrightarrow> tx_within R c \<Longrightarrow> tx_within R e \<Longrightarrow>
     tx_within R (case d of Applied \<Rightarrow> a | Recorded \<Rightarrow> b | Refused \<Rightarrow> c | Pending_match \<Rightarrow> e)"
  by (cases d) simp_all

lemma within_each_in:
  assumes "tx_preorder R" "\<And>x. x \<in> set xs \<Longrightarrow> tx_within R (f x)"
  shows "tx_within R (tx_each f xs)"
  using assms(2)
proof (induction xs)
  case Nil
  show ?case using assms(1) by (auto intro: tx_withinI tx_preorder.R_refl)
next
  case (Cons x xs)
  then show ?case
    unfolding tx_each.simps
    by (intro tx_preorder.within_bind [OF assms(1)] tx_preorder.within_return [OF assms(1)]) auto
qed

text \<open>The evidence that needs nothing known of the job's campaign.\<close>

lemma reduce_kept:
  assumes "ev \<in> {CLAIM, RESULT, RECOVER, RESOLVE_SENT, RESOLVE_NOT_SENT} \<or> ev = PROVIDER \<and> aid \<noteq> None"
  shows "tx_within (kept system_inv) (reduce cr jid aid ev v now cap)"
  using assms
  by (intro tx_withinI) (auto simp: kept_def settled_evidence_def intro: reduce_system_inv)

lemma bind_provider_ref_kept: "tx_within (kept system_inv) (bind_provider_ref cr aid ref now)"
  unfolding bind_provider_ref_def reconcile_event_def
  by (intro kept.within_intros reading_kept reduce_kept attempt_columns_kept
      provider_event_kept keeps.append_event_within) simp_all

lemma resolve_outcome_kept: "tx_within (kept system_inv) (resolve_outcome_in_tx cr jref verdict now)"
proof (rule tx_withinI)
  fix s x u assume run: "resolve_outcome_in_tx cr jref verdict now s = Inr (x, u)"
  then obtain jid ev t s1 where "reduce cr jid None ev None now 5 s = Inr (t, s1)"
      "ev \<in> {RESOLVE_SENT, RESOLVE_NOT_SENT}" "same_tables s1 u"
    by (auto simp: resolve_outcome_in_tx_def tx_inr verdict_evidence_def dest!: require_tx_state
        dest: tx_withinD [OF tables.append_event_within] split: if_splits prod.splits)
  then show "kept system_inv s u"
    using tx_withinD [OF reduce_kept, of ev None cr jid None now 5 s t s1] kept_same_tables [of s1 u]
    by (auto simp: kept_def)
qed

lemma fresh_update_kept:
  "tx_within (kept system_inv) (fresh_update cr transport eref mref status stamp now matches)"
  unfolding fresh_update_def new_provider_event_def refusal_event_def
  by (cases matches rule: list.exhaust [case_names Nil Cons]; simp split: list.splits prod.splits;
      intro conjI impI allI kept.within_intros reduce_kept provider_event_kept keeps.append_event_within; simp)

lemma apply_provider_update_kept:
  "tx_within (kept system_inv) (apply_provider_update cr transport eref mref status now)"
  unfolding apply_provider_update_def duplicate_update_def refusal_event_def
  by (intro kept.within_intros reading_kept fresh_update_kept keeps.append_event_within)

lemma record_result_kept: "tx_within (kept system_inv) (record_result cr jid aid r now later)"
  unfolding record_result_def
  by (intro kept.within_intros reduce_kept bind_provider_ref_kept) simp

section \<open>Operations on a generation that has started\<close>

text \<open>The jobs \<open>ids\<close> belong to the generation \<open>gid\<close>, and the campaign it is current for is sending or
  complete.\<close>

definition running :: "nat \<Rightarrow> nat set \<Rightarrow> comms_db \<Rightarrow> bool" where
  "running gid ids s \<longleftrightarrow>
     (\<forall>c\<in>set (campaigns s). cmp_generation_id c = Some gid \<longrightarrow> cmp_lifecycle c \<in> {LC_SENDING, LC_COMPLETE})
     \<and> (\<forall>j\<in>set (delivery_jobs s). job_id j \<in> ids \<longrightarrow> job_generation_id j = gid)"

definition running_inv :: "nat \<Rightarrow> nat set \<Rightarrow> comms_db \<Rightarrow> bool" where
  "running_inv gid ids s \<longleftrightarrow> system_inv s \<and> running gid ids s"

lemma same_job_gens:
  assumes "map (\<lambda>j. (job_id j, job_generation_id j)) jobs' = map (\<lambda>j. (job_id j, job_generation_id j)) jobs"
    and "j' \<in> set jobs'"
  shows "\<exists>j\<in>set jobs. job_id j = job_id j' \<and> job_generation_id j = job_generation_id j'"
proof -
  have "(job_id j', job_generation_id j') \<in> set (map (\<lambda>j. (job_id j, job_generation_id j)) jobs)"
    using assms by (auto simp flip: assms(1))
  then show ?thesis by auto
qed

lemma reduce_running:
  assumes "tables_ok s" "reduce cr jid aid ev v now cap s = Inr (t, u)" "running gid ids s"
  shows "running gid ids u"
  unfolding running_def
proof (intro conjI ballI impI)
  fix d assume d: "d \<in> set (campaigns u)" "cmp_generation_id d = Some gid"
  obtain c where "c \<in> set (campaigns s)" "settled_from c d"
    using reduce_rows_from [OF assms(1,2) d(1)] by blast
  then have c: "c \<in> set (campaigns s)" "cmp_generation_id c = Some gid"
      "cmp_lifecycle d = cmp_lifecycle c \<or> cmp_lifecycle d = LC_COMPLETE"
    using d(2) by (auto simp: settled_from_def campaign_frame_fields(7))
  with assms(3) have "cmp_lifecycle c \<in> {LC_SENDING, LC_COMPLETE}" unfolding running_def by blast
  with c(3) show "cmp_lifecycle d \<in> {LC_SENDING, LC_COMPLETE}" by auto
next
  fix j assume "j \<in> set (delivery_jobs u)" "job_id j \<in> ids"
  with same_job_gens [OF reduce_generations(2) [OF tables_ok_ids [OF assms(1)] assms(2)]] assms(3)
  show "job_generation_id j = gid" by (force simp: running_def)
qed

lemma running_evidence:
  assumes "running gid ids s" "jid \<in> ids" "find_job jid s = Some j" "c \<in> set (campaigns s)"
    "cmp_generation_id c = Some (job_generation_id j)" "ev \<notin> {RETRY, PROVIDER}"
  shows "settled_evidence (cmp_lifecycle c) ev aid"
  using assms find_job_mem [OF assms(3)] by (auto simp: running_def settled_evidence_def)

lemma reduce_running_kept:
  assumes "jid \<in> ids" "ev \<notin> {RETRY, PROVIDER}"
  shows "tx_within (kept (running_inv gid ids)) (reduce cr jid aid ev v now cap)"
proof (rule tx_withinI)
  fix s t u assume run: "reduce cr jid aid ev v now cap s = Inr (t, u)"
  show "kept (running_inv gid ids) s u"
    unfolding kept_def running_inv_def
  proof (rule impI, elim conjE, rule conjI)
    assume inv: "system_inv s" "running gid ids s"
    show "system_inv u"
      by (rule reduce_system_inv [OF inv(1) run])
        (auto intro!: running_evidence [OF inv(2) assms(1) _ _ _ assms(2)]
          dest: find_campaign_mem [OF campaign_of_generation_Some(1)])
    show "running gid ids u"
      using inv by (intro reduce_running [OF _ run]) (simp_all add: system_inv_def)
  qed
qed

lemma running_inv_kept:
  assumes "tx_within (kept system_inv) m" "\<And>s x t. m s = Inr (x, t) \<Longrightarrow>
      campaigns t = campaigns s \<and> delivery_jobs t = delivery_jobs s"
  shows "tx_within (kept (running_inv gid ids)) m"
  using assms by (fastforce simp: tx_within_def kept_def running_inv_def running_def)

lemma same_tables_running: "tx_within same_tables m \<Longrightarrow> tx_within (kept (running_inv gid ids)) m"
  by (rule running_inv_kept) (auto simp: tx_within_def same_tables_def intro: kept_same_tables)

lemma attempt_columns_running:
  "tx_within (kept (running_inv gid ids)) (set_request_key aid key actor)"
  "tx_within (kept (running_inv gid ids)) (set_outcome_code aid code)"
  by (rule running_inv_kept, rule attempt_columns_kept, auto simp: set_request_key_def set_outcome_code_def
      violates_def Let_def split: if_splits)+

lemma claim_body_running:
  "tx_within (kept (running_inv gid {jid})) (claim_body cr jid gref tr now)"
  unfolding claim_body_def provider_key_collides_def
  by (intro kept.within_intros within_case_disposition reduce_running_kept attempt_columns_running) simp_all

lemma reduce_all_running:
  assumes "set js \<subseteq> ids" "ev \<notin> {RETRY, PROVIDER}"
  shows "tx_within (kept (running_inv gid ids)) (reduce_all cr ev now cap js)"
  unfolding reduce_all_def
  by (intro kept.within_intros within_each_in reduce_running_kept kept.tx_preorder_axioms)
    (use assms in auto)

lemma reduce_all_system_inv:
  assumes "system_inv s" "running gid (set js) s" "reduce_all cr ev now cap js s = Inr (n, u)"
    "ev \<notin> {RETRY, PROVIDER}"
  shows "system_inv u"
  using tx_withinD [OF reduce_all_running [OF subset_refl assms(4)] assms(3)] assms(1,2)
  by (simp add: kept_def running_inv_def)

text \<open>The jobs a query finds in a generation.\<close>

lemma jobs_in_state_running:
  assumes "tables_ok s" "c \<in> set (campaigns s)" "cmp_generation_id c = Some gid"
    "\<forall>d\<in>set (campaigns s). cmp_generation_id d = Some gid \<longrightarrow> cmp_lifecycle d \<in> {LC_SENDING, LC_COMPLETE}"
  shows "running gid (set (map job_id (jobs_in_state gid st s))) s"
proof -
  have "job_generation_id k = gid" if "k \<in> set (delivery_jobs s)" "j \<in> set (jobs_in_state gid st s)"
      "job_id k = job_id j" for j k
  proof -
    from that(2) have j: "j \<in> set (delivery_jobs s)" "job_generation_id j = gid"
      by (auto simp: jobs_in_state_def jobs_of_def)
    have "k = j" using tables_ok_ids [OF assms(1)] that j by (auto simp: distinct_map dest: inj_onD)
    with j show ?thesis by simp
  qed
  with assms(4) show ?thesis by (auto simp: running_def)
qed

lemma generation_unique:
  assumes "system_inv s" "c \<in> set (campaigns s)" "d \<in> set (campaigns s)"
    "cmp_generation_id c = Some gid" "cmp_generation_id d = Some gid"
  shows "d = c"
proof -
  obtain g g' where "find_generation gid s = Some g" "gen_campaign_id g = cmp_id c"
    "find_generation gid s = Some g'" "gen_campaign_id g' = cmp_id d"
    using row_ok_owner [OF system_inv_row [OF assms(1)]] assms(2-5) by blast
  then have "cmp_id d = cmp_id c" by simp
  with assms(1-3) show ?thesis
    by (auto simp: system_inv_def tables_ok_def distinct_map dest: inj_onD)
qed

lemma cancel_sending_kept: "tx_within (kept system_inv) (cancel_sending_in_tx cr cmp now)"
proof (rule tx_withinI)
  fix s x u assume run: "cancel_sending_in_tx cr cmp now s = Inr (x, u)"
  then obtain c gid n s1 where c: "cmp_lifecycle c = LC_SENDING" "c \<in> set (campaigns s)"
      "cmp_generation_id c = Some gid"
      "reduce_all cr CANCEL now 5 (map job_id (jobs_in_state gid PENDING s)) s = Inr (n, s1)" "same_tables s1 u"
    by (auto simp: cancel_sending_in_tx_def tx_inr
        dest!: require_tx_state load_found generation_of_gid lifecycle_of_ref_state
        dest: tx_withinD [OF tables.append_event_within] split: prod.splits)
  show "kept system_inv s u"
    unfolding kept_def
  proof
    assume inv: "system_inv s"
    have "\<forall>d\<in>set (campaigns s). cmp_generation_id d = Some gid \<longrightarrow> cmp_lifecycle d \<in> {LC_SENDING, LC_COMPLETE}"
      using generation_unique [OF inv c(2) _ c(3)] c(1) by blast
    then have "running gid (set (map job_id (jobs_in_state gid PENDING s))) s"
      using inv by (intro jobs_in_state_running [OF _ c(2,3)]) (simp_all add: system_inv_def)
    from reduce_all_system_inv [OF inv this c(4)] c(5) show "system_inv u"
      by (simp add: system_inv_same_tables)
  qed
qed

section \<open>Updates of campaign rows\<close>

lemma row_ok_campaigns [simp]: "row_ok (s\<lparr>campaigns := cs\<rparr>) c = row_ok s c"
  by (rule row_ok_cong) (simp add: find_generation_def jobs_of_def attempted_def)

lemma row_ok_columns:
  assumes "row_ok s c" "cmp_id d = cmp_id c" "cmp_generation_id d = cmp_generation_id c"
    "cmp_summary d = cmp_summary c" "cmp_lifecycle d = cmp_lifecycle c"
  shows "row_ok s d"
  using assms by (auto simp: row_ok_def campaign_ok_def lifecycle_ok_def split: option.splits sum.splits)

lemma row_ok_without_generation:
  "cmp_generation_id c = None \<Longrightarrow>
     row_ok s c \<longleftrightarrow> cmp_summary c = None \<and> cmp_lifecycle c \<in> {LC_DRAFT, LC_READY, LC_CANCELLED}"
  by (auto simp: row_ok_def campaign_ok_def lifecycle_ok_def)

lemma row_ok_unstarted:
  assumes "row_ok s c" "cmp_lifecycle c \<in> {LC_DRAFT, LC_READY, LC_CANCELLED}"
  shows "cmp_generation_id c = None \<and> cmp_summary c = None"
  using assms by (auto simp: row_ok_def campaign_ok_def lifecycle_ok_def split: option.splits)

lemma update_campaigns_system_inv:
  assumes "update_campaigns p f s = Inr (n, u)" "system_inv s" "\<And>c. cmp_id (f c) = cmp_id c"
    and "\<And>c. c \<in> set (campaigns s) \<Longrightarrow> p c \<Longrightarrow> row_ok s (f c)"
  shows "system_inv u"
proof -
  have u: "u = s\<lparr>campaigns := update_where p f (campaigns s)\<rparr>"
    using assms(1) by (simp add: update_campaigns_Inr)
  have "tables_ok u" using assms(2,3) by (simp add: u system_inv_def tables_ok_def)
  moreover have "list_all (row_ok u) (campaigns u)"
    using assms(2,4) by (auto simp: u list_all_iff set_update_where system_inv_def)
  ultimately show ?thesis by (simp add: system_inv_def)
qed

lemma update_columns_kept:
  assumes "\<And>c. cmp_id (f c) = cmp_id c \<and> cmp_generation_id (f c) = cmp_generation_id c
      \<and> cmp_summary (f c) = cmp_summary c \<and> cmp_lifecycle (f c) = cmp_lifecycle c"
  shows "tx_within (kept system_inv) (update_campaigns p f)"
proof (rule tx_withinI)
  fix s n u assume run: "update_campaigns p f s = Inr (n, u)"
  show "kept system_inv s u"
    unfolding kept_def
    by (intro impI update_campaigns_system_inv [OF run])
      (use assms in \<open>auto intro: row_ok_columns [OF system_inv_row]\<close>)
qed

lemma campaign_id_unique:
  assumes "system_inv s" "c \<in> set (campaigns s)" "d \<in> set (campaigns s)" "cmp_id d = cmp_id c"
  shows "d = c"
  using assms by (auto simp: system_inv_def tables_ok_def distinct_map dest: inj_onD)

text \<open>A draft, ready or cancelled campaign moves between these without touching anything else.\<close>

lemma update_unstarted:
  assumes "update_campaigns (\<lambda>r. cmp_id r = cmp_id c) f s = Inr (n, u)" "system_inv s" "c \<in> set (campaigns s)"
    and "cmp_lifecycle c \<in> {LC_DRAFT, LC_READY, LC_CANCELLED}" "\<And>r. cmp_id (f r) = cmp_id r"
    and "cmp_generation_id (f c) = cmp_generation_id c" "cmp_summary (f c) = cmp_summary c"
    and "cmp_lifecycle (f c) \<in> {LC_DRAFT, LC_READY, LC_CANCELLED}"
  shows "system_inv u"
proof (rule update_campaigns_system_inv [OF assms(1,2,5)])
  fix r assume "r \<in> set (campaigns s)" "cmp_id r = cmp_id c"
  then have r: "r = c" by (rule campaign_id_unique [OF assms(2,3)])
  have "row_ok s c" by (rule system_inv_row [OF assms(2,3)])
  from row_ok_unstarted [OF this assms(4)] assms(6-8) show "row_ok s (f r)"
    by (simp add: r row_ok_without_generation)
qed

lemma journal_kept: "tx_within (kept system_inv) (journal cr ty cmp lc now)"
  unfolding journal_def by (intro kept.within_intros keeps.append_event_within)

lemma journal_tables: "tx_within same_tables (journal cr ty cmp lc now)"
  unfolding journal_def by (intro tables.within_intros tables.append_event_within)

lemma set_content_kept:
  "tx_within (kept system_inv) (set_content_in_tx cr cmp canonical fa en links media now)"
  unfolding set_content_in_tx_def set_column_def require_lifecycle_def
  by (intro kept.within_intros reading_kept journal_kept update_columns_kept) simp

lemma set_targets_kept: "tx_within (kept system_inv) (set_targets_in_tx cr cmp tg transports now)"
  unfolding set_targets_in_tx_def set_column_def require_lifecycle_def
  by (intro kept.within_intros reading_kept journal_kept update_columns_kept) simp_all

lemma validate_kept: "tx_within (kept system_inv) (validate_in_tx cr cmp now)"
proof (rule tx_withinI)
  fix s x u assume "validate_in_tx cr cmp now s = Inr (x, u)"
  then obtain c stamp n s1 where "c \<in> set (campaigns s)" "cmp_lifecycle c = LC_DRAFT"
      "update_campaigns (\<lambda>r. cmp_id r = cmp_id c)
         (\<lambda>r. (r\<lparr>cmp_lifecycle := LC_READY\<rparr>)\<lparr>cmp_updated_at := stamp\<rparr>) s = Inr (n, s1)" "same_tables s1 u"
    by (auto simp: validate_in_tx_def tx_inr set_column_def require_lifecycle_def
        dest!: require_tx_state load_found dest: tx_withinD [OF journal_tables])
  then show "kept system_inv s u"
    by (auto simp: kept_def system_inv_same_tables elim: update_unstarted)
qed

lemma edit_kept: "tx_within (kept system_inv) (edit_in_tx cr cmp now)"
proof (rule tx_withinI)
  fix s x u assume "edit_in_tx cr cmp now s = Inr (x, u)"
  then obtain c stamp n s1 where "c \<in> set (campaigns s)" "cmp_lifecycle c = LC_READY"
      "update_campaigns (\<lambda>r. cmp_id r = cmp_id c)
         (\<lambda>r. (r\<lparr>cmp_lifecycle := LC_DRAFT\<rparr>)\<lparr>cmp_updated_at := stamp\<rparr>) s = Inr (n, s1)" "same_tables s1 u"
    by (auto simp: edit_in_tx_def tx_inr set_column_def require_lifecycle_def
        dest!: require_tx_state load_found dest: tx_withinD [OF journal_tables])
  then show "kept system_inv s u"
    by (auto simp: kept_def system_inv_same_tables elim: update_unstarted)
qed

lemma insert_campaign_system_inv:
  assumes "insert_campaign c s = Inr (x, u)" "system_inv s" "cmp_id c \<notin> cmp_id ` set (campaigns s)"
    "cmp_lifecycle c = LC_DRAFT" "cmp_generation_id c = None" "cmp_summary c = None"
  shows "system_inv u"
proof -
  have u: "u = s\<lparr>campaigns := campaigns s @ [c]\<rparr>"
    using assms(1) by (auto simp: insert_campaign_def violates_def split: if_splits)
  show ?thesis
    using assms(2-6) by (auto simp: u system_inv_def tables_ok_def row_ok_without_generation list_all_iff)
qed

lemma create_campaign_kept: "tx_within (kept system_inv) (create_campaign_in_tx cr title now)"
proof (rule tx_withinI)
  fix s x u assume "create_campaign_in_tx cr title now s = Inr (x, u)"
  then obtain ref stamp s1 s2 where m: "mint_ref ''campaign'' s = Inr (ref, s1)"
    and ins: "insert_campaign
        \<lparr>cmp_id = next_id cmp_id (campaigns s1), cmp_ref = ref, cmp_title = title, cmp_lifecycle = LC_DRAFT,
         cmp_content = JObj [], cmp_targets = map (\<lambda>k. (k, [])) TARGET_KEYS, cmp_transports = [],
         cmp_summary = None, cmp_generation_id = None, cmp_created_at = stamp,
         cmp_updated_at = stamp\<rparr> s1 = Inr ((), s2)"
    and u: "same_tables s2 u"
    by (auto simp: create_campaign_in_tx_def tx_inr dest!: require_tx_state dest: tx_withinD [OF journal_tables])
  have s1: "same_tables s s1" by (rule tx_withinD [OF tables.mint_within m])
  show "kept system_inv s u"
    unfolding kept_def
  proof
    assume "system_inv s"
    with s1 have "system_inv s1" by (simp add: system_inv_same_tables)
    with insert_campaign_system_inv [OF ins] next_id_fresh [of cmp_id "campaigns s1"] u show "system_inv u"
      by (simp add: system_inv_same_tables)
  qed
qed

section \<open>Scheduled starts and recovery\<close>

lemma scheduled_row_starts:
  assumes "row_ok s c" "cmp_lifecycle c = LC_SCHEDULED"
  shows "row_ok s (c\<lparr>cmp_lifecycle := LC_SENDING, cmp_updated_at := stamp\<rparr>)"
proof -
  from assms obtain gid where gid: "cmp_generation_id c = Some gid"
    and p: "list_ex (\<lambda>j. job_state j = PENDING) (jobs_of gid s)"
    by (auto simp: row_ok_def lifecycle_ok_def split: option.splits)
  from p have "list_ex (\<lambda>x. x \<in> ACTIVE) (states_of gid s)"
    by (auto simp: states_of_def list_ex_iff ACTIVE_def)
  with assms gid show ?thesis
    by (auto simp: row_ok_def campaign_ok_def lifecycle_ok_def split: option.splits sum.splits)
qed

lemma start_due_kept: "tx_within (kept system_inv) (start_due cr stamp now cmp)"
proof -
  have "tx_within (kept system_inv)
     (update_campaigns (\<lambda>c. cmp_ref c = cmp \<and> cmp_lifecycle c = LC_SCHEDULED)
        (\<lambda>c. c\<lparr>cmp_lifecycle := LC_SENDING, cmp_updated_at := stamp\<rparr>))"
  proof (rule tx_withinI)
    fix s n u assume run: "update_campaigns (\<lambda>c. cmp_ref c = cmp \<and> cmp_lifecycle c = LC_SCHEDULED)
        (\<lambda>c. c\<lparr>cmp_lifecycle := LC_SENDING, cmp_updated_at := stamp\<rparr>) s = Inr (n, u)"
    show "kept system_inv s u"
      unfolding kept_def
      by (intro impI update_campaigns_system_inv [OF run])
        (auto intro: scheduled_row_starts [OF system_inv_row])
  qed
  then show ?thesis
    unfolding start_due_def by (intro kept.within_intros reading_kept keeps.append_event_within)
qed

text \<open>Refreshing a summary that is right, and completing what is idle.\<close>

lemma settles_tables_ok:
  assumes "settles cid s u" "tables_ok s"
  shows "tables_ok u"
  using assms settles_campaign(2) [OF assms(1)] map_eq_image [OF settles_campaign(2) [OF assms(1)]]
    settles_fields [OF assms(1)]
  by (simp add: tables_ok_def)

lemma settles_row_ok: "settles cid s u \<Longrightarrow> row_ok u c = row_ok s c"
  by (rule row_ok_cong) (simp add: settles_views)

lemma settles_system_inv:
  assumes "settles cid s u" "system_inv s"
    and "\<And>c. find_campaign cid s = Some c \<Longrightarrow> row_ok s c \<Longrightarrow>
           \<exists>d. find_campaign cid u = Some d \<and> row_ok s d"
  shows "system_inv u"
  unfolding system_inv_def list_all_iff
proof (intro conjI ballI)
  show tabu: "tables_ok u" using assms(2) by (intro settles_tables_ok [OF assms(1)]) (simp add: system_inv_def)
  fix d assume d: "d \<in> set (campaigns u)"
  show "row_ok u d"
  proof (cases "cmp_id d = cid")
    case False
    with settles_campaign(1) [OF assms(1)] d have "d \<in> set (campaigns s)" by blast
    with system_inv_row [OF assms(2)] show ?thesis by (simp add: settles_row_ok [OF assms(1)])
  next
    case True
    obtain c where c: "c \<in> set (campaigns s)" "settled_row cid c d"
      using settles_campaign(3) [OF assms(1) d] by blast
    then have "find_campaign cid s = Some c"
      using True assms(2) find_campaign_iff [of s cid c]
      by (auto simp: system_inv_def tables_ok_def settled_row_def campaign_frame_fields(1))
    from assms(3) [OF this system_inv_row [OF assms(2) c(1)]] obtain d' where
      "find_campaign cid u = Some d'" "row_ok s d'" by blast
    moreover have "find_campaign cid u = Some d"
      using d True tabu find_campaign_iff [of u cid d] by (simp add: tables_ok_def)
    ultimately show ?thesis by (simp add: settles_row_ok [OF assms(1)])
  qed
qed

lemma refresh_summary_kept: "tx_within (kept system_inv) (refresh_summary cr cid now)"
proof (rule tx_withinI)
  fix s r u assume run: "refresh_summary cr cid now s = Inr (r, u)"
  show "kept system_inv s u"
    unfolding kept_def
  proof (intro impI settles_system_inv [OF refresh_summary_settles [OF run]])
    fix c assume c: "find_campaign cid s = Some c" "row_ok s c"
    show "\<exists>d. find_campaign cid u = Some d \<and> row_ok s d"
    proof (cases "cmp_generation_id c")
      case None
      with run c have "u = s" by (auto simp: refresh_summary_def tx_inr require_job_tx_def split: if_splits)
      with c show ?thesis by blast
    next
      case (Some gid)
      from refresh_summary_effect [OF run c(1) Some] obtain x stamp where
        x: "summarize (states_of gid s) (attempted gid s) = Inr x"
        "find_campaign cid u = Some (c\<lparr>cmp_summary := Some x, cmp_updated_at := stamp\<rparr>)" by blast
      have "row_ok s (c\<lparr>cmp_summary := Some x, cmp_updated_at := stamp\<rparr>)"
        by (rule row_ok_columns [OF c(2)]) (use c(2) Some x(1) in \<open>simp_all add: row_ok_def campaign_ok_def\<close>)
      with x(2) show ?thesis by blast
    qed
  qed
qed

lemma complete_if_idle_kept: "tx_within (kept system_inv) (complete_if_idle cr cid now)"
proof (rule tx_withinI)
  fix s r u assume run: "complete_if_idle cr cid now s = Inr (r, u)"
  show "kept system_inv s u"
    unfolding kept_def
  proof (intro impI settles_system_inv [OF complete_if_idle_settles [OF run]])
    fix c assume c: "find_campaign cid s = Some c" "row_ok s c"
    show "\<exists>d. find_campaign cid u = Some d \<and> row_ok s d"
    proof (cases "cmp_generation_id c")
      case None
      with run c have "u = s" by (auto simp: complete_if_idle_def tx_inr require_job_tx_def split: if_splits)
      with c show ?thesis by blast
    next
      case (Some gid)
      with c complete_if_idle_effect [OF run c(1) Some] show ?thesis
        by (auto simp: row_ok_def campaign_ok_def lifecycle_ok_def list_all_iff list_ex_iff
            split: if_splits option.splits sum.splits)
    qed
  qed
qed

lemma reduce_all_kept:
  assumes "ev \<in> {CLAIM, RESULT, RECOVER, RESOLVE_SENT, RESOLVE_NOT_SENT}"
  shows "tx_within (kept system_inv) (reduce_all cr ev now cap js)"
  unfolding reduce_all_def by (intro kept.within_intros reduce_kept) (use assms in simp)

lemma recover_campaign_kept: "tx_within (kept system_inv) (recover_campaign cr now cid)"
  unfolding recover_campaign_def
  by (intro kept.within_intros reading_kept reduce_all_kept refresh_summary_kept complete_if_idle_kept) simp

end
