(* ===== verification/Comms_Generations.thy ===== *)
theory Comms_Generations
  imports Comms_Invariants
begin

text \<open>
  The operations that create, retire and reopen a generation keep the system invariant: freeze, the
  retirement of a scheduled generation (unschedule and cancel) and the retry of failed jobs. Each
  breaks the condition of one campaign's row and restores it before it returns; \<open>others_ok\<close> says
  what holds of everything else in between.
\<close>

section \<open>Retrying\<close>

text \<open>While a job of the generation is active its campaign is not complete, so a retry is sound.\<close>

definition retrying :: "nat \<Rightarrow> nat set \<Rightarrow> comms_db \<Rightarrow> bool" where
  "retrying gid ids s \<longleftrightarrow> system_inv s \<and> list_ex (\<lambda>x. x \<in> ACTIVE) (states_of gid s)
     \<and> (\<forall>j\<in>set (delivery_jobs s). job_id j \<in> ids \<longrightarrow> job_generation_id j = gid)"

lemma retry_keeps_active:
  assumes dist: "distinct (map job_id (delivery_jobs s))"
    and run: "reduce cr jid aid RETRY v now cap s = Inr (t, u)"
    and act: "k \<in> set (jobs_of gid s)" "job_state k \<in> ACTIVE"
  shows "list_ex (\<lambda>x. x \<in> ACTIVE) (states_of gid u)"
proof -
  have k: "k \<in> set (delivery_jobs s)" "job_generation_id k = gid" using act(1) by (auto simp: jobs_of_def)
  obtain j where j: "find_job jid s = Some j" by (rule reduce_effect [OF dist run]) blast
  obtain e: "delivery_jobs u = job_after jid RETRY t (delivery_jobs s)"
    by (rule reduce_effect [OF dist run]) blast
  have "k \<in> set (delivery_jobs u)"
  proof (cases "t_disposition t = Applied")
    case False
    with e k show ?thesis by (simp add: job_after_def)
  next
    case True
    obtain att st where d: "delivery_jobs u = put_job_state jid st (claims_one RETRY) (delivery_jobs s)"
        "t_disposition (decide (job_state j) RETRY v (is_current_attempt j att) (job_attempt_count j) cap) = Applied"
      using reduce_applied [OF dist run j True] by blast
    then have "job_state j = FAILED_TRANSIENT" by (auto simp: decide_defs split: if_splits)
    with act(2) have "k \<noteq> j" by (auto simp: ACTIVE_def)
    with dist k(1) find_job_mem [OF j] have "job_id k \<noteq> jid" by (auto simp: distinct_map dest: inj_onD)
    with put_job_state_in [OF k(1), of jid "claims_one RETRY" st] d(1) show ?thesis by simp
  qed
  with k(2) act(2) show ?thesis by (auto simp: states_of_def jobs_of_def list_ex_iff)
qed

lemma reduce_retrying:
  assumes "jid \<in> ids"
  shows "tx_within (kept (retrying gid ids)) (reduce cr jid None RETRY v now cap)"
proof (rule tx_withinI)
  fix s t u assume run: "reduce cr jid None RETRY v now cap s = Inr (t, u)"
  show "kept (retrying gid ids) s u"
    unfolding kept_def
  proof
    assume r: "retrying gid ids s"
    then have inv: "system_inv s" "tables_ok s" by (auto simp: retrying_def system_inv_def)
    note dist = tables_ok_ids [OF inv(2)]
    have ev: "settled_evidence (cmp_lifecycle c) RETRY None"
      if "find_job jid s = Some j" "campaign_of_generation (job_generation_id j) s = Some c"
        "cmp_generation_id c = Some (job_generation_id j)" for j c
    proof -
      have "job_generation_id j = gid" using r assms find_job_mem [OF that(1)] by (auto simp: retrying_def)
      moreover have "row_ok s c"
        using find_campaign_mem [OF campaign_of_generation_Some(1) [OF that(2)]] system_inv_row [OF inv(1)] by blast
      ultimately show ?thesis
        using r that(3) by (auto simp: settled_evidence_def row_ok_def lifecycle_ok_def retrying_def
            list_all_iff list_ex_iff)
    qed
    have "system_inv u" by (rule reduce_system_inv [OF inv(1) run ev])
    moreover obtain k where "k \<in> set (jobs_of gid s)" "job_state k \<in> ACTIVE"
      using r by (auto simp: retrying_def states_of_def list_ex_iff)
    then have "list_ex (\<lambda>x. x \<in> ACTIVE) (states_of gid u)" by (rule retry_keeps_active [OF dist run])
    moreover have "\<forall>j\<in>set (delivery_jobs u). job_id j \<in> ids \<longrightarrow> job_generation_id j = gid"
      using same_job_gens [OF reduce_generations(2) [OF dist run]] r by (force simp: retrying_def)
    ultimately show "retrying gid ids u" by (simp add: retrying_def)
  qed
qed

text \<open>The first retry after the campaign was reopened restores its row.\<close>

lemma first_retry:
  assumes others: "others_ok (cmp_id c) s" and c: "find_campaign (cmp_id c) s = Some c"
      "cmp_lifecycle c = LC_SENDING" "cmp_generation_id c = Some gid"
      "campaign_of_generation gid s = Some c"
    and j: "find_job jid s = Some j" "job_generation_id j = gid" "job_state j = FAILED_TRANSIENT"
      "job_attempt_count j < cap"
    and run: "reduce cr jid None RETRY None now cap s = Inr (t, u)"
  shows "system_inv u \<and> list_ex (\<lambda>x. x \<in> ACTIVE) (states_of gid u)"
proof -
  have tab: "tables_ok s" using others by (simp add: others_ok_def)
  note dist = tables_ok_ids [OF tab]
  have app: "t_disposition t = Applied"
    using reduce_disposition [OF dist run j(1)] j(3,4)
    by (auto simp: decide_defs attempt_of_def tx_return_def)
  have cj: "campaign_of_generation (job_generation_id j) s = Some c" using c(4) j(2) by simp
  have "others_ok (cmp_id c) u" by (rule reduce_others_ok [OF others run j(1) cj])
  moreover obtain d where d: "find_campaign (cmp_id c) u = Some d" "campaign_ok u d"
    using reduce_own_campaign [OF dist run app j(1) cj] c(3) j(2) by auto
  obtain d' where d': "find_campaign (cmp_id c) u = Some d'" "settled_from c d'"
    "cmp_lifecycle d' = LC_COMPLETE \<and> cmp_lifecycle c \<noteq> LC_COMPLETE \<longrightarrow>
       \<not> list_ex (\<lambda>x. x \<in> ACTIVE) (states_of (job_generation_id j) u)"
    using reduce_campaign_row [OF dist run j(1) cj] by blast
  have gen: "cmp_generation_id d = Some gid"
    using d d' c(3) by (auto simp: settled_from_def campaign_frame_fields(7))
  have "lifecycle_ok u d"
    using d d' c(2) j(2) gen by (auto simp: settled_from_def lifecycle_ok_def list_all_iff list_ex_iff)
  moreover have "x = d" if "x \<in> set (campaigns u)" "cmp_id x = cmp_id c" for x
    using that d(1) reduce_tables_ok [OF tab run] find_campaign_iff [of u "cmp_id c" x]
    by (simp add: tables_ok_def)
  ultimately have "system_inv u"
    using d(2) by (auto simp: system_inv_others [of u "cmp_id c"] row_ok_def)
  moreover obtain att st where e: "delivery_jobs u = put_job_state jid st (claims_one RETRY) (delivery_jobs s)"
      "new_state (decide (job_state j) RETRY None (is_current_attempt j att) (job_attempt_count j) cap) = Some st"
    using reduce_applied [OF dist run j(1) app] by blast
  then have "st = PENDING" using j(3,4) by (auto simp: decide_defs)
  with e(1) put_job_state_in [of j "delivery_jobs s" jid "claims_one RETRY" st] find_job_mem [OF j(1)] j(2)
  have "list_ex (\<lambda>x. x \<in> ACTIVE) (states_of gid u)"
    by (auto simp: states_of_def jobs_of_def list_ex_iff ACTIVE_def intro!: bexI)
  ultimately show ?thesis by blast
qed

lemma reduce_all_each:
  "reduce_all cr ev now cap js s = Inr (n, u) \<Longrightarrow>
     \<exists>ts. tx_each (\<lambda>jid. reduce cr jid None ev None now cap) js s = Inr (ts, u)"
  by (auto simp: reduce_all_def tx_inr)

lemma each_retrying:
  assumes "tx_each (\<lambda>jid. reduce cr jid None RETRY None now cap) js s = Inr (ts, u)"
    "set js \<subseteq> ids" "retrying gid ids s"
  shows "system_inv u"
proof -
  have "tx_within (kept (retrying gid ids)) (tx_each (\<lambda>jid. reduce cr jid None RETRY None now cap) js)"
    by (rule within_each_in [OF kept.tx_preorder_axioms reduce_retrying]) (use assms(2) in auto)
  from tx_withinD [OF this assms(1)] assms(3) show ?thesis by (simp add: kept_def retrying_def)
qed

lemma jobs_in_state_mem:
  "j \<in> set (jobs_in_state gid st s) \<longleftrightarrow> j \<in> set (delivery_jobs s) \<and> job_generation_id j = gid \<and> job_state j = st"
  by (auto simp: jobs_in_state_def jobs_of_def)

lemma found_job:
  assumes "distinct (map job_id (delivery_jobs s))" "j \<in> set (delivery_jobs s)"
  shows "find_job (job_id j) s = Some j"
  using find_key_unique [OF assms] by (simp add: find_job_def)

lemma generation_jobs:
  assumes "distinct (map job_id (delivery_jobs s))" "js \<subseteq> set (jobs_in_state gid st s)"
  shows "\<forall>j\<in>set (delivery_jobs s). job_id j \<in> job_id ` js \<longrightarrow> job_generation_id j = gid"
proof (intro ballI impI)
  fix j assume j: "j \<in> set (delivery_jobs s)" "job_id j \<in> job_id ` js"
  then obtain k where k: "k \<in> js" "job_id k = job_id j" by auto
  then have "k \<in> set (delivery_jobs s)" "job_generation_id k = gid"
    using assms(2) by (auto simp: jobs_in_state_mem)
  with assms(1) j(1) k(2) have "j = k" by (auto simp: distinct_map dest: inj_onD)
  with \<open>job_generation_id k = gid\<close> show "job_generation_id j = gid" by simp
qed

lemma owner_campaign:
  assumes "row_ok s c" "cmp_generation_id c = Some gid" "find_campaign (cmp_id c) s = Some d"
  shows "campaign_of_generation gid s = Some d"
  using row_ok_owner [OF assms(1,2)] assms(3) by (auto simp: campaign_of_generation_def)

lemma reopened:
  assumes inv: "system_inv s" and c: "c \<in> set (campaigns s)" "cmp_generation_id c = Some gid"
    and run: "update_campaigns (\<lambda>r. cmp_id r = cmp_id c)
        (\<lambda>r. r\<lparr>cmp_lifecycle := LC_SENDING, cmp_updated_at := stamp\<rparr>) s = Inr (n, u)"
  shows "others_ok (cmp_id c) u" "delivery_jobs u = delivery_jobs s"
    "find_campaign (cmp_id c) u = Some (c\<lparr>cmp_lifecycle := LC_SENDING, cmp_updated_at := stamp\<rparr>)"
    "campaign_of_generation gid u = Some (c\<lparr>cmp_lifecycle := LC_SENDING, cmp_updated_at := stamp\<rparr>)"
proof -
  let ?f = "\<lambda>r. r\<lparr>cmp_lifecycle := LC_SENDING, cmp_updated_at := stamp\<rparr>"
  have u: "u = s\<lparr>campaigns := update_where (\<lambda>r. cmp_id r = cmp_id c) ?f (campaigns s)\<rparr>"
    using run by (simp add: update_campaigns_Inr)
  then show "delivery_jobs u = delivery_jobs s" by simp
  have tab: "tables_ok s" "tables_ok u" using inv by (simp_all add: u system_inv_def tables_ok_def)
  then show "others_ok (cmp_id c) u"
    using inv by (auto simp: others_ok_def u set_update_where system_inv_def list_all_iff split: if_splits)
  have "find_campaign (cmp_id c) s = Some c"
    using tab(1) c(1) by (simp add: tables_ok_def find_campaign_iff)
  from find_campaign_update [OF this, of ?f]
  show f: "find_campaign (cmp_id c) u = Some (?f c)" by (simp add: u)
  have "row_ok u c" using system_inv_row [OF inv c(1)] by (simp add: u)
  from owner_campaign [OF this c(2) f] show "campaign_of_generation gid u = Some (?f c)" .
qed

lemma retry_failed_kept: "tx_within (kept system_inv) (retry_failed_in_tx cr cmp now cap)"
proof (rule tx_withinI)
  fix s x u assume run: "retry_failed_in_tx cr cmp now cap s = Inr (x, u)"
  define js where "js gid = filter (\<lambda>j. job_attempt_count j < cap) (jobs_in_state gid FAILED_TRANSIENT s)" for gid
  from run obtain c gid s1 s2 n where c: "c \<in> set (campaigns s)" "cmp_lifecycle c \<in> {LC_SENDING, LC_COMPLETE}"
      "cmp_generation_id c = Some gid" "reopen_if_complete c (map job_id (js gid)) now s = Inr ((), s1)"
      "reduce_all cr RETRY now cap (map job_id (js gid)) s1 = Inr (n, s2)" "same_tables s2 u"
    by (auto simp: retry_failed_in_tx_def tx_inr Let_def js_def
        dest!: require_tx_state load_found generation_of_gid lifecycle_of_ref_state
        dest: tx_withinD [OF tables.append_event_within] split: prod.splits)
  obtain ts where ts: "tx_each (\<lambda>jid. reduce cr jid None RETRY None now cap) (map job_id (js gid)) s1 = Inr (ts, s2)"
    using reduce_all_each [OF c(5)] by blast
  show "kept system_inv s u"
    unfolding kept_def
  proof
    assume inv: "system_inv s"
    then have dist: "distinct (map job_id (delivery_jobs s))" by (simp add: system_inv_def tables_ok_ids)
    note row = system_inv_row [OF inv c(1)]
    have ids: "\<forall>j\<in>set (delivery_jobs s). job_id j \<in> job_id ` set (js gid) \<longrightarrow> job_generation_id j = gid"
      by (rule generation_jobs [OF dist]) (auto simp: js_def)
    have "system_inv s2"
    proof (cases "js gid")
      case Nil
      with c(4) ts inv show ?thesis by (auto simp: reopen_if_complete_def)
    next
      case (Cons j rest)
      have j: "j \<in> set (delivery_jobs s)" "job_generation_id j = gid" "job_state j = FAILED_TRANSIENT"
          "job_attempt_count j < cap"
        using Cons jobs_in_state_mem [of j gid FAILED_TRANSIENT s] by (auto simp: js_def filter_eq_Cons_iff)
      show ?thesis
      proof (cases "cmp_lifecycle c = LC_COMPLETE")
        case False
        with c(2,4) have sending: "cmp_lifecycle c = LC_SENDING" "s1 = s"
          by (auto simp: reopen_if_complete_def)
        with row c(3) inv ids have "retrying gid (job_id ` set (js gid)) s"
          by (simp add: retrying_def row_ok_def campaign_ok_def)
        from each_retrying [OF ts _ this [folded sending(2)]] show ?thesis by simp
      next
        case True
        with c(4) Cons obtain stamp m where
          up: "update_campaigns (\<lambda>r. cmp_id r = cmp_id c)
            (\<lambda>r. r\<lparr>cmp_lifecycle := LC_SENDING, cmp_updated_at := stamp\<rparr>) s = Inr (m, s1)"
          by (auto simp: reopen_if_complete_def tx_inr)
        note re = reopened [OF inv c(1,3) up]
        from ts Cons obtain t v us where
          first: "reduce cr (job_id j) None RETRY None now cap s1 = Inr (t, v)"
          and others: "tx_each (\<lambda>jid. reduce cr jid None RETRY None now cap) (map job_id rest) v = Inr (us, s2)"
          by (auto simp: tx_inr)
        let ?c = "c\<lparr>cmp_lifecycle := LC_SENDING, cmp_updated_at := stamp\<rparr>"
        have fj: "find_job (job_id j) s1 = Some j"
          using found_job [OF dist j(1)] re(2) by (simp add: find_job_def)
        have v: "system_inv v \<and> list_ex (\<lambda>x. x \<in> ACTIVE) (states_of gid v)"
          using re c(3) by (intro first_retry [where c = ?c, OF _ _ _ _ _ fj j(2,3,4) first]) simp_all
        have d1: "distinct (map job_id (delivery_jobs s1))" using dist re(2) by simp
        have "\<forall>k\<in>set (delivery_jobs v). job_id k \<in> job_id ` set (js gid) \<longrightarrow> job_generation_id k = gid"
          using same_job_gens [OF reduce_generations(2) [OF d1 first]] ids re(2) by force
        with v have "retrying gid (job_id ` set (js gid)) v" by (simp add: retrying_def)
        from each_retrying [OF others _ this] Cons show ?thesis by auto
      qed
    qed
    with c(6) show "system_inv u" by (simp add: system_inv_same_tables)
  qed
qed

section \<open>Retiring a scheduled generation\<close>

definition retiring :: "nat \<Rightarrow> nat \<Rightarrow> nat set \<Rightarrow> comms_db \<Rightarrow> bool" where
  "retiring cid gid ids s \<longleftrightarrow> others_ok cid s
     \<and> (\<exists>g. find_generation gid s = Some g \<and> gen_campaign_id g = cid)
     \<and> (\<forall>j\<in>set (delivery_jobs s). job_id j \<in> ids \<longrightarrow> job_generation_id j = gid)"

lemma reduce_retiring:
  assumes "jid \<in> ids"
  shows "tx_within (kept (retiring cid gid ids)) (reduce cr jid aid ev v now cap)"
proof (rule tx_withinI)
  fix s t u assume run: "reduce cr jid aid ev v now cap s = Inr (t, u)"
  show "kept (retiring cid gid ids) s u"
    unfolding kept_def
  proof
    assume r: "retiring cid gid ids s"
    then have tab: "tables_ok s" by (simp add: retiring_def others_ok_def)
    note dist = tables_ok_ids [OF tab]
    obtain j c where j: "find_job jid s = Some j" "campaign_of_generation (job_generation_id j) s = Some c"
      by (rule reduce_effect [OF dist run]) blast
    have "job_generation_id j = gid" using r assms find_job_mem [OF j(1)] by (auto simp: retiring_def)
    with r campaign_of_generation_Some(2) [OF j(2)] have "cmp_id c = cid" by (auto simp: retiring_def)
    with r reduce_others_ok [OF _ run j] have "others_ok cid u" by (auto simp: retiring_def)
    moreover have "\<forall>j\<in>set (delivery_jobs u). job_id j \<in> ids \<longrightarrow> job_generation_id j = gid"
      using same_job_gens [OF reduce_generations(2) [OF dist run]] r by (force simp: retiring_def)
    ultimately show "retiring cid gid ids u"
      using r reduce_generations(1) [OF dist run] by (simp add: retiring_def find_generation_def)
  qed
qed

text \<open>The row's pointer and summary are gone; every other row is untouched.\<close>

definition cleared :: "nat \<Rightarrow> comms_db \<Rightarrow> bool" where
  "cleared cid s \<longleftrightarrow> others_ok cid s
     \<and> (\<forall>r\<in>set (campaigns s). cmp_id r = cid \<longrightarrow> cmp_generation_id r = None \<and> cmp_summary r = None)"

lemma clear_pointer:
  assumes "set_generation cid None (\<lambda>r. r\<lparr>cmp_summary := None, cmp_updated_at := stamp\<rparr>) s = Inr (n, u)"
    "others_ok cid s"
  shows "cleared cid u" "generations u = generations s"
proof -
  have u: "u = s\<lparr>campaigns := update_where (\<lambda>c. cmp_id c = cid)
      (\<lambda>c. c\<lparr>cmp_generation_id := None, cmp_summary := None, cmp_updated_at := stamp\<rparr>) (campaigns s)\<rparr>"
    using assms(1) by (simp add: set_generation_def update_campaigns_Inr)
  then show "generations u = generations s" by simp
  have "tables_ok u" using assms(2) by (simp add: u others_ok_def tables_ok_def)
  moreover have "if cmp_id d = cid then cmp_generation_id d = None \<and> cmp_summary d = None else row_ok u d"
    if d: "d \<in> set (campaigns u)" for d
  proof -
    obtain c where c: "c \<in> set (campaigns s)" "d = (if cmp_id c = cid
        then c\<lparr>cmp_generation_id := None, cmp_summary := None, cmp_updated_at := stamp\<rparr> else c)"
      using d by (auto simp: u set_update_where)
    show ?thesis
    proof (cases "cmp_id c = cid")
      case True
      with c(2) show ?thesis by simp
    next
      case False
      with c assms(2) show ?thesis by (simp add: u others_ok_def)
    qed
  qed
  ultimately show "cleared cid u" unfolding cleared_def others_ok_def by metis
qed

lemma find_update_id:
  assumes "\<And>r. key (f r) = key r"
  shows "find (\<lambda>r. key r = k) (update_where p f rows) = map_option (\<lambda>r. if p r then f r else r) (find (\<lambda>r. key r = k) rows)"
  by (rule find_update_where) (rule assms)

lemma list_ex_key: "list_ex (\<lambda>r. key r = k) rows \<longleftrightarrow> k \<in> set (map key rows)"
  by (auto simp: list_ex_iff)

lemma discard_cleared:
  assumes "discard_generation gid s = Inr (x, u)" "cleared cid s"
    "find_generation gid s = Some g" "gen_campaign_id g = cid"
  shows "cleared cid u"
proof -
  have u: "u = s\<lparr>generations := update_where (\<lambda>g. gen_id g = gid) (\<lambda>g. g\<lparr>gen_status := GEN_DISCARDED\<rparr>) (generations s)\<rparr>"
    using assms(1) by (auto simp: discard_generation_def violates_def split: if_splits)
  have same: "row_ok u r" if "r \<in> set (campaigns s)" "row_ok s r" "cmp_id r \<noteq> cid" for r
  proof -
    have "k \<noteq> gid" if "cmp_generation_id r = Some k" for k
      using row_ok_owner [OF \<open>row_ok s r\<close> that] assms(3,4) \<open>cmp_id r \<noteq> cid\<close> by auto
    then have "row_ok u r = row_ok s r"
      by (intro row_ok_cong)
        (auto simp: u find_generation_def find_update_id jobs_of_def attempted_def option.map_ident_strong
          dest: find_Some_iff_key intro!: option.map_ident_strong)
    with that(2) show ?thesis by simp
  qed
  have "tables_ok u"
    using assms(2) by (simp add: u cleared_def others_ok_def tables_ok_def list_ex_key)
  with same assms(2) show ?thesis by (auto simp: cleared_def others_ok_def u)
qed

lemma cleared_row_restored:
  assumes "update_campaigns (\<lambda>r. cmp_id r = cid) f s = Inr (n, u)" "cleared cid s"
    and "\<And>r. cmp_id (f r) = cmp_id r \<and> cmp_generation_id (f r) = cmp_generation_id r
           \<and> cmp_summary (f r) = cmp_summary r \<and> cmp_lifecycle (f r) \<in> {LC_DRAFT, LC_READY, LC_CANCELLED}"
  shows "system_inv u"
proof -
  have u: "u = s\<lparr>campaigns := update_where (\<lambda>r. cmp_id r = cid) f (campaigns s)\<rparr>"
    using assms(1) by (simp add: update_campaigns_Inr)
  have tab: "tables_ok u" using assms(2,3) by (simp add: u cleared_def others_ok_def tables_ok_def)
  have "row_ok s (f r)" if "r \<in> set (campaigns s)" "cmp_id r = cid" for r
    using that assms(2) assms(3) [of r] by (simp add: cleared_def row_ok_without_generation)
  moreover have "row_ok s r" if "r \<in> set (campaigns s)" "cmp_id r \<noteq> cid" for r
    using that assms(2) by (simp add: cleared_def others_ok_def)
  ultimately show ?thesis
    using tab by (auto simp: system_inv_def list_all_iff u set_update_where)
qed

lemma retire_scheduled_cleared:
  assumes run: "retire_scheduled cr c now s = Inr (x, u)" and inv: "system_inv s" and c: "c \<in> set (campaigns s)"
  shows "cleared (cmp_id c) u"
proof -
  from run obtain gid n stamp s1 s2 m where r: "cmp_generation_id c = Some gid"
      "reduce_all cr CANCEL now 5 (map job_id (jobs_in_state gid PENDING s)) s = Inr (n, s1)"
      "set_generation (cmp_id c) None (\<lambda>r. r\<lparr>cmp_summary := None, cmp_updated_at := stamp\<rparr>) s1 = Inr (m, s2)"
      "discard_generation gid s2 = Inr ((), u)"
    by (auto simp: retire_scheduled_def tx_inr dest!: generation_of_gid split: prod.splits)
  let ?ids = "job_id ` set (jobs_in_state gid PENDING s)"
  have "retiring (cmp_id c) gid ?ids s"
    using inv row_ok_owner [OF system_inv_row [OF inv c] r(1)] system_inv_others [of s "cmp_id c"]
      generation_jobs [of s "set (jobs_in_state gid PENDING s)" gid PENDING]
    by (auto simp: retiring_def system_inv_def tables_ok_ids)
  moreover have "tx_within (kept (retiring (cmp_id c) gid ?ids))
      (reduce_all cr CANCEL now 5 (map job_id (jobs_in_state gid PENDING s)))"
    unfolding reduce_all_def
    by (intro kept.within_intros within_each_in reduce_retiring kept.tx_preorder_axioms) simp
  ultimately have s1: "retiring (cmp_id c) gid ?ids s1"
    using tx_withinD r(2) by (fastforce simp: kept_def)
  then obtain g where "find_generation gid s1 = Some g" "gen_campaign_id g = cmp_id c" "others_ok (cmp_id c) s1"
    by (auto simp: retiring_def)
  with clear_pointer [OF r(3)] discard_cleared [OF r(4)] show ?thesis
    by (simp add: find_generation_def)
qed

lemma unschedule_kept: "tx_within (kept system_inv) (unschedule_in_tx cr cmp now)"
proof (rule tx_withinI)
  fix s x u assume "unschedule_in_tx cr cmp now s = Inr (x, u)"
  then obtain c y s1 s2 n where "c \<in> set (campaigns s)" "retire_scheduled cr c now s = Inr (y, s1)"
      "update_campaigns (\<lambda>r. cmp_id r = cmp_id c) (\<lambda>r. r\<lparr>cmp_lifecycle := LC_READY\<rparr>) s1 = Inr (n, s2)"
      "same_tables s2 u"
    by (auto simp: unschedule_in_tx_def tx_inr dest!: require_tx_state load_found
        dest: tx_withinD [OF tables.append_event_within] split: prod.splits)
  then show "kept system_inv s u"
    by (auto simp: kept_def system_inv_same_tables elim: cleared_row_restored intro: retire_scheduled_cleared)
qed

lemma cancel_kept: "tx_within (kept system_inv) (cancel_in_tx cr cmp now)"
proof (rule tx_withinI)
  fix s x u assume run: "cancel_in_tx cr cmp now s = Inr (x, u)"
  then obtain c where l: "load cmp s = Inr (c, s)"
    by (auto simp: cancel_in_tx_def tx_inr dest!: require_tx_state dest: load_state)
  show "kept system_inv s u"
  proof (cases "cmp_lifecycle c = LC_SENDING")
    case True
    with run l have "cancel_sending_in_tx cr cmp now s = Inr (x, u)"
      by (auto simp: cancel_in_tx_def tx_inr dest!: require_tx_state)
    then show ?thesis by (rule tx_withinD [OF cancel_sending_kept])
  next
    case False
    with run l obtain stamp s1 s2 n where c: "c \<in> set (campaigns s)"
        "cmp_lifecycle c \<in> {LC_DRAFT, LC_READY, LC_SCHEDULED}"
        "if cmp_lifecycle c = LC_SCHEDULED then \<exists>y. retire_scheduled cr c now s = Inr (y, s1) else s1 = s"
        "update_campaigns (\<lambda>r. cmp_id r = cmp_id c)
           (\<lambda>r. r\<lparr>cmp_lifecycle := LC_CANCELLED, cmp_updated_at := stamp\<rparr>) s1 = Inr (n, s2)" "same_tables s2 u"
      using load_found [OF l]
      by (auto simp: cancel_in_tx_def tx_inr dest!: require_tx_state
          dest: tx_withinD [OF tables.append_event_within] split: prod.splits if_splits)
    show ?thesis
      unfolding kept_def
    proof
      assume inv: "system_inv s"
      have "system_inv s2"
      proof (cases "cmp_lifecycle c = LC_SCHEDULED")
        case True
        with c(3) retire_scheduled_cleared [OF _ inv c(1)] have "cleared (cmp_id c) s1" by auto
        from cleared_row_restored [OF c(4) this] show ?thesis by simp
      next
        case False
        with c(3) have "s1 = s" by simp
        with c(2) False show ?thesis
          by (intro update_unstarted [OF c(4) [unfolded \<open>s1 = s\<close>] inv c(1)]) auto
      qed
      with c(5) show "system_inv u" by (simp add: system_inv_same_tables)
    qed
  qed
qed

section \<open>Freezing\<close>

lemma attempts_inv_new_job:
  assumes "attempts_inv jobs atts" "job_id j \<notin> job_id ` set jobs" "job_attempt_count j = 0"
    "job_state j \<in> {PENDING, SKIPPED_PLATFORM_POLICY}"
  shows "attempts_inv (jobs @ [j]) atts"
proof -
  have "attempt_fits (jobs @ [j]) a" if "attempt_fits jobs a" for a
    using that by (auto simp: attempt_fits_def)
  with assms show ?thesis by (auto simp: attempts_inv_def list_all_iff)
qed

text \<open>While the new generation is filled: its jobs so far have the states \<open>sts\<close> and no attempt.\<close>

definition filling :: "nat \<Rightarrow> nat \<Rightarrow> job_state list \<Rightarrow> comms_db \<Rightarrow> bool" where
  "filling gid cid sts s \<longleftrightarrow> others_ok cid s
     \<and> (\<exists>g. find_generation gid s = Some g \<and> gen_campaign_id g = cid)
     \<and> states_of gid s = sts \<and> list_all (\<lambda>j. job_attempt_count j = 0) (jobs_of gid s)"

lemma filling_same_tables: "same_tables s t \<Longrightarrow> filling gid cid sts t = filling gid cid sts s"
  by (simp add: filling_def others_ok_same_tables same_tables_views)

lemma insert_generation_filling:
  assumes run: "insert_generation g s = Inr (x, u)" and inv: "system_inv s"
    and g: "gen_id g = next_id gen_id (generations s)" "gen_campaign_id g = cid"
  shows "filling (gen_id g) cid [] u" "campaigns u = campaigns s"
proof -
  have u: "u = s\<lparr>generations := generations s @ [g]\<rparr>"
    using run by (auto simp: insert_generation_def violates_def split: if_splits)
  then show "campaigns u = campaigns s" by simp
  have fresh: "gen_id g \<notin> gen_id ` set (generations s)" by (simp add: g(1) next_id_fresh)
  have tab: "tables_ok s" using inv by (simp add: system_inv_def)
  have rows: "row_ok u d" if d: "row_ok s d" for d
  proof -
    have "row_ok u d = row_ok s d"
      using row_ok_owner [OF d]
      by (intro row_ok_cong) (force simp: u find_generation_def find_append jobs_of_def attempted_def)
    with d show ?thesis by simp
  qed
  have "cid \<in> cmp_id ` set (campaigns s)"
    using run g(2) by (auto simp: insert_generation_def violates_def split: if_splits)
  with tab g(2) have "tables_ok u" by (simp add: u tables_ok_def list_all_iff)
  with rows inv have "others_ok cid u" by (simp add: others_ok_def u system_inv_def list_all_iff)
  moreover have "find (\<lambda>r. gen_id r = gen_id g) (generations s) = None"
    using fresh by (auto simp: find_None_iff intro: rev_image_eqI)
  then have "find_generation (gen_id g) u = Some g"
    by (simp add: u find_generation_def find_append)
  moreover have "job_generation_id j \<in> gen_id ` set (generations s)" if "j \<in> set (delivery_jobs s)" for j
    using tab that by (simp add: tables_ok_def list_all_iff list_ex_key)
  with fresh have "jobs_of (gen_id g) u = []" by (simp add: u jobs_of_def filter_empty_conv) metis
  ultimately show "filling (gen_id g) cid [] u" using g(2) by (simp add: filling_def states_of_def)
qed

lemma insert_job_ref: "insert_job j s = Inr (x, u) \<Longrightarrow> job_ref j \<notin> job_ref ` set (delivery_jobs s)"
  by (auto simp: insert_job_def violates_def split: if_splits)

lemma insert_job_filling:
  assumes run: "insert_job j s = Inr (x, u)" and fill: "filling gid cid sts s"
    and j: "job_id j = next_id job_id (delivery_jobs s)" "job_generation_id j = gid" "job_attempt_count j = 0"
      "job_state j \<in> {PENDING, SKIPPED_PLATFORM_POLICY}"
  shows "filling gid cid (sts @ [job_state j]) u"
proof -
  have u: "u = s\<lparr>delivery_jobs := delivery_jobs s @ [j]\<rparr>"
    using run by (auto simp: insert_job_def violates_def split: if_splits)
  have tab: "tables_ok s" using fill by (simp add: filling_def others_ok_def)
  obtain g where g: "find_generation gid s = Some g" "gen_campaign_id g = cid" using fill by (auto simp: filling_def)
  have other: "row_ok u d" if d: "row_ok s d" "cmp_id d \<noteq> cid" for d
  proof -
    have "k \<noteq> gid" if "cmp_generation_id d = Some k" for k using row_ok_owner [OF d(1) that] g d(2) by auto
    then have "row_ok u d = row_ok s d"
      using j(2) by (intro row_ok_cong) (auto simp: u find_generation_def jobs_of_def attempted_def)
    with d(1) show ?thesis by simp
  qed
  have "job_id j \<notin> job_id ` set (delivery_jobs s)" by (simp add: j(1) next_id_fresh)
  moreover have "list_ex (\<lambda>r. gen_id r = gid) (generations s)"
    using find_Some_iff_key [OF g(1) [unfolded find_generation_def]] by (auto simp: list_ex_iff)
  ultimately have "tables_ok u"
    using tab attempts_inv_new_job [of "delivery_jobs s" "delivery_attempts s" j] j
      insert_job_ref [OF run] by (simp add: u tables_ok_def)
  with other fill have "others_ok cid u" by (simp add: others_ok_def filling_def u)
  with fill g j(2,3) show ?thesis
    by (simp add: filling_def u find_generation_def states_of_def jobs_of_def)
qed

lemma insert_origin_tables: "tx_within same_tables (insert_origin r)"
  by (rule tx_withinI) (auto simp: insert_origin_def violates_def same_tables_def split: if_splits)

lemma insert_planned_filling:
  assumes "insert_planned gid p s = Inr (x, u)" "filling gid cid sts s"
  shows "filling gid cid (sts @ [planned_state p]) u" "campaigns u = campaigns s"
proof -
  from assms(1) obtain j s1 ys where j: "insert_job j s = Inr ((), s1)" "job_id j = next_id job_id (delivery_jobs s)"
      "job_generation_id j = gid" "job_attempt_count j = 0" "job_state j = planned_state p"
    and o: "tx_each (\<lambda>og. insert_origin \<lparr>org_job_id = job_id j, org_endpoint_ref = o_endpoint_ref og, org_path = o_path og\<rparr>)
        (c_origins (pl_candidate p)) s1 = Inr (ys, u)"
    by (fastforce simp: insert_planned_def tx_inr)
  have t: "same_tables s1 u" by (rule tx_withinD [OF tables.within_each [OF insert_origin_tables] o])
  have "filling gid cid (sts @ [job_state j]) s1"
    by (rule insert_job_filling [OF j(1) assms(2) j(2,3,4)]) (simp add: j(5) planned_state_def)
  with t j(5) show "filling gid cid (sts @ [planned_state p]) u" by (simp add: filling_same_tables)
  show "campaigns u = campaigns s"
    using t j(1) by (auto simp: same_tables_def insert_job_def violates_def split: if_splits)
qed

lemma insert_all_filling:
  "tx_each (insert_planned gid) pls s = Inr (xs, u) \<Longrightarrow> filling gid cid sts s \<Longrightarrow>
     filling gid cid (sts @ map planned_state pls) u \<and> campaigns u = campaigns s"
proof (induction pls arbitrary: s xs sts)
  case Nil
  then show ?case by simp
next
  case (Cons p pls)
  then obtain y s1 ys where "insert_planned gid p s = Inr (y, s1)" "tx_each (insert_planned gid) pls s1 = Inr (ys, u)"
    by (auto simp: tx_inr)
  with Cons.IH [of s1 ys "sts @ [planned_state p]"] insert_planned_filling [of gid p s y s1 cid sts] Cons.prems(2)
  show ?case by simp
qed

lemma not_attempted:
  assumes "attempts_inv (delivery_jobs s) (delivery_attempts s)"
    "list_all (\<lambda>j. job_attempt_count j = 0) (jobs_of gid s)"
  shows "\<not> attempted gid s"
proof
  assume "attempted gid s"
  then obtain a j where a: "a \<in> set (delivery_attempts s)" "j \<in> set (delivery_jobs s)"
      "job_generation_id j = gid" "job_id j = att_job_id a"
    by (auto simp: attempted_def jobs_of_def list_ex_iff)
  obtain k where k: "k \<in> set (delivery_jobs s)" "job_id k = att_job_id a" "job_attempt_count k \<noteq> 0"
    using assms(1) a(1) by (auto simp: attempts_inv_def attempt_fits_def list_all_iff)
  have "inj_on job_id (set (delivery_jobs s))" using assms(1) by (simp add: attempts_inv_def distinct_map)
  from inj_onD [OF this, of k j] k a have "k = j" by simp
  with k(3) a assms(2) show False by (simp add: jobs_of_def list_all_iff)
qed

lemma filled_row_ok:
  assumes "filling gid (cmp_id c) sts s" "set sts \<subseteq> {PENDING, SKIPPED_PLATFORM_POLICY}" "PENDING \<in> set sts"
    "cmp_generation_id c = Some gid" "cmp_summary c = Some SUM_IN_PROGRESS" "cmp_lifecycle c \<in> {LC_SENDING, LC_SCHEDULED}"
  shows "row_ok s c"
proof -
  have act: "list_ex (\<lambda>x. x \<in> ACTIVE) sts" using assms(3) by (auto simp: list_ex_iff ACTIVE_def)
  then have "sts \<noteq> []" by auto
  with act have "summarize sts b = Inr SUM_IN_PROGRESS" for b by (simp add: summarize_def)
  moreover have sts: "states_of gid s = sts" using assms(1) by (simp add: filling_def)
  ultimately have "campaign_ok s c"
    using assms act by (auto simp: campaign_ok_def filling_def)
  moreover have "list_all (\<lambda>j. job_state j \<in> {PENDING, SKIPPED_PLATFORM_POLICY}) (jobs_of gid s)"
    "list_ex (\<lambda>j. job_state j = PENDING) (jobs_of gid s)"
    using assms(2,3) by (auto simp: states_of_def list_all_iff list_ex_iff image_subset_iff simp flip: sts)
  ultimately show ?thesis
    using assms by (auto simp: row_ok_def lifecycle_ok_def filling_def list_all_iff)
qed

lemma store_generation_inv:
  assumes run: "store_generation cr c gen stamp at digest commitment audited lc pls s = Inr (x, u)"
    and inv: "system_inv s" and lc: "lc \<in> {LC_SENDING, LC_SCHEDULED}" and p: "list_ex (\<lambda>p. pl_payload p \<noteq> None) pls"
  shows "system_inv u"
proof -
  define g where "g = \<lparr>gen_id = next_id gen_id (generations s), gen_ref = gen, gen_campaign_id = cmp_id c,
      gen_created_at = stamp, gen_send_at = at, gen_content = cmp_content c, gen_snapshot_digest = digest,
      gen_status = GEN_ACTIVE, gen_commitment = commitment, gen_commit_key_id = map_option cc_key_id audited\<rparr>"
  have g12: "gen_id g = next_id gen_id (generations s)" "gen_campaign_id g = cmp_id c" by (simp_all add: g_def)
  from run obtain s1 s2 ys n where
      g: "insert_generation g s = Inr ((), s1)" "tx_each (insert_planned (gen_id g)) pls s1 = Inr (ys, s2)"
    and set: "set_generation (cmp_id c) (Some (gen_id g))
        (\<lambda>r. r\<lparr>cmp_summary := Some SUM_IN_PROGRESS, cmp_lifecycle := lc, cmp_updated_at := stamp\<rparr>) s2 = Inr (n, u)"
    by (auto simp: store_generation_def tx_inr g_def)
  let ?f = "\<lambda>r. r\<lparr>cmp_generation_id := Some (gen_id g), cmp_summary := Some SUM_IN_PROGRESS, cmp_lifecycle := lc,
      cmp_updated_at := stamp\<rparr>"
  have fill: "filling (gen_id g) (cmp_id c) (map planned_state pls) s2"
    using insert_all_filling [OF g(2) insert_generation_filling(1) [OF g(1) inv g12]] by simp
  have u: "u = s2\<lparr>campaigns := update_where (\<lambda>r. cmp_id r = cmp_id c) ?f (campaigns s2)\<rparr>"
    using set by (auto simp: set_generation_def update_campaigns_Inr violates_def split: if_splits)
  have "tables_ok u" using fill by (simp add: u filling_def others_ok_def tables_ok_def)
  moreover have "row_ok s2 r" if "r \<in> set (campaigns s2)" "cmp_id r \<noteq> cmp_id c" for r
    using fill that by (simp add: filling_def others_ok_def)
  moreover have "row_ok s2 (?f r)" if "cmp_id r = cmp_id c" for r
  proof (rule filled_row_ok)
    show "filling (gen_id g) (cmp_id (?f r)) (map planned_state pls) s2" using fill that by simp
    show "PENDING \<in> set (map planned_state pls)" using p by (force simp: list_ex_iff planned_state_def)
  qed (use lc in \<open>auto simp: planned_state_def\<close>)
  ultimately show ?thesis
    by (auto simp: system_inv_def list_all_iff u set_update_where)
qed

lemma plan_job_tables: "tx_within same_tables (plan_job cr trs cmp gen content template send_at cand)"
  unfolding plan_job_def by (intro tables.within_intros tables.mint_within)

lemma freeze_kept:
  assumes "lc \<in> {LC_SENDING, LC_SCHEDULED}"
  shows "tx_within (kept system_inv) (freeze_in_tx cr cmp trs now send_at lc audited audit)"
proof (rule tx_withinI)
  fix s x u assume "freeze_in_tx cr cmp trs now send_at lc audited audit s = Inr (x, u)"
  then obtain c gen stamp at digest commitment pls s1 s2 s3 where
      m: "same_tables s s1" "same_tables s1 s2"
    and st: "list_ex (\<lambda>p. pl_payload p \<noteq> None) pls"
      "store_generation cr c gen stamp at digest commitment audited lc pls s2 = Inr ((), s3)" "same_tables s3 u"
    by (auto simp: freeze_in_tx_def tx_inr dest!: require_tx_state load_state
        tx_withinD [OF tables.append_event_within] tx_withinD [OF tables.mint_within]
        tx_withinD [OF tables.within_each [OF plan_job_tables]] split: option.splits)
  then show "kept system_inv s u"
    using store_generation_inv [OF st(2) _ assms st(1)] st(3) by (simp add: kept_def system_inv_same_tables)
qed

end
