(* ===== verification/Comms_World.thy ===== *)
theory Comms_World
  imports Comms_Generations
begin

text \<open>
  Runs of the engine, of recovery and of the scheduler over several transactions. A locale gives the
  sequencing rules for any preorder on worlds; interpreted on invariants, it carries the system
  invariant and the delivery log (every call of \<open>deliver\<close> is the only one of its attempt, and the
  attempt was committed before the call) through every run, whether it returns, raises or crashes.
\<close>

section \<open>Steps of a world\<close>

text \<open>The engine's primitive steps, under any preorder on worlds.\<close>

locale world_preorder = io_preorder R for R :: "world \<Rightarrow> world \<Rightarrow> bool"
begin

lemma io_reads: "io_within R (io_db (tx_reads q))"
  by (rule io_withinI) (auto simp: io_db_def R_refl)

lemma io_db:
  assumes "\<And>w x t. m (w_db w) = Inr (x, t) \<Longrightarrow> R w (w\<lparr>w_db := t\<rparr>)"
  shows "io_within R (io_db m)"
  using assms by (intro io_withinI) (auto simp: io_db_def R_refl split: sum.splits)

lemma crash: "io_within R (crash_io en point)"
  unfolding crash_io_def by (intro io_if io_raise io_return)

lemma lease: "io_within R (require_lease held)"
  unfolding require_lease_def by (intro io_if io_raise io_return)

lemmas io_intros = run_intros io_reads crash lease

end

text \<open>Invariants of worlds that do not read the clock.\<close>

definition w_kept :: "(world \<Rightarrow> bool) \<Rightarrow> world \<Rightarrow> world \<Rightarrow> bool" where
  "w_kept I w w' \<longleftrightarrow> (I w \<longrightarrow> I w')"

interpretation w_kept: world_preorder "w_kept I" for I
  by unfold_locales (auto simp: w_kept_def)

definition db_inv :: "(comms_db \<Rightarrow> bool) \<Rightarrow> world \<Rightarrow> bool" where
  "db_inv I w \<longleftrightarrow> I (w_db w)"

lemma db_inv_tx: "tx_within (kept I) m \<Longrightarrow> io_within (w_kept (db_inv I)) (io_db m)"
  by (rule w_kept.io_db) (auto simp: w_kept_def db_inv_def kept_def tx_within_def)

lemma db_inv_now: "io_within (w_kept (db_inv I)) (now_io en)"
  by (rule io_withinI) (auto simp: w_kept_def db_inv_def now_io_def split: sum.splits)

lemma db_inv_deliver: "io_within (w_kept (db_inv I)) (deliver_io tr d)"
  by (rule io_withinI) (auto simp: w_kept_def db_inv_def deliver_io_def Let_def)

text \<open>A whole transaction: the flag that marks it open is not read by the invariants.\<close>

lemma write_tx_kept:
  assumes "tx_within (kept I) m" "\<And>s b. I (s\<lparr>in_transaction := b\<rparr>) = I s"
  shows "tx_within (kept I) (write_tx m)"
proof (rule tx_withinI)
  fix s x t assume "write_tx m s = Inr (x, t)"
  then obtain t' where "m (s\<lparr>in_transaction := True\<rparr>) = Inr (x, t')" "t = t'\<lparr>in_transaction := False\<rparr>"
    by (auto simp: write_tx_def split: if_splits sum.splits)
  with tx_withinD [OF assms(1), of "s\<lparr>in_transaction := True\<rparr>" x t'] assms(2) show "kept I s t"
    by (simp add: kept_def)
qed

lemma in_transaction_tables: "same_tables s (s\<lparr>in_transaction := b\<rparr>)"
  by (simp add: same_tables_def)

lemma system_inv_in_transaction [simp]: "system_inv (s\<lparr>in_transaction := b\<rparr>) = system_inv s"
  by (rule system_inv_same_tables [OF in_transaction_tables])

lemma running_inv_in_transaction [simp]: "running_inv gid ids (s\<lparr>in_transaction := b\<rparr>) = running_inv gid ids s"
  by (simp add: running_inv_def running_def)

lemma state_unchanged_kept:
  "tx_within (kept I) (load cmp)" "tx_within (kept I) io_guard" "tx_within (kept I) require_not_degraded"
  by (auto simp: tx_within_def kept_def io_guard_def require_not_degraded_def tx_inr dest!: load_state
      split: if_splits)

section \<open>The engine keeps the system invariant\<close>

lemma reduce_any_running:
  assumes "ev \<in> {CLAIM, RESULT, RECOVER, RESOLVE_SENT, RESOLVE_NOT_SENT} \<or> ev = PROVIDER \<and> aid \<noteq> None"
  shows "tx_within (kept (running_inv gid ids)) (reduce cr jid aid ev v now cap)"
proof (rule tx_withinI)
  fix s t u assume run: "reduce cr jid aid ev v now cap s = Inr (t, u)"
  show "kept (running_inv gid ids) s u"
    using tx_withinD [OF reduce_kept [OF assms] run] reduce_running [OF _ run]
    by (auto simp: kept_def running_inv_def system_inv_def)
qed

lemma running_same_tables: "same_tables s t \<Longrightarrow> kept (running_inv gid ids) s t"
  using system_inv_same_tables [of s t] unfolding kept_def running_inv_def running_def same_tables_def
  by simp

interpretation running: journal_client "kept (running_inv gid ids)" for gid ids
  by unfold_locales (rule running_same_tables, simp add: same_tables_def)+

lemma bind_attempt_ref_running: "tx_within (kept (running_inv gid ids)) (bind_attempt_ref aid ref)"
  by (rule running_inv_kept [OF attempt_columns_kept(3)]) (auto simp: bind_attempt_ref_def Let_def)

lemma record_result_running: "tx_within (kept (running_inv gid ids)) (record_result cr jid aid r now later)"
  unfolding record_result_def bind_provider_ref_def reconcile_event_def
  by (intro kept.within_intros reduce_any_running bind_attempt_ref_running running.append_event_within
      provider_event_tables [THEN same_tables_running] reading_tables [THEN same_tables_running]) simp_all

lemma running_inv_subset: "running_inv gid ids s \<Longrightarrow> jid \<in> ids \<Longrightarrow> running_inv gid {jid} s"
  by (auto simp: running_inv_def running_def)

lemma claim_running:
  assumes "jid \<in> ids"
  shows "tx_within (kept (running_inv gid ids)) (claim_body cr jid gref tr now)"
  unfolding claim_body_def provider_key_collides_def
  by (intro kept.within_intros within_case_disposition reduce_running_kept attempt_columns_running)
    (simp_all add: assms)

lemma case_claim:
  assumes "io_within R a" "io_within R b" "io_within R c" "\<And>d aid. io_within R (e d aid)"
  shows "io_within R (case x of Not_claimed \<Rightarrow> a | Claim_skipped \<Rightarrow> b | Claim_collision \<Rightarrow> c | Claimed d aid \<Rightarrow> e d aid)"
  using assms by (cases x) simp_all

lemma run_job_running:
  assumes "fst job \<in> ids"
  shows "io_within (w_kept (db_inv (running_inv gid ids))) (run_job cr en gref job)"
  unfolding run_job_def claim_io_def deliver_claimed_def
  by (intro w_kept.io_intros case_claim db_inv_tx write_tx_kept claim_running [OF assms] record_result_running
      db_inv_now db_inv_deliver state_unchanged_kept) simp_all

text \<open>What a run of \<open>execute\<close> does: nothing, or the loop over the pending jobs of the generation its
  sending campaign points at.\<close>

lemma io_bind_run: "io_bind m f w = (case m w of (Inl e, w1) \<Rightarrow> (Inl e, w1) | (Inr x, w1) \<Rightarrow> f x w1)"
  by (simp add: io_bind_def)

lemma execute_cases:
  assumes "execute cr en lease cmp w = (r, w')"
  shows "w' = w \<or> (\<exists>c gid gref r'. c \<in> set (campaigns (w_db w)) \<and> cmp_lifecycle c = LC_SENDING
      \<and> cmp_generation_id c = Some gid \<and> lease \<and> \<not> is_degraded (w_db w)
      \<and> io_each (run_job cr en gref) (pending_jobs gid (w_db w)) w = (r', w'))"
proof (cases "lease \<and> \<not> is_degraded (w_db w)")
  case False
  with assms show ?thesis
    by (auto simp: execute_def io_then_def io_bind_run require_lease_def io_raise_def io_return_def io_db_def
        require_not_degraded_def split: if_splits)
next
  case True
  then have e: "execute cr en lease cmp w = io_bind (io_db (load cmp)) (\<lambda>c.
      case cmp_generation_id c of
        None \<Rightarrow> io_return (report_of [])
      | Some gid \<Rightarrow>
          if cmp_lifecycle c \<noteq> LC_SENDING then io_return (report_of [])
          else
          io_bind (io_db (tx_reads (pending_jobs gid))) (\<lambda>pending.
          if \<not> snd ` set pending \<subseteq> fst ` set (en_transports en)
          then io_raise (LifecycleError ''transport unavailable'')
          else
          io_bind (io_db (tx_bind (tx_reads (find_generation gid)) (tx_the no_row))) (\<lambda>g.
          io_bind (io_each (run_job cr en (gen_ref g)) pending) (\<lambda>rs. io_return (report_of rs))))) w"
    by (simp add: execute_def io_then_def io_bind_run require_lease_def io_return_def io_db_def
        require_not_degraded_def)
  show ?thesis
  proof (cases "load cmp (w_db w)")
    case (Inl x)
    with assms e show ?thesis by (simp add: io_bind_run io_db_def)
  next
    case (Inr p)
    then obtain c where l: "load cmp (w_db w) = Inr (c, w_db w)" using load_state by (cases p) fastforce
    note c = load_found [OF l]
    show ?thesis
    proof (cases "cmp_lifecycle c = LC_SENDING \<and> cmp_generation_id c \<noteq> None")
      case False
      with assms e l show ?thesis
        by (auto simp: io_bind_run io_db_def io_return_def split: option.splits if_splits)
    next
      case True
      then obtain gid where "cmp_generation_id c = Some gid" "cmp_lifecycle c = LC_SENDING" by auto
      with assms e l c \<open>lease \<and> \<not> is_degraded (w_db w)\<close> show ?thesis
        by (auto simp: io_bind_run io_db_def io_return_def io_raise_def tx_bind_def tx_the_def
            split: option.splits if_splits prod.splits sum.splits)
    qed
  qed
qed

lemma pending_jobs_mem:
  "(jid, tr) \<in> set (pending_jobs gid s) \<longleftrightarrow> (\<exists>j\<in>set (delivery_jobs s). job_id j = jid \<and> job_transport j = tr
     \<and> job_generation_id j = gid \<and> job_state j = PENDING)"
  by (auto simp: pending_jobs_def jobs_of_def image_iff)

lemma pending_running:
  assumes "system_inv s" "c \<in> set (campaigns s)" "cmp_lifecycle c = LC_SENDING" "cmp_generation_id c = Some gid"
  shows "running_inv gid (fst ` set (pending_jobs gid s)) s"
proof -
  have "\<forall>d\<in>set (campaigns s). cmp_generation_id d = Some gid \<longrightarrow> cmp_lifecycle d \<in> {LC_SENDING, LC_COMPLETE}"
    using generation_unique [OF assms(1,2) _ assms(4)] assms(3) by blast
  moreover have "job_generation_id j = gid"
    if "j \<in> set (delivery_jobs s)" "job_id j \<in> fst ` set (pending_jobs gid s)" for j
  proof -
    from that(2) obtain k where k: "k \<in> set (delivery_jobs s)" "job_id k = job_id j" "job_generation_id k = gid"
      by (auto simp: pending_jobs_mem)
    have "distinct (map job_id (delivery_jobs s))" using assms(1) by (simp add: system_inv_def tables_ok_ids)
    with k that(1) have "k = j" by (auto simp: distinct_map dest: inj_onD)
    with k(3) show ?thesis by simp
  qed
  ultimately show ?thesis using assms(1) by (simp add: running_inv_def running_def)
qed

lemma execute_keeps: "io_within (w_kept (db_inv system_inv)) (execute cr en lease cmp)"
proof (rule io_withinI)
  fix w r w' assume run: "execute cr en lease cmp w = (r, w')"
  show "w_kept (db_inv system_inv) w w'"
    unfolding w_kept_def db_inv_def
  proof
    assume inv: "system_inv (w_db w)"
    from execute_cases [OF run] show "system_inv (w_db w')"
    proof
      assume "w' = w" with inv show ?thesis by simp
    next
      assume "\<exists>c gid gref r'. c \<in> set (campaigns (w_db w)) \<and> cmp_lifecycle c = LC_SENDING
        \<and> cmp_generation_id c = Some gid \<and> lease \<and> \<not> is_degraded (w_db w)
        \<and> io_each (run_job cr en gref) (pending_jobs gid (w_db w)) w = (r', w')"
      then obtain c gid gref r' where c: "c \<in> set (campaigns (w_db w))" "cmp_lifecycle c = LC_SENDING"
          "cmp_generation_id c = Some gid"
        and loop: "io_each (run_job cr en gref) (pending_jobs gid (w_db w)) w = (r', w')" by blast
      let ?ids = "fst ` set (pending_jobs gid (w_db w))"
      have "io_within (w_kept (db_inv (running_inv gid ?ids))) (io_each (run_job cr en gref) (pending_jobs gid (w_db w)))"
        by (rule w_kept.io_each) (rule run_job_running, simp)
      from io_withinD [OF this loop] pending_running [OF inv c] show ?thesis
        by (simp add: w_kept_def db_inv_def running_inv_def)
    qed
  qed
qed

lemma recover_keeps: "io_within (w_kept (db_inv system_inv)) (recover cr lease now)"
  unfolding recover_def
  by (intro w_kept.io_intros w_kept.io_each db_inv_tx write_tx_kept recover_campaign_kept) simp

lemma iso_kept: "tx_within (kept I) (tx_lift r)"
  by (rule kept.within_lift)

lemma run_due_keeps: "io_within (w_kept (db_inv system_inv)) (run_due cr en lease now)"
  unfolding run_due_def
  by (intro w_kept.io_intros w_kept.io_each db_inv_tx write_tx_kept start_due_kept execute_keeps
      state_unchanged_kept iso_kept) simp

section \<open>The delivery log\<close>

text \<open>The attempts there are, by job and number, and the refs of the jobs: what a run may only add to.\<close>

definition attempt_marks :: "comms_db \<Rightarrow> (nat \<times> nat) set" where
  "attempt_marks s = (\<lambda>a. (att_job_id a, att_no a)) ` set (delivery_attempts s)"

definition job_names :: "comms_db \<Rightarrow> (nat \<times> string) list" where
  "job_names s = map (\<lambda>j. (job_id j, job_ref j)) (delivery_jobs s)"

definition log_grows :: "comms_db \<Rightarrow> comms_db \<Rightarrow> bool" where
  "log_grows s t \<longleftrightarrow> (tables_ok s \<longrightarrow>
     tables_ok t \<and> set (job_names s) \<subseteq> set (job_names t) \<and> attempt_marks s \<subseteq> attempt_marks t)"

lemma log_grows_same_tables: "same_tables s t \<Longrightarrow> log_grows s t"
  by (simp add: log_grows_def tables_ok_def same_tables_def job_names_def attempt_marks_def)

interpretation log_grows: journal_client log_grows
proof unfold_locales
  show "log_grows s s" for s by (simp add: log_grows_same_tables)
  show "log_grows s t \<Longrightarrow> log_grows t u \<Longrightarrow> log_grows s u" for s t u by (auto simp: log_grows_def)
qed (rule log_grows_same_tables, simp add: same_tables_def)+

lemma same_tables_log: "tx_within same_tables m \<Longrightarrow> tx_within log_grows m"
  by (auto simp: tx_within_def intro: log_grows_same_tables)

lemma attempt_marks_keys: "attempt_marks s = set (map snd (attempt_keys s))"
  by (simp add: attempt_marks_def attempt_keys_def)

lemma reduce_log: "tx_within log_grows (reduce cr jid aid ev v now cap)"
proof (rule tx_withinI)
  fix s t u assume run: "reduce cr jid aid ev v now cap s = Inr (t, u)"
  show "log_grows s u"
    unfolding log_grows_def
  proof
    assume tab: "tables_ok s"
    obtain j where e: "delivery_jobs u = job_after jid ev t (delivery_jobs s)"
      "attempt_keys u = keys_after j ev t (attempt_keys s)"
      by (rule reduce_effect [OF tables_ok_ids [OF tab] run]) blast
    have "job_names u = job_names s"
      by (simp add: job_names_def e(1) job_after_def put_job_state_def)
    moreover have "attempt_marks s \<subseteq> attempt_marks u"
      unfolding attempt_marks_keys e(2) by (auto simp: keys_after_def)
    ultimately show "tables_ok u \<and> set (job_names s) \<subseteq> set (job_names u) \<and> attempt_marks s \<subseteq> attempt_marks u"
      using reduce_tables_ok [OF tab run] by simp
  qed
qed

lemma attempt_columns_log:
  "tx_within log_grows (set_request_key aid key actor)" "tx_within log_grows (set_outcome_code aid code)"
  "tx_within log_grows (bind_attempt_ref aid ref)"
proof -
  have v: "log_grows s (s\<lparr>delivery_attempts := atts\<rparr>)"
    if "map attempt_view atts = map attempt_view (delivery_attempts s)" for s atts
  proof -
    have "map (\<lambda>a. (att_job_id a, att_no a)) atts = map (\<lambda>a. (att_job_id a, att_no a)) (delivery_attempts s)"
      by (rule same_view(1) [OF that, of _ "\<lambda>(_, j, n, _). (j, n)"]) (simp add: attempt_view_def)
    from arg_cong [OF this, of set] attempts_inv_view [OF that] show ?thesis
      by (simp add: log_grows_def tables_ok_def job_names_def attempt_marks_def)
  qed
  show "tx_within log_grows (set_request_key aid key actor)" "tx_within log_grows (set_outcome_code aid code)"
    "tx_within log_grows (bind_attempt_ref aid ref)"
    by (rule tx_withinI, auto simp: set_request_key_def set_outcome_code_def bind_attempt_ref_def violates_def
        Let_def attempt_view_def intro!: v split: if_splits)+
qed

lemma record_result_log: "tx_within log_grows (record_result cr jid aid r now later)"
  unfolding record_result_def bind_provider_ref_def reconcile_event_def
  by (intro log_grows.within_intros reduce_log attempt_columns_log log_grows.append_event_within
      provider_event_tables [THEN same_tables_log] reading_tables [THEN same_tables_log])

lemma claim_body_log: "tx_within log_grows (claim_body cr jid gref tr now)"
  unfolding claim_body_def provider_key_collides_def
  by (intro log_grows.within_intros within_case_disposition reduce_log attempt_columns_log)

text \<open>A delivery handed out by a claim names an attempt that did not exist before and does now.\<close>

lemma provider_key_collides_marks:
  "provider_key_collides tr jid aid key s = Inr (b, u) \<Longrightarrow> attempt_keys u = attempt_keys s"
  by (auto simp: provider_key_collides_def tx_inr set_request_key_def violates_def attempt_keys_def
      split: option.splits if_splits)

lemma case_applied:
  "(case d of Applied \<Rightarrow> P | Recorded \<Rightarrow> Q | Refused \<Rightarrow> Q | Pending_match \<Rightarrow> Q) = (if d = Applied then P else Q)"
  by (cases d) simp_all

lemma claimed_delivery:
  assumes run: "claim_body cr jid gref tr now s = Inr (Claimed d aid, u)" and tab: "tables_ok s"
  shows "(jid, fd_job_ref d) \<in> set (job_names s)" "(jid, fd_attempt_no d) \<notin> attempt_marks s"
    "(jid, fd_attempt_no d) \<in> attempt_marks u"
proof -
  note dist = tables_ok_ids [OF tab]
  from run obtain j t s1 where j: "find_job jid s = Some j" "fd_job_ref d = job_ref j"
      "fd_attempt_no d = Suc (job_attempt_count j)"
    and t: "reduce cr jid None CLAIM None now 5 s = Inr (t, s1)" "t_disposition t = Applied"
    and u: "provider_key_collides tr jid aid (job_key j) s1 = Inr (False, u)"
    by (auto simp: claim_body_def tx_inr case_applied split: if_splits option.splits)
  have mem: "j \<in> set (delivery_jobs s)" "job_id j = jid" using find_job_mem [OF j(1)] by auto
  then show "(jid, fd_job_ref d) \<in> set (job_names s)" by (auto simp: job_names_def j(2))
  obtain a where a: "delivery_attempts s1 = delivery_attempts s @ [a]" "att_job_id a = jid"
      "att_no a = Suc (job_attempt_count j)"
    using claim_effect [OF dist t] j(1) by auto
  show "(jid, fd_attempt_no d) \<in> attempt_marks u"
    unfolding attempt_marks_keys provider_key_collides_marks [OF u] using a j(3) by (simp add: attempt_keys_def)
  show "(jid, fd_attempt_no d) \<notin> attempt_marks s"
  proof
    assume "(jid, fd_attempt_no d) \<in> attempt_marks s"
    then obtain b where b: "b \<in> set (delivery_attempts s)" "att_job_id b = jid" "att_no b = Suc (job_attempt_count j)"
      using j(3) by (auto simp: attempt_marks_def)
    then obtain k where k: "k \<in> set (delivery_jobs s)" "job_id k = jid" "att_no b \<le> job_attempt_count k"
      using tab by (auto simp: tables_ok_def attempts_inv_def attempt_fits_def list_all_iff)
    have "k = j" using dist k mem by (auto simp: distinct_map dest: inj_onD)
    with k(3) b(3) show False by simp
  qed
qed

text \<open>The log: the attempts \<open>deliver\<close> was called for are distinct and committed.\<close>

definition call_marks :: "world \<Rightarrow> (string \<times> nat) list" where
  "call_marks w = map (\<lambda>d. (fd_job_ref d, fd_attempt_no d)) (w_calls w)"

definition log_inv :: "world \<Rightarrow> bool" where
  "log_inv w \<longleftrightarrow> tables_ok (w_db w) \<and> distinct (call_marks w)
     \<and> (\<forall>(ref, n)\<in>set (call_marks w). \<exists>jid. (jid, ref) \<in> set (job_names (w_db w)) \<and> (jid, n) \<in> attempt_marks (w_db w))"

lemma log_inv_tx:
  assumes "tx_within log_grows m"
  shows "io_within (w_kept log_inv) (io_db (write_tx m))"
proof (rule w_kept.io_db)
  fix w :: world and x t assume "write_tx m (w_db w) = Inr (x, t)"
  then obtain t' where t': "m ((w_db w)\<lparr>in_transaction := True\<rparr>) = Inr (x, t')" "t = t'\<lparr>in_transaction := False\<rparr>"
    by (auto simp: write_tx_def split: if_splits sum.splits)
  have "log_grows (w_db w) t"
    using tx_withinD [OF assms t'(1)] unfolding t'(2) log_grows_def
    by (simp add: tables_ok_def job_names_def attempt_marks_def)
  then show "w_kept log_inv w (w\<lparr>w_db := t\<rparr>)"
    by (force simp: w_kept_def log_inv_def log_grows_def call_marks_def)
qed

lemma log_inv_now: "io_within (w_kept log_inv) (now_io en)"
  by (rule io_withinI) (auto simp: w_kept_def log_inv_def call_marks_def now_io_def split: sum.splits)

lemma log_inv_reading:
  "io_within (w_kept log_inv) (io_db (load cmp))" "io_within (w_kept log_inv) (io_db io_guard)"
  "io_within (w_kept log_inv) (io_db require_not_degraded)"
  by (rule w_kept.io_db, auto simp: w_kept_def io_guard_def require_not_degraded_def dest!: load_state
      split: if_splits)+

text \<open>The part of one job's run after the claim.\<close>

lemma deliver_log:
  assumes "deliver_io tr d w = (r, w')" "log_inv w"
    "(jid, fd_job_ref d) \<in> set (job_names (w_db w))" "(jid, fd_attempt_no d) \<in> attempt_marks (w_db w)"
    "(fd_job_ref d, fd_attempt_no d) \<notin> set (call_marks w)"
  shows "log_inv w'"
proof -
  have "w' = w\<lparr>w_calls := w_calls w @ [d]\<rparr>" using assms(1) by (simp add: deliver_io_def Let_def)
  with assms(2-5) show ?thesis by (auto simp: log_inv_def call_marks_def)
qed

lemma deliver_claimed_log:
  assumes run: "deliver_claimed cr en tr jid d aid w = (r, w')" and inv: "log_inv w"
    and d: "(jid, fd_job_ref d) \<in> set (job_names (w_db w))" "(jid, fd_attempt_no d) \<in> attempt_marks (w_db w)"
      "(fd_job_ref d, fd_attempt_no d) \<notin> set (call_marks w)"
  shows "log_inv w'"
proof (cases "en_crash_at en = Some ''after_claim'' \<or> en_crash_at en = Some ''during_deliver'' \<or> in_transaction (w_db w)")
  case True
  with run inv show ?thesis
    by (auto simp: deliver_claimed_def io_then_def io_bind_run crash_io_def io_raise_def io_return_def io_db_def
        io_guard_def split: if_splits)
next
  case False
  obtain x w1 where x: "deliver_io tr d w = (Inr x, w1)" by (simp add: deliver_io_def Let_def)
  have w1: "log_inv w1" by (rule deliver_log [OF x inv d])
  define tail where "tail = io_then (crash_io en ''after_deliver_before_record'')
      (io_bind (now_io en) (\<lambda>now.
       io_bind (if dr_message_ref x \<noteq> None \<and> dr_message_ref x \<noteq> Some []
                then now_io en else io_return now) (\<lambda>later.
       io_then (io_db (write_tx (record_result cr jid aid x now later)))
       (io_return (Run_outcome True (dr_kind x))))))"
  have "tail w1 = (r, w')"
    using run False x
    by (simp add: deliver_claimed_def io_then_def io_bind_run crash_io_def io_return_def io_db_def io_guard_def
        tail_def)
  moreover have "io_within (w_kept log_inv) tail"
    unfolding tail_def by (intro w_kept.io_intros log_inv_now log_inv_tx record_result_log)
  ultimately show ?thesis using w1 by (auto dest: io_withinD simp: w_kept_def)
qed

lemma claim_io_log: "io_within (w_kept log_inv) (claim_io cr en jid gref tr)"
  unfolding claim_io_def by (intro w_kept.io_intros log_inv_now log_inv_tx claim_body_log)

lemma claim_io_claimed:
  assumes "claim_io cr en jid gref tr w = (Inr (Claimed d aid), w1)" "log_inv w"
  shows "(jid, fd_job_ref d) \<in> set (job_names (w_db w1))" "(jid, fd_attempt_no d) \<in> attempt_marks (w_db w1)"
    "(fd_job_ref d, fd_attempt_no d) \<notin> set (call_marks w1)"
proof -
  define s where "s = (w_db w)\<lparr>in_transaction := True\<rparr>"
  from assms(1) obtain now t where run: "claim_body cr jid gref tr now s = Inr (Claimed d aid, t)"
    and w1: "w_db w1 = t\<lparr>in_transaction := False\<rparr>" "w_calls w1 = w_calls w"
    unfolding s_def
    by (auto simp: claim_io_def io_bind_run now_io_def io_db_def write_tx_def split: sum.splits if_splits)
  have tab: "tables_ok s" using assms(2) by (simp add: s_def log_inv_def tables_ok_def)
  note d = claimed_delivery [OF run tab]
  have grows: "log_grows s t" by (rule tx_withinD [OF claim_body_log run])
  with tab d(1) show "(jid, fd_job_ref d) \<in> set (job_names (w_db w1))"
    by (auto simp: w1 log_grows_def job_names_def)
  show "(jid, fd_attempt_no d) \<in> attempt_marks (w_db w1)" using d(3) by (simp add: w1 attempt_marks_def)
  show "(fd_job_ref d, fd_attempt_no d) \<notin> set (call_marks w1)"
  proof
    assume "(fd_job_ref d, fd_attempt_no d) \<in> set (call_marks w1)"
    then have "(fd_job_ref d, fd_attempt_no d) \<in> set (call_marks w)" by (simp add: call_marks_def w1)
    with assms(2) obtain k where k: "(k, fd_job_ref d) \<in> set (job_names (w_db w))" "(k, fd_attempt_no d) \<in> attempt_marks (w_db w)"
      by (force simp: log_inv_def)
    have "(jid, fd_job_ref d) \<in> set (job_names (w_db w))" using d(1) by (simp add: s_def job_names_def)
    moreover have "distinct (map snd (job_names (w_db w)))"
      using assms(2) by (simp add: log_inv_def tables_ok_def job_names_def comp_def)
    then have "inj_on snd (set (job_names (w_db w)))" by (simp add: distinct_map)
    ultimately have "k = jid" using inj_onD [of snd _ "(k, fd_job_ref d)" "(jid, fd_job_ref d)"] k(1) by simp
    with k(2) d(2) show False by (simp add: s_def attempt_marks_def)
  qed
qed

lemma run_job_log: "io_within (w_kept log_inv) (run_job cr en gref job)"
proof (rule io_withinI)
  fix w r w' assume run: "run_job cr en gref job w = (r, w')"
  show "w_kept log_inv w w'"
    unfolding w_kept_def
  proof
    assume inv: "log_inv w"
    show "log_inv w'"
    proof (cases "map_of (en_transports en) (snd job)")
      case None
      with run inv show ?thesis by (simp add: run_job_def io_raise_def)
    next
      case (Some tr)
      obtain x w1 where x: "claim_io cr en (fst job) gref tr w = (x, w1)" by fastforce
      have w1: "log_inv w1" using io_withinD [OF claim_io_log x] inv by (simp add: w_kept_def)
      show ?thesis
      proof (cases "\<exists>d aid. x = Inr (Claimed d aid)")
        case True
        then obtain d aid where x': "x = Inr (Claimed d aid)" by blast
        with run Some x have "deliver_claimed cr en tr (fst job) d aid w1 = (r, w')"
          by (simp add: run_job_def io_bind_run)
        from deliver_claimed_log [OF this w1 claim_io_claimed [OF x [unfolded x'] inv]] show ?thesis .
      next
        case False
        with run Some x have "w' = w1"
          by (auto simp: run_job_def io_bind_run io_return_def split: sum.splits claim_outcome.splits)
        with w1 show ?thesis by simp
      qed
    qed
  qed
qed

lemma execute_log: "io_within (w_kept log_inv) (execute cr en lease cmp)"
proof (rule io_withinI)
  fix w r w' assume run: "execute cr en lease cmp w = (r, w')"
  have loop: "io_within (w_kept log_inv) (io_each (run_job cr en gref) js)" for gref js
    by (rule w_kept.io_each) (rule run_job_log)
  from execute_cases [OF run] show "w_kept log_inv w w'"
    using io_withinD [OF loop] w_kept.R_refl by blast
qed

text \<open>The operations only add to the log.\<close>

lemma update_campaigns_log:
  assumes "\<And>c. cmp_id (f c) = cmp_id c"
  shows "tx_within log_grows (update_campaigns p f)"
  using assms
  by (intro tx_withinI) (auto simp: update_campaigns_Inr log_grows_def tables_ok_def job_names_def attempt_marks_def)

lemma set_generation_log:
  assumes "\<And>c. cmp_id (f c) = cmp_id c"
  shows "tx_within log_grows (set_generation cid g f)"
proof (rule tx_withinI)
  fix s n u assume "set_generation cid g f s = Inr (n, u)"
  then have "update_campaigns (\<lambda>c. cmp_id c = cid) (\<lambda>c. f (c\<lparr>cmp_generation_id := g\<rparr>)) s = Inr (n, u)"
    by (auto simp: set_generation_def violates_def split: if_splits)
  then show "log_grows s u" by (rule tx_withinD [OF update_campaigns_log, rotated]) (simp add: assms)
qed

lemma discard_generation_log: "tx_within log_grows (discard_generation gid)"
proof (rule tx_withinI)
  fix s x u assume "discard_generation gid s = Inr (x, u)"
  then have "u = s\<lparr>generations := update_where (\<lambda>g. gen_id g = gid) (\<lambda>g. g\<lparr>gen_status := GEN_DISCARDED\<rparr>) (generations s)\<rparr>"
    by (auto simp: discard_generation_def violates_def split: if_splits)
  then show "log_grows s u"
    by (simp add: log_grows_def tables_ok_def job_names_def attempt_marks_def list_ex_key)
qed

lemma reduce_all_log: "tx_within log_grows (reduce_all cr ev now cap ids)"
  unfolding reduce_all_def by (intro log_grows.within_intros reduce_log)

lemma journal_log: "tx_within log_grows (journal cr ty cmp lc now)"
  unfolding journal_def by (intro log_grows.within_intros log_grows.append_event_within)

lemmas log_intros = log_grows.within_intros reading_tables [THEN same_tables_log]
  provider_event_tables [THEN same_tables_log] log_grows.append_event_within log_grows.mint_within
  update_campaigns_log set_generation_log discard_generation_log reduce_log reduce_all_log attempt_columns_log
  journal_log

lemma insert_campaign_log:
  assumes "insert_campaign c s = Inr (x, u)" "cmp_id c = next_id cmp_id (campaigns s)"
  shows "log_grows s u"
proof -
  have "u = s\<lparr>campaigns := campaigns s @ [c]\<rparr>"
    using assms(1) by (auto simp: insert_campaign_def violates_def split: if_splits)
  moreover have "cmp_id c \<notin> cmp_id ` set (campaigns s)" by (simp add: assms(2) next_id_fresh)
  ultimately show ?thesis
    by (simp add: log_grows_def tables_ok_def job_names_def attempt_marks_def subset_insertI2)
qed

lemma create_campaign_log: "tx_within log_grows (create_campaign_in_tx cr title now)"
proof (rule tx_withinI)
  fix s x u assume "create_campaign_in_tx cr title now s = Inr (x, u)"
  then obtain ref stamp s1 s2 where m: "mint_ref ''campaign'' s = Inr (ref, s1)"
    and ins: "insert_campaign
        \<lparr>cmp_id = next_id cmp_id (campaigns s1), cmp_ref = ref, cmp_title = title, cmp_lifecycle = LC_DRAFT,
         cmp_content = JObj [], cmp_targets = map (\<lambda>k. (k, [])) TARGET_KEYS, cmp_transports = [],
         cmp_summary = None, cmp_generation_id = None, cmp_created_at = stamp,
         cmp_updated_at = stamp\<rparr> s1 = Inr ((), s2)"
    and u: "log_grows s2 u"
    by (auto simp: create_campaign_in_tx_def tx_inr dest!: require_tx_state dest: tx_withinD [OF journal_log])
  have "log_grows s s2"
    by (rule log_grows.R_trans [OF tx_withinD [OF log_grows.mint_within m] insert_campaign_log [OF ins]]) simp
  then show "log_grows s u" using u by (rule log_grows.R_trans)
qed

lemma drafts_log:
  "tx_within log_grows (set_content_in_tx cr cmp canonical fa en links media now)"
  "tx_within log_grows (set_targets_in_tx cr cmp tg transports now)"
  "tx_within log_grows (validate_in_tx cr cmp now)" "tx_within log_grows (edit_in_tx cr cmp now)"
  unfolding set_content_in_tx_def set_targets_in_tx_def validate_in_tx_def edit_in_tx_def set_column_def
    require_lifecycle_def
  by (intro log_intros; simp)+

lemma retire_scheduled_log: "tx_within log_grows (retire_scheduled cr c now)"
  unfolding retire_scheduled_def by (intro log_intros) simp

lemma operations_log:
  "tx_within log_grows (cancel_sending_in_tx cr cmp now)" "tx_within log_grows (retry_failed_in_tx cr cmp now cap)"
  "tx_within log_grows (resolve_outcome_in_tx cr jref verdict now)" "tx_within log_grows (unschedule_in_tx cr cmp now)"
  unfolding cancel_sending_in_tx_def retry_failed_in_tx_def resolve_outcome_in_tx_def unschedule_in_tx_def
    reopen_if_complete_def
  by (intro log_intros retire_scheduled_log; simp)+

lemma cancel_log: "tx_within log_grows (cancel_in_tx cr cmp now)"
  unfolding cancel_in_tx_def by (intro log_intros operations_log retire_scheduled_log) simp

lemma apply_provider_update_log:
  "tx_within log_grows (apply_provider_update cr transport eref mref status now)"
proof -
  have "tx_within log_grows (fresh_update cr transport eref mref status stamp now matches)" for stamp matches
    unfolding fresh_update_def new_provider_event_def refusal_event_def
    by (cases matches rule: list.exhaust [case_names Nil Cons]; simp split: list.splits prod.splits;
        intro conjI impI allI log_intros)
  then show ?thesis
    unfolding apply_provider_update_def duplicate_update_def refusal_event_def by (intro log_intros)
qed

lemma start_due_log: "tx_within log_grows (start_due cr stamp now cmp)"
  unfolding start_due_def by (intro log_intros) simp

lemma refresh_and_complete_log:
  "tx_within log_grows (refresh_summary cr cid now)" "tx_within log_grows (complete_if_idle cr cid now)"
proof -
  have "log_grows s u" if "settles cid s u" for s u
    using settles_tables_ok [OF that] settles_fields [OF that]
    by (simp add: log_grows_def job_names_def attempt_marks_def)
  then show "tx_within log_grows (refresh_summary cr cid now)" "tx_within log_grows (complete_if_idle cr cid now)"
    by (auto simp: tx_within_def dest: refresh_summary_settles complete_if_idle_settles)
qed

lemma recover_campaign_log: "tx_within log_grows (recover_campaign cr now cid)"
  unfolding recover_campaign_def by (intro log_intros refresh_and_complete_log)

text \<open>Freezing adds a generation and its jobs.\<close>

lemma insert_generation_log: "tx_within log_grows (insert_generation g)"
proof (rule tx_withinI)
  fix s x u assume "insert_generation g s = Inr (x, u)"
  then have "u = s\<lparr>generations := generations s @ [g]\<rparr>" "gen_campaign_id g \<in> cmp_id ` set (campaigns s)"
    by (auto simp: insert_generation_def violates_def split: if_splits)
  then show "log_grows s u"
    by (simp add: log_grows_def tables_ok_def job_names_def attempt_marks_def list_all_iff)
qed

lemma insert_planned_log:
  assumes "insert_planned gid p s = Inr (x, u)"
  shows "log_grows s u"
proof -
  from assms obtain j s1 ys where j: "insert_job j s = Inr ((), s1)" "job_id j = next_id job_id (delivery_jobs s)"
      "job_generation_id j = gid" "job_attempt_count j = 0" "job_state j = planned_state p"
    and og: "tx_each (\<lambda>og. insert_origin \<lparr>org_job_id = job_id j, org_endpoint_ref = o_endpoint_ref og, org_path = o_path og\<rparr>)
        (c_origins (pl_candidate p)) s1 = Inr (ys, u)"
    by (fastforce simp: insert_planned_def tx_inr)
  have s1: "s1 = s\<lparr>delivery_jobs := delivery_jobs s @ [j]\<rparr>"
    and ref: "job_ref j \<notin> job_ref ` set (delivery_jobs s)" "gid \<in> gen_id ` set (generations s)"
    using j(1,3) by (auto simp: insert_job_def violates_def split: if_splits)
  have "attempts_inv (delivery_jobs s @ [j]) (delivery_attempts s)"
    if "attempts_inv (delivery_jobs s) (delivery_attempts s)"
    using attempts_inv_new_job [OF that] j next_id_fresh [of job_id "delivery_jobs s"] by (simp add: planned_state_def)
  then have "log_grows s s1"
    using ref j(3) by (auto simp: log_grows_def s1 tables_ok_def job_names_def attempt_marks_def list_ex_key)
  moreover have "log_grows s1 u"
    by (rule log_grows_same_tables [OF tx_withinD [OF tables.within_each [OF insert_origin_tables] og]])
  ultimately show ?thesis by (rule log_grows.R_trans)
qed

lemma store_generation_log:
  "tx_within log_grows (store_generation cr c gen stamp at digest commitment audited lc pls)"
proof -
  have "tx_within log_grows (insert_planned gid p)" for gid p
    by (rule tx_withinI) (rule insert_planned_log)
  then show ?thesis
    unfolding store_generation_def by (intro log_intros insert_generation_log) simp_all
qed

lemma freeze_log: "tx_within log_grows (freeze_in_tx cr cmp trs now send_at lc audited audit)"
  unfolding freeze_in_tx_def
  by (intro log_intros store_generation_log plan_job_tables [THEN same_tables_log])

lemma run_due_log: "io_within (w_kept log_inv) (run_due cr en lease now)"
proof -
  have "io_within (w_kept log_inv) (io_db (tx_lift r))" for r :: "'a res"
    by (rule w_kept.io_db) (auto simp: w_kept_def tx_inr)
  then show ?thesis
    unfolding run_due_def
    by (intro w_kept.io_intros w_kept.io_each log_inv_tx log_inv_reading start_due_log execute_log)
qed

lemma recover_log: "io_within (w_kept log_inv) (recover cr lease now)"
  unfolding recover_def
  by (intro w_kept.io_intros w_kept.io_each log_inv_tx recover_campaign_log)

end
