(* ===== verification/Comms_Recovery.thy ===== *)
theory Comms_Recovery
  imports Comms_World
begin

text \<open>
  Startup recovery (\<open>core/delivery/recovery.py\<close>) resolves every job that a crash left in flight:
  each becomes an unknown outcome, and nothing else changes its state.
\<close>

section \<open>Jobs in flight\<close>

definition in_flight :: "comms_db \<Rightarrow> nat set" where
  "in_flight s = job_id ` {j \<in> set (delivery_jobs s). job_state j = IN_FLIGHT}"

lemma in_flight_iff: "x \<in> in_flight s \<longleftrightarrow> (\<exists>j\<in>set (delivery_jobs s). job_id j = x \<and> job_state j = IN_FLIGHT)"
  by (auto simp: in_flight_def)

lemma in_flight_mem:
  assumes "distinct (map job_id (delivery_jobs s))" "j \<in> set (delivery_jobs s)"
  shows "job_id j \<in> in_flight s \<longleftrightarrow> job_state j = IN_FLIGHT"
proof -
  have "k = j" if "k \<in> set (delivery_jobs s)" "job_id k = job_id j" for k
    using assms that by (auto simp: distinct_map dest: inj_onD)
  with assms(2) show ?thesis unfolding in_flight_iff by metis
qed

lemma put_job_state_in_flight:
  assumes "st \<noteq> IN_FLIGHT" "delivery_jobs u = put_job_state jid st k (delivery_jobs s)"
  shows "in_flight u = in_flight s - {jid}"
proof (rule set_eqI)
  fix x
  have "x \<in> in_flight u \<longleftrightarrow> (\<exists>j\<in>set (delivery_jobs s). job_id j = x \<and> job_state j = IN_FLIGHT \<and> job_id j \<noteq> jid)"
    unfolding in_flight_iff assms(2) put_job_state_def set_update_where bex_simps
    using assms(1) by (intro bex_cong) (simp_all split: if_split)
  then show "x \<in> in_flight u \<longleftrightarrow> x \<in> in_flight s - {jid}"
    unfolding in_flight_iff Diff_iff singleton_iff by blast
qed

text \<open>The current attempt of a job in flight is there, so the evidence of a crash applies.\<close>

lemma current_attempt_found:
  assumes "attempts_inv (delivery_jobs s) (delivery_attempts s)" "j \<in> set (delivery_jobs s)" "job_attempt_count j \<noteq> 0"
  shows "\<exists>a. find (\<lambda>r. att_job_id r = job_id j \<and> att_no r = job_attempt_count j) (delivery_attempts s) = Some a"
proof -
  have "list_all (\<lambda>n. list_ex (\<lambda>a. att_job_id a = job_id j \<and> att_no a = n) (delivery_attempts s)) [1..<Suc (job_attempt_count j)]"
    using assms(1,2) by (simp add: attempts_inv_def list_all_iff del: upt_Suc)
  then have "list_ex (\<lambda>a. att_job_id a = job_id j \<and> att_no a = job_attempt_count j) (delivery_attempts s)"
    using assms(3) by (simp add: list_all_iff del: upt_Suc)
  then have "find (\<lambda>r. att_job_id r = job_id j \<and> att_no r = job_attempt_count j) (delivery_attempts s) \<noteq> None"
    by (auto simp: find_None_iff list_ex_iff)
  then show ?thesis by blast
qed

lemma recover_job:
  assumes tab: "tables_ok s" and run: "reduce cr jid None RECOVER None now cap s = Inr (t, u)"
  shows "in_flight u = in_flight s - {jid}"
    and "j \<in> set (delivery_jobs s) \<Longrightarrow> job_id j = jid \<Longrightarrow> job_state j = IN_FLIGHT \<Longrightarrow> t_disposition t = Applied"
proof -
  note dist = tables_ok_ids [OF tab]
  obtain j where j: "find_job jid s = Some j" by (rule reduce_effect [OF dist run]) blast
  have mem: "j \<in> set (delivery_jobs s)" "job_id j = jid" using find_job_mem [OF j] by auto
  have uniq: "k = j" if "k \<in> set (delivery_jobs s)" "job_id k = jid" for k
    using dist mem that by (auto simp: distinct_map dest: inj_onD)
  obtain att where att: "attempt_of j None RECOVER s = Inr (att, s)"
    and d: "t_disposition t = t_disposition (decide (job_state j) RECOVER None (is_current_attempt j att) (job_attempt_count j) cap)"
    using reduce_disposition [OF dist run j] by auto
  have app: "t_disposition t = Applied" if "job_state j = IN_FLIGHT"
  proof -
    have "job_attempt_count j \<noteq> 0" using tab mem that by (auto simp: tables_ok_def attempts_inv_def list_all_iff)
    then obtain a where a: "find (\<lambda>r. att_job_id r = job_id j \<and> att_no r = job_attempt_count j) (delivery_attempts s) = Some a"
      using current_attempt_found [of s j] tab mem by (auto simp: tables_ok_def)
    then have "att = Some a" using att \<open>job_attempt_count j \<noteq> 0\<close> by (simp add: attempt_of_def tx_inr)
    then have "is_current_attempt j att"
      using find_Some_iff_key [OF a] by (simp add: is_current_attempt_def)
    with d that show ?thesis by (simp add: decide_defs)
  qed
  show "k \<in> set (delivery_jobs s) \<Longrightarrow> job_id k = jid \<Longrightarrow> job_state k = IN_FLIGHT \<Longrightarrow> t_disposition t = Applied" for k
    using uniq app by blast
  show "in_flight u = in_flight s - {jid}"
  proof (cases "t_disposition t = Applied")
    case True
    obtain att' st where e: "delivery_jobs u = put_job_state jid st (claims_one RECOVER) (delivery_jobs s)"
        "new_state (decide (job_state j) RECOVER None (is_current_attempt j att') (job_attempt_count j) cap) = Some st"
      using reduce_applied [OF dist run j True] by blast
    then have "st \<noteq> IN_FLIGHT" by (auto simp: decide_defs split: if_splits)
    then show ?thesis by (rule put_job_state_in_flight [OF _ e(1)])
  next
    case False
    obtain "delivery_jobs u = job_after jid RECOVER t (delivery_jobs s)"
      by (rule reduce_effect [OF dist run]) blast
    with False have "in_flight u = in_flight s" by (simp add: in_flight_def job_after_def)
    moreover have "jid \<notin> in_flight s" using False app in_flight_mem [OF dist mem(1)] mem(2) by auto
    ultimately show ?thesis by simp
  qed
qed

text \<open>The jobs after recovery marked some of those in flight.\<close>

definition landed :: "nat set \<Rightarrow> job_row list \<Rightarrow> job_row list" where
  "landed ids = update_where (\<lambda>j. job_id j \<in> ids \<and> job_state j = IN_FLIGHT) (\<lambda>j. j\<lparr>job_state := OUTCOME_UNKNOWN\<rparr>)"

lemma landed_landed: "landed A (landed B jobs) = landed (A \<union> B) jobs"
  by (simp add: landed_def update_where_def)

lemma landed_empty [simp]: "landed {} jobs = jobs"
  by (simp add: landed_def update_where_def)

lemma recover_job_landed:
  assumes tab: "tables_ok s" and run: "reduce cr jid None RECOVER None now cap s = Inr (t, u)"
  shows "delivery_jobs u = landed {jid} (delivery_jobs s)"
proof -
  note dist = tables_ok_ids [OF tab]
  obtain j where j: "find_job jid s = Some j" by (rule reduce_effect [OF dist run]) blast
  have mem: "j \<in> set (delivery_jobs s)" "job_id j = jid" using find_job_mem [OF j] by auto
  have same: "landed {jid} (delivery_jobs s)
      = update_where (\<lambda>r. job_id r = job_id j \<and> job_state r = IN_FLIGHT) (\<lambda>r. r\<lparr>job_state := OUTCOME_UNKNOWN\<rparr>) (delivery_jobs s)"
    by (simp add: landed_def mem(2))
  show ?thesis
  proof (cases "t_disposition t = Applied")
    case True
    obtain att st where e: "delivery_jobs u = put_job_state jid st (claims_one RECOVER) (delivery_jobs s)"
        "t_disposition (decide (job_state j) RECOVER None (is_current_attempt j att) (job_attempt_count j) cap) = Applied"
        "new_state (decide (job_state j) RECOVER None (is_current_attempt j att) (job_attempt_count j) cap) = Some st"
      using reduce_applied [OF dist run j True] by blast
    then have "job_state j = IN_FLIGHT" "st = OUTCOME_UNKNOWN" by (auto simp: decide_defs split: if_splits)
    with e(1) mem(2) show ?thesis
      unfolding same update_where_unique_key [OF dist mem(1)] by (simp add: put_job_state_def claims_one_def)
  next
    case False
    obtain "delivery_jobs u = job_after jid RECOVER t (delivery_jobs s)"
      by (rule reduce_effect [OF dist run]) blast
    moreover have "job_state j \<noteq> IN_FLIGHT" using recover_job(2) [OF tab run mem] False by blast
    ultimately show ?thesis
      unfolding same update_where_unique_key [OF dist mem(1)] using False by (simp add: job_after_def)
  qed
qed

section \<open>One campaign\<close>

text \<open>What recovery leaves in place: the jobs and generations, by their keys.\<close>

definition job_gens :: "comms_db \<Rightarrow> (nat \<times> nat) list" where
  "job_gens s = map (\<lambda>j. (job_id j, job_generation_id j)) (delivery_jobs s)"

definition lands :: "comms_db \<Rightarrow> comms_db \<Rightarrow> bool" where
  "lands s t \<longleftrightarrow> (tables_ok s \<longrightarrow> tables_ok t \<and> in_flight t \<subseteq> in_flight s
     \<and> job_gens t = job_gens s \<and> generations t = generations s
     \<and> (\<exists>ids. delivery_jobs t = landed ids (delivery_jobs s)))"

lemma lands_same_tables: "same_tables s t \<Longrightarrow> lands s t"
  by (auto simp: lands_def tables_ok_def same_tables_def in_flight_def job_gens_def intro: exI [of _ "{}"])

interpretation lands: journal_client lands
proof unfold_locales
  show "lands s s" for s by (simp add: lands_same_tables)
  show "lands s t \<Longrightarrow> lands t u \<Longrightarrow> lands s u" for s t u
    unfolding lands_def using landed_landed by (auto simp: subset_iff)
qed (rule lands_same_tables, simp add: same_tables_def)+

lemma settles_lands: "settles cid s u \<Longrightarrow> lands s u"
  using settles_tables_ok [of cid s u] settles_fields [of cid s u]
  by (auto simp: lands_def in_flight_def job_gens_def intro: exI [of _ "{}"])

lemma reduce_lands: "tx_within lands (reduce cr jid None RECOVER None now cap)"
  by (rule tx_withinI)
    (auto simp: lands_def job_gens_def recover_job(1)
      intro: reduce_tables_ok reduce_generations(1,2) [OF tables_ok_ids] recover_job_landed)

lemma recover_jobs:
  "tx_each (\<lambda>jid. reduce cr jid None RECOVER None now cap) ids s = Inr (ts, u) \<Longrightarrow> tables_ok s \<Longrightarrow>
     lands s u \<and> in_flight u = in_flight s - set ids"
proof (induction ids arbitrary: s ts)
  case Nil
  then show ?case by (simp add: lands.R_refl)
next
  case (Cons jid ids)
  then obtain t s1 ts' where r: "reduce cr jid None RECOVER None now cap s = Inr (t, s1)"
    "tx_each (\<lambda>jid. reduce cr jid None RECOVER None now cap) ids s1 = Inr (ts', u)"
    by (auto simp: tx_inr)
  have s1: "lands s s1" "in_flight s1 = in_flight s - {jid}" "tables_ok s1"
    using tx_withinD [OF reduce_lands r(1)] recover_job(1) [OF Cons.prems(2) r(1)]
      reduce_tables_ok [OF Cons.prems(2) r(1)] by auto
  with Cons.IH [OF r(2)] show ?case using lands.R_trans [of s s1 u] by auto
qed

text \<open>The job identifiers of a campaign.\<close>

definition campaign_jobs :: "nat \<Rightarrow> comms_db \<Rightarrow> nat set" where
  "campaign_jobs cid s = {jid. \<exists>gid. (jid, gid) \<in> set (job_gens s)
     \<and> list_ex (\<lambda>g. gen_id g = gid \<and> gen_campaign_id g = cid) (generations s)}"

lemma campaign_jobs_lands: "lands s t \<Longrightarrow> tables_ok s \<Longrightarrow> campaign_jobs cid t = campaign_jobs cid s"
  by (simp add: lands_def campaign_jobs_def)

lemma jobs_of_campaign_mem:
  "j \<in> set (jobs_of_campaign cid s) \<longleftrightarrow> j \<in> set (delivery_jobs s)
     \<and> list_ex (\<lambda>g. gen_id g = job_generation_id j \<and> gen_campaign_id g = cid) (generations s)"
  by (simp add: jobs_of_campaign_def)

lemma campaign_jobs_in_flight:
  assumes "distinct (map job_id (delivery_jobs s))"
  shows "job_id ` {j \<in> set (jobs_of_campaign cid s). job_state j = IN_FLIGHT} = campaign_jobs cid s \<inter> in_flight s"
proof (intro set_eqI iffI)
  fix x assume "x \<in> job_id ` {j \<in> set (jobs_of_campaign cid s). job_state j = IN_FLIGHT}"
  then show "x \<in> campaign_jobs cid s \<inter> in_flight s"
    by (auto simp: jobs_of_campaign_mem campaign_jobs_def job_gens_def in_flight_iff)
next
  fix x assume x: "x \<in> campaign_jobs cid s \<inter> in_flight s"
  then obtain j k where j: "j \<in> set (delivery_jobs s)" "job_id j = x"
      "list_ex (\<lambda>g. gen_id g = job_generation_id j \<and> gen_campaign_id g = cid) (generations s)"
    and k: "k \<in> set (delivery_jobs s)" "job_id k = x" "job_state k = IN_FLIGHT"
    by (auto simp: campaign_jobs_def job_gens_def in_flight_iff)
  have "k = j" using assms j k by (auto simp: distinct_map dest: inj_onD)
  with j k show "x \<in> job_id ` {j \<in> set (jobs_of_campaign cid s). job_state j = IN_FLIGHT}"
    by (auto simp: jobs_of_campaign_mem)
qed

lemma recover_campaign_lands:
  assumes run: "recover_campaign cr now cid s = Inr (x, u)" and tab: "tables_ok s"
  shows "lands s u" "in_flight u \<inter> campaign_jobs cid u = {}"
proof -
  define ids where "ids = map job_id (sort_key job_id (filter (\<lambda>j. job_state j = IN_FLIGHT) (jobs_of_campaign cid s)))"
  from run obtain n s1 where all: "reduce_all cr RECOVER now 5 ids s = Inr (n, s1)" and rest: "lands s1 u"
    by (auto simp: recover_campaign_def tx_inr ids_def lands.R_refl dest!: lifecycle_of_state
        dest: refresh_summary_settles complete_if_idle_settles
        intro: lands.R_trans [OF settles_lands settles_lands] split: if_splits)
  obtain ts where ts: "tx_each (\<lambda>jid. reduce cr jid None RECOVER None now 5) ids s = Inr (ts, s1)"
    using reduce_all_each [OF all] by blast
  have s1: "lands s s1" "in_flight s1 = in_flight s - set ids" using recover_jobs [OF ts tab] by auto
  then have tab1: "tables_ok s1" using tab by (simp add: lands_def)
  show su: "lands s u" by (rule lands.R_trans [OF s1(1) rest])
  have "set ids = campaign_jobs cid s \<inter> in_flight s"
    using campaign_jobs_in_flight [OF tables_ok_ids [OF tab], of cid] by (simp add: ids_def)
  then have "in_flight s1 \<inter> campaign_jobs cid s = {}" using s1(2) by blast
  moreover have "in_flight u \<subseteq> in_flight s1" using rest tab1 by (simp add: lands_def)
  ultimately show "in_flight u \<inter> campaign_jobs cid u = {}"
    unfolding campaign_jobs_lands [OF su tab] by blast
qed

section \<open>The whole recovery\<close>

lemma lands_in_transaction: "lands s (s\<lparr>in_transaction := b\<rparr>)" "lands (s\<lparr>in_transaction := b\<rparr>) s"
  by (rule lands_same_tables, simp add: same_tables_def)+

lemma io_Inr:
  "io_bind m f w = (Inr y, w') \<longleftrightarrow> (\<exists>x w1. m w = (Inr x, w1) \<and> f x w1 = (Inr y, w'))"
  "io_then m k w = (Inr y, w') \<longleftrightarrow> (\<exists>x w1. m w = (Inr x, w1) \<and> k w1 = (Inr y, w'))"
  "io_return z w = (Inr y, w') \<longleftrightarrow> y = z \<and> w' = w"
  by (auto simp: io_then_def io_bind_def io_return_def split: prod.splits sum.splits)

lemma recover_step:
  assumes "io_bind (io_db (write_tx (recover_campaign cr now cid))) (\<lambda>r. io_return (ref, r)) w = (Inr x, w')"
    "tables_ok (w_db w)"
  shows "lands (w_db w) (w_db w')" "in_flight (w_db w') \<inter> campaign_jobs cid (w_db w') = {}"
proof -
  from assms(1) obtain y t where run: "recover_campaign cr now cid ((w_db w)\<lparr>in_transaction := True\<rparr>) = Inr (y, t)"
    and w': "w_db w' = t\<lparr>in_transaction := False\<rparr>"
    by (auto simp: io_bind_run io_db_def write_tx_def io_return_def split: sum.splits if_splits)
  have tab: "tables_ok ((w_db w)\<lparr>in_transaction := True\<rparr>)" using assms(2) by (simp add: tables_ok_def)
  note r = recover_campaign_lands [OF run tab]
  show "lands (w_db w) (w_db w')"
    unfolding w' by (rule lands.R_trans [OF lands_in_transaction(1) lands.R_trans [OF r(1) lands_in_transaction(1)]])
  show "in_flight (w_db w') \<inter> campaign_jobs cid (w_db w') = {}"
    using r(2) by (simp add: w' in_flight_def campaign_jobs_def job_gens_def)
qed

lemma recover_loop:
  "io_each (\<lambda>(cid, ref). io_bind (io_db (write_tx (recover_campaign cr now cid))) (\<lambda>r. io_return (ref, r))) cs w
     = (Inr rs, w') \<Longrightarrow> tables_ok (w_db w) \<Longrightarrow>
   lands (w_db w) (w_db w') \<and> (\<forall>cid\<in>fst ` set cs. in_flight (w_db w') \<inter> campaign_jobs cid (w_db w') = {})"
proof (induction cs arbitrary: w rs)
  case Nil
  then show ?case by (simp add: io_return_def lands.R_refl)
next
  case (Cons c cs)
  obtain cid ref where c: "c = (cid, ref)" by fastforce
  with Cons.prems(1) obtain x w1 rs' where
    first: "io_bind (io_db (write_tx (recover_campaign cr now cid))) (\<lambda>r. io_return (ref, r)) w = (Inr x, w1)"
    and rest: "io_each (\<lambda>(cid, ref). io_bind (io_db (write_tx (recover_campaign cr now cid))) (\<lambda>r. io_return (ref, r))) cs w1
       = (Inr rs', w')"
    by (auto simp: io_Inr)
  note f = recover_step [OF first Cons.prems(2)]
  then have tab1: "tables_ok (w_db w1)" using Cons.prems(2) by (simp add: lands_def)
  note ih = Cons.IH [OF rest tab1]
  then have "in_flight (w_db w') \<subseteq> in_flight (w_db w1)" "campaign_jobs cid (w_db w') = campaign_jobs cid (w_db w1)"
    using tab1 campaign_jobs_lands [of "w_db w1" "w_db w'" cid] by (auto simp: lands_def)
  with f ih show ?case
    using lands.R_trans [of "w_db w" "w_db w1" "w_db w'"] unfolding c by auto
qed

lemma in_flight_recoverable:
  assumes "tables_ok s" "x \<in> in_flight s"
  shows "\<exists>cid\<in>fst ` set (recoverable s). x \<in> campaign_jobs cid s"
proof -
  from assms(2) obtain j where j: "j \<in> set (delivery_jobs s)" "job_id j = x" "job_state j = IN_FLIGHT"
    by (auto simp: in_flight_iff)
  with assms(1) obtain g where g: "g \<in> set (generations s)" "gen_id g = job_generation_id j"
    by (auto simp: tables_ok_def list_all_iff list_ex_iff)
  with assms(1) obtain c where c: "c \<in> set (campaigns s)" "cmp_id c = gen_campaign_id g"
    by (auto simp: tables_ok_def)
  have own: "list_ex (\<lambda>h. gen_id h = job_generation_id j \<and> gen_campaign_id h = cmp_id c) (generations s)"
    using g c(2) by (auto simp: list_ex_iff)
  then have "j \<in> set (jobs_of_campaign (cmp_id c) s)" using j(1) by (simp add: jobs_of_campaign_mem)
  with c(1) j(3) have "cmp_id c \<in> fst ` set (recoverable s)"
    by (force simp: recoverable_def list_ex_iff)
  moreover have "x \<in> campaign_jobs (cmp_id c) s" using j own by (auto simp: campaign_jobs_def job_gens_def)
  ultimately show ?thesis by blast
qed

lemma recover_lands:
  assumes run: "recover cr lease now w = (Inr rep, w')" and tab: "tables_ok (w_db w)"
  shows "in_flight (w_db w') = {}" "delivery_jobs (w_db w') = landed UNIV (delivery_jobs (w_db w))"
proof -
  from run obtain rs where loop: "io_each (\<lambda>(cid, ref). io_bind (io_db (write_tx (recover_campaign cr now cid)))
      (\<lambda>r. io_return (ref, r))) (recoverable (w_db w)) w = (Inr rs, w')"
    by (auto simp: recover_def io_Inr require_lease_def io_raise_def io_db_def split: if_splits)
  have r: "lands (w_db w) (w_db w')"
    "\<And>cid. cid \<in> fst ` set (recoverable (w_db w)) \<Longrightarrow> in_flight (w_db w') \<inter> campaign_jobs cid (w_db w') = {}"
    using recover_loop [OF loop tab] by auto
  show none: "in_flight (w_db w') = {}"
  proof (rule ccontr)
    assume "in_flight (w_db w') \<noteq> {}"
    then obtain x where x: "x \<in> in_flight (w_db w')" by blast
    then have "x \<in> in_flight (w_db w)" using r(1) tab by (auto simp: lands_def)
    from in_flight_recoverable [OF tab this] obtain cid where
      "cid \<in> fst ` set (recoverable (w_db w))" "x \<in> campaign_jobs cid (w_db w)" by blast
    with r x campaign_jobs_lands [OF r(1) tab, of cid] show False by blast
  qed
  obtain ids where ids: "delivery_jobs (w_db w') = landed ids (delivery_jobs (w_db w))"
    using r(1) tab by (auto simp: lands_def)
  have "job_id j \<in> ids" if "j \<in> set (delivery_jobs (w_db w))" "job_state j = IN_FLIGHT" for j
  proof (rule ccontr)
    assume "job_id j \<notin> ids"
    with that have "j \<in> set (delivery_jobs (w_db w'))" by (force simp: ids landed_def set_update_where)
    with that(2) none show False by (auto simp: in_flight_def)
  qed
  then show "delivery_jobs (w_db w') = landed UNIV (delivery_jobs (w_db w))"
    unfolding ids by (auto simp: landed_def update_where_def)
qed

definition same_calls :: "world \<Rightarrow> world \<Rightarrow> bool" where
  "same_calls w w' \<longleftrightarrow> w_calls w' = w_calls w"

interpretation same_calls: world_preorder same_calls
  by unfold_locales (simp_all add: same_calls_def)

lemma recover_same_calls: "io_within same_calls (recover cr lease now)"
proof -
  have "io_within same_calls (io_db m)" for m :: "'a db_tx"
    by (rule same_calls.io_db) (simp add: same_calls_def)
  then show ?thesis
    unfolding recover_def by (intro same_calls.io_intros same_calls.io_each)
qed

end
