(* ===== verification/Comms_Directory.thy ===== *)
theory Comms_Directory
  imports Comms_Schema
begin

text \<open>
  Locations, destinations, recipients, contact points, audiences and groups
  (\<open>core/campaigns/directory.py\<close>, \<open>core/groups.py\<close>). The transport's \<open>normalize\<close> is injected in
  the code and is a parameter here: a function from the platform identity to the delivery
  identity, or an exception. Each INSERT and UPDATE applies the clauses, unique indexes and
  triggers of its table. A kind is the name \<open>refs.kind_of\<close> returns.
\<close>

section \<open>Text helpers\<close>

text \<open>The whitespace \<open>str.strip\<close> removes, among the code points of a \<open>string\<close>.\<close>

definition is_text_space :: "char \<Rightarrow> bool" where
  "is_text_space c \<longleftrightarrow> (let n = (of_char c :: nat) in
     (9 \<le> n \<and> n \<le> 13) \<or> (28 \<le> n \<and> n \<le> 32) \<or> n = 133 \<or> n = 160)"

definition py_strip :: "string \<Rightarrow> string" where
  "py_strip s = rev (dropWhile is_text_space (rev (dropWhile is_text_space s)))"

definition starts_with :: "string \<Rightarrow> string \<Rightarrow> bool" where
  "starts_with p s \<longleftrightarrow> take (length p) s = p"

definition is_group_identity :: "string \<Rightarrow> bool" where
  "is_group_identity i \<longleftrightarrow> starts_with ''group:'' i \<or> starts_with ''channel:'' i"

text \<open>\<open>GLOB 'p?*'\<close>: the prefix and at least one more character.\<close>

definition glob_prefix_more :: "string \<Rightarrow> string \<Rightarrow> bool" where
  "glob_prefix_more p s \<longleftrightarrow> starts_with p s \<and> length p < length s"

section \<open>Rows\<close>

definition DESTINATION_TRANSPORTS :: "string list" where
  "DESTINATION_TRANSPORTS = [''telegram'', ''whatsapp'']"

definition CONTACT_TRANSPORTS :: "string list" where
  "CONTACT_TRANSPORTS = [''telegram'', ''whatsapp'']"

text \<open>\<open>_TABLE\<close>: the ref and the id of each row of the table of a kind.\<close>

definition table_ids :: "string \<Rightarrow> comms_db \<Rightarrow> (string \<times> nat) list" where
  "table_ids kind s =
     (if kind = ''location'' then map (\<lambda>r. (loc_ref r, loc_id r)) (locations s)
      else if kind = ''destination'' then map (\<lambda>r. (dst_ref r, dst_id r)) (destinations s)
      else if kind = ''recipient'' then map (\<lambda>r. (rcp_ref r, rcp_id r)) (recipients s)
      else if kind = ''contact_point'' then map (\<lambda>r. (cp_ref r, cp_id r)) (contact_points s)
      else if kind = ''audience'' then map (\<lambda>r. (aud_ref r, aud_id r)) (audiences s)
      else [])"

definition MEMBER_KINDS :: "string list" where
  "MEMBER_KINDS = [''location'', ''audience'', ''destination'', ''recipient'']"

text \<open>\<open>_MEMBER_COLUMN\<close>: the member column of a kind, set to an id.\<close>

definition member_of :: "string \<Rightarrow> nat \<Rightarrow> member" where
  "member_of kind i =
     (if kind = ''location'' then MLocation i else if kind = ''audience'' then MAudience i
      else if kind = ''destination'' then MDestination i else MRecipient i)"

definition unknown_ref :: exn where
  "unknown_ref = DirectoryNotFound ''unknown ref''"

definition dir_kind :: "string \<Rightarrow> string list \<Rightarrow> string db_tx" where
  "dir_kind ref allowed =
     (case kind_of ref of
        Inl _ \<Rightarrow> tx_raise unknown_ref
      | Inr kind \<Rightarrow> if kind \<in> set allowed then tx_return kind else tx_raise unknown_ref)"

definition dir_id :: "string \<Rightarrow> string \<Rightarrow> nat db_tx" where
  "dir_id kind ref s =
     (case map_of (table_ids kind s) ref of None \<Rightarrow> Inl unknown_ref | Some i \<Rightarrow> Inr (i, s))"

section \<open>Constraints and inserts\<close>

definition insert_location :: "string \<Rightarrow> string \<Rightarrow> string \<Rightarrow> unit db_tx" where
  "insert_location ref name stamp s =
     (if ref \<in> loc_ref ` set (locations s) then violates s
      else Inr ((), s\<lparr>locations := locations s @
        [\<lparr>loc_id = next_id loc_id (locations s), loc_ref = ref, loc_name = name, loc_enabled = True,
          loc_created_at = stamp\<rparr>]\<rparr>))"

definition insert_recipient :: "string \<Rightarrow> string option \<Rightarrow> string \<Rightarrow> unit db_tx" where
  "insert_recipient ref label stamp s =
     (if ref \<in> rcp_ref ` set (recipients s) then violates s
      else Inr ((), s\<lparr>recipients := recipients s @
        [\<lparr>rcp_id = next_id rcp_id (recipients s), rcp_ref = ref, rcp_enabled = True,
          rcp_display_name = label, rcp_created_at = stamp\<rparr>]\<rparr>))"

definition insert_audience :: "string \<Rightarrow> string \<Rightarrow> string \<Rightarrow> unit db_tx" where
  "insert_audience ref name stamp s =
     (if ref \<in> aud_ref ` set (audiences s) then violates s
      else Inr ((), s\<lparr>audiences := audiences s @
        [\<lparr>aud_id = next_id aud_id (audiences s), aud_ref = ref, aud_name = name,
          aud_created_at = stamp\<rparr>]\<rparr>))"

definition insert_identity :: "string \<Rightarrow> string \<Rightarrow> nat db_tx" where
  "insert_identity transport value s =
     (if transport \<notin> set TRANSPORT_NAMES
         \<or> (transport, value) \<in> (\<lambda>i. (idn_transport i, idn_identity i)) ` set (delivery_identities s)
      then violates s
      else let i = next_id idn_id (delivery_identities s)
           in Inr (i, s\<lparr>delivery_identities := delivery_identities s @
                [\<lparr>idn_id = i, idn_transport = transport, idn_identity = value\<rparr>]\<rparr>))"

definition identity_matches :: "nat \<Rightarrow> string \<Rightarrow> comms_db \<Rightarrow> bool" where
  "identity_matches i transport s \<longleftrightarrow>
     list_ex (\<lambda>r. idn_id r = i \<and> idn_transport r = transport) (delivery_identities s)"

text \<open>\<open>destinations_one_enabled_per_identity\<close>, \<open>contact_points_one_enabled_per_identity\<close> and
  \<open>contact_points_one_enabled_per_transport\<close>.\<close>

definition destinations_unique :: "destination_row list \<Rightarrow> bool" where
  "destinations_unique rows \<longleftrightarrow> distinct (map dst_identity_id (filter dst_enabled rows))"

definition contacts_unique :: "contact_row list \<Rightarrow> bool" where
  "contacts_unique rows \<longleftrightarrow>
     distinct (map cp_identity_id (filter cp_enabled rows)) \<and>
     distinct (map (\<lambda>c. (cp_recipient_id c, cp_transport c)) (filter cp_enabled rows))"

definition destination_check :: "string \<Rightarrow> string \<Rightarrow> bool" where
  "destination_check transport platform_identity \<longleftrightarrow>
     transport = ''telegram'' \<or>
     (transport = ''whatsapp'' \<and>
      (glob_prefix_more ''group:'' platform_identity \<or> glob_prefix_more ''redacted:'' platform_identity))"

definition insert_destination :: "destination_row \<Rightarrow> unit db_tx" where
  "insert_destination d s =
     (if dst_ref d \<in> dst_ref ` set (destinations s) \<or> dst_location_id d \<notin> loc_id ` set (locations s)
         \<or> \<not> destination_check (dst_transport d) (dst_platform_identity d)
         \<or> \<not> identity_matches (dst_identity_id d) (dst_transport d) s
         \<or> \<not> destinations_unique (destinations s @ [d])
      then violates s
      else Inr ((), s\<lparr>destinations := destinations s @ [d]\<rparr>))"

definition insert_contact_point :: "contact_row \<Rightarrow> unit db_tx" where
  "insert_contact_point c s =
     (if cp_ref c \<in> cp_ref ` set (contact_points s) \<or> cp_recipient_id c \<notin> rcp_id ` set (recipients s)
         \<or> cp_transport c \<notin> set TRANSPORT_NAMES
         \<or> \<not> identity_matches (cp_identity_id c) (cp_transport c) s
         \<or> \<not> contacts_unique (contact_points s @ [c])
      then violates s
      else Inr ((), s\<lparr>contact_points := contact_points s @ [c]\<rparr>))"

definition update_destinations ::
  "(destination_row \<Rightarrow> bool) \<Rightarrow> (destination_row \<Rightarrow> destination_row) \<Rightarrow> unit db_tx" where
  "update_destinations p f s =
     (let rows = update_where p f (destinations s)
      in if destinations_unique rows then Inr ((), s\<lparr>destinations := rows\<rparr>) else violates s)"

definition update_contact_points ::
  "(contact_row \<Rightarrow> bool) \<Rightarrow> (contact_row \<Rightarrow> contact_row) \<Rightarrow> unit db_tx" where
  "update_contact_points p f s =
     (let rows = update_where p f (contact_points s)
      in if contacts_unique rows then Inr ((), s\<lparr>contact_points := rows\<rparr>) else violates s)"

text \<open>\<open>groups_are_group_destinations\<close>, and one group per destination.\<close>

definition insert_group :: "string \<Rightarrow> nat \<Rightarrow> string \<Rightarrow> unit db_tx" where
  "insert_group ref did stamp s =
     (if ref \<in> grp_ref ` set (groups s) \<or> did \<in> grp_destination_id ` set (groups s)
         \<or> \<not> list_ex (\<lambda>d. dst_id d = did \<and> is_group_identity (dst_platform_identity d)) (destinations s)
      then violates s
      else Inr ((), s\<lparr>groups := groups s @
        [\<lparr>grp_id = next_id grp_id (groups s), grp_ref = ref, grp_destination_id = did,
          grp_created_at = stamp\<rparr>]\<rparr>))"

section \<open>Groups\<close>

definition unknown_destination :: exn where
  "unknown_destination = GroupError ''unknown destination''"

definition unknown_group :: exn where
  "unknown_group = GroupError ''unknown group''"

definition group_ref_in_tx :: "string \<Rightarrow> datetime \<Rightarrow> string db_tx" where
  "group_ref_in_tx destination_ref now =
     tx_bind (tx_lift (case check destination_ref ''destination'' of
        Inl _ \<Rightarrow> Inl unknown_destination | Inr r \<Rightarrow> Inr r)) (\<lambda>_.
     tx_bind (tx_reads (\<lambda>s. find (\<lambda>d. dst_ref d = destination_ref) (destinations s))) (\<lambda>row.
     tx_bind (tx_the unknown_destination row) (\<lambda>d.
     tx_bind (tx_reads (\<lambda>s. find (\<lambda>g. grp_destination_id g = dst_id d) (groups s))) (\<lambda>existing.
     case existing of
       Some g \<Rightarrow> tx_return (grp_ref g)
     | None \<Rightarrow>
         tx_then (tx_guard (is_group_identity (dst_platform_identity d)) (GroupError ''not a group destination''))
         (tx_bind (mint_ref ''group'') (\<lambda>ref.
          tx_bind (tx_lift (iso now)) (\<lambda>stamp.
          tx_then (insert_group ref (dst_id d) stamp) (tx_return ref))))))))"

definition group_ref :: "string \<Rightarrow> datetime \<Rightarrow> string db_tx" where
  "group_ref destination_ref now = write_tx (group_ref_in_tx destination_ref now)"

definition check_group :: "string \<Rightarrow> unit res" where
  "check_group grp = (case check grp ''group'' of Inl _ \<Rightarrow> Inl unknown_group | Inr _ \<Rightarrow> Inr ())"

definition group_destination :: "comms_db \<Rightarrow> group_row \<Rightarrow> destination_row option" where
  "group_destination s g = find (\<lambda>d. dst_id d = grp_destination_id g) (destinations s)"

definition destination_of :: "comms_db \<Rightarrow> string \<Rightarrow> string res" where
  "destination_of s grp =
     res_bind (check_group grp) (\<lambda>_.
     case find (\<lambda>g. grp_ref g = grp) (groups s) of
       None \<Rightarrow> Inl unknown_group
     | Some g \<Rightarrow> (case group_destination s g of None \<Rightarrow> Inl unknown_group | Some d \<Rightarrow> Inr (dst_ref d)))"

record group_view =
  gv_group :: string
  gv_name :: string
  gv_location :: string
  gv_enabled :: bool
  gv_created_at :: string

text \<open>\<open>_VIEW\<close> and \<open>_view\<close>: the joined row of a group, or none when a join finds nothing.\<close>

definition view_of_group :: "comms_db \<Rightarrow> group_row \<Rightarrow> group_view option" where
  "view_of_group s g =
     (case group_destination s g of
        None \<Rightarrow> None
      | Some d \<Rightarrow>
          (case find (\<lambda>l. loc_id l = dst_location_id d) (locations s) of
             None \<Rightarrow> None
           | Some l \<Rightarrow> Some \<lparr>gv_group = grp_ref g, gv_name = dst_display_name d, gv_location = loc_ref l,
                             gv_enabled = dst_enabled d, gv_created_at = grp_created_at g\<rparr>))"

definition group_view_of :: "comms_db \<Rightarrow> string \<Rightarrow> group_view res" where
  "group_view_of s grp =
     res_bind (check_group grp) (\<lambda>_.
     case find (\<lambda>g. grp_ref g = grp) (groups s) of
       None \<Rightarrow> Inl unknown_group
     | Some g \<Rightarrow> (case view_of_group s g of None \<Rightarrow> Inl unknown_group | Some v \<Rightarrow> Inr v))"

definition group_identity :: "comms_db \<Rightarrow> string \<Rightarrow> (string \<times> string \<times> string) res" where
  "group_identity s grp =
     res_bind (check_group grp) (\<lambda>_.
     case find (\<lambda>g. grp_ref g = grp) (groups s) of
       None \<Rightarrow> Inl unknown_group
     | Some g \<Rightarrow>
         (case group_destination s g of
            None \<Rightarrow> Inl unknown_group
          | Some d \<Rightarrow>
              (case find (\<lambda>i. idn_id i = dst_identity_id d) (delivery_identities s) of
                 None \<Rightarrow> Inl unknown_group
               | Some i \<Rightarrow> if dst_enabled d then Inr (dst_ref d, dst_transport d, idn_identity i)
                           else Inl unknown_group)))"

definition enabled_groups :: "comms_db \<Rightarrow> string list \<Rightarrow> nat \<Rightarrow> string list \<times> bool" where
  "enabled_groups s transports limit =
     (let rows = take (limit + 1) (map grp_ref (filter (\<lambda>g. case group_destination s g of
                    None \<Rightarrow> False | Some d \<Rightarrow> dst_enabled d \<and> dst_transport d \<in> set transports)
                  (rev (sort_key grp_id (groups s)))))
      in (take limit rows, limit < length rows))"

section \<open>Adding endpoints\<close>

definition invalid_identity :: exn where
  "invalid_identity = DirectoryError ''invalid platform identity''"

definition second_enabled :: exn where
  "second_enabled = DirectoryError ''delivery identity already has an enabled endpoint''"

definition second_contact :: exn where
  "second_contact = DirectoryError ''recipient already has an enabled contact point on this transport''"

type_synonym normalizer = "string \<Rightarrow> string res"

definition normalized :: "normalizer \<Rightarrow> string \<Rightarrow> string res" where
  "normalized to_identity platform_identity =
     (case to_identity platform_identity of
        Inl _ \<Rightarrow> Inl invalid_identity
      | Inr v \<Rightarrow> if v = [] then Inl invalid_identity else Inr v)"

definition identity_id :: "string \<Rightarrow> string \<Rightarrow> normalizer \<Rightarrow> nat db_tx" where
  "identity_id transport platform_identity to_identity =
     tx_bind (tx_lift (normalized to_identity platform_identity)) (\<lambda>value.
     tx_bind (tx_reads (\<lambda>s. find (\<lambda>i. idn_transport i = transport \<and> idn_identity i = value)
                              (delivery_identities s))) (\<lambda>row.
     case row of Some i \<Rightarrow> tx_return (idn_id i) | None \<Rightarrow> insert_identity transport value))"

definition refuse_second_destination :: "nat \<Rightarrow> unit db_tx" where
  "refuse_second_destination i =
     tx_bind (tx_reads (\<lambda>s. list_ex (\<lambda>d. dst_identity_id d = i \<and> dst_enabled d) (destinations s)))
       (\<lambda>taken. tx_guard (\<not> taken) second_enabled)"

definition refuse_second_contact :: "nat \<Rightarrow> unit db_tx" where
  "refuse_second_contact i =
     tx_bind (tx_reads (\<lambda>s. list_ex (\<lambda>c. cp_identity_id c = i \<and> cp_enabled c) (contact_points s)))
       (\<lambda>taken. tx_guard (\<not> taken) second_enabled)"

definition add_location_in_tx :: "string \<Rightarrow> datetime \<Rightarrow> string db_tx" where
  "add_location_in_tx name now =
     tx_then require_tx
     (tx_bind (mint_ref ''location'') (\<lambda>ref.
      tx_bind (tx_lift (iso now)) (\<lambda>stamp.
      tx_then (insert_location ref name stamp) (tx_return ref))))"

definition add_location :: "string \<Rightarrow> datetime \<Rightarrow> string db_tx" where
  "add_location name now = write_tx (add_location_in_tx name now)"

definition add_destination_in_tx ::
  "string \<Rightarrow> string \<Rightarrow> string \<Rightarrow> string \<Rightarrow> normalizer \<Rightarrow> datetime \<Rightarrow> string db_tx" where
  "add_destination_in_tx location_ref transport platform_identity display_name to_identity now =
     tx_then require_tx
     (tx_then (tx_guard (transport \<in> set DESTINATION_TRANSPORTS) (DirectoryError ''unsupported transport''))
     (tx_then (tx_guard (transport \<noteq> ''whatsapp'' \<or> is_group_identity platform_identity) invalid_identity)
     (tx_then (dir_kind location_ref [''location''])
     (tx_bind (mint_ref ''destination'') (\<lambda>ref.
      tx_bind (tx_lift (iso now)) (\<lambda>stamp.
      tx_bind (dir_id ''location'' location_ref) (\<lambda>lid.
      tx_bind (identity_id transport platform_identity to_identity) (\<lambda>i.
      tx_then (refuse_second_destination i)
     (tx_bind (tx_reads (\<lambda>s. next_id dst_id (destinations s))) (\<lambda>did.
      tx_then (insert_destination
        \<lparr>dst_id = did, dst_ref = ref, dst_location_id = lid, dst_transport = transport,
         dst_platform_identity = platform_identity, dst_identity_id = i, dst_display_name = display_name,
         dst_capabilities = JObj [], dst_enabled = True, dst_created_at = stamp, dst_disabled_at = None\<rparr>)
     (tx_then (if is_group_identity platform_identity
               then tx_then (group_ref_in_tx ref now) (tx_return ()) else tx_return ())
      (tx_return ref))))))))))))"

definition add_destination ::
  "string \<Rightarrow> string \<Rightarrow> string \<Rightarrow> string \<Rightarrow> normalizer \<Rightarrow> datetime \<Rightarrow> string db_tx" where
  "add_destination location_ref transport platform_identity display_name to_identity now =
     write_tx (add_destination_in_tx location_ref transport platform_identity display_name to_identity now)"

text \<open>A label has 1 to 200 characters after trimming.\<close>

definition display_name_of :: "string \<Rightarrow> string res" where
  "display_name_of name =
     (let label = py_strip name
      in if 0 < length label \<and> length label \<le> 200 then Inr label
         else Inl (DirectoryError ''display name refused''))"

definition add_recipient_in_tx :: "datetime \<Rightarrow> string option \<Rightarrow> string db_tx" where
  "add_recipient_in_tx now display_name =
     tx_then require_tx
     (tx_bind (case display_name of None \<Rightarrow> tx_return None
               | Some n \<Rightarrow> tx_bind (tx_lift (display_name_of n)) (\<lambda>l. tx_return (Some l))) (\<lambda>label.
      tx_bind (mint_ref ''recipient'') (\<lambda>ref.
      tx_bind (tx_lift (iso now)) (\<lambda>stamp.
      tx_then (insert_recipient ref label stamp) (tx_return ref)))))"

definition add_recipient :: "datetime \<Rightarrow> string option \<Rightarrow> string db_tx" where
  "add_recipient now display_name = write_tx (add_recipient_in_tx now display_name)"

definition set_display_name_in_tx :: "string \<Rightarrow> string \<Rightarrow> unit db_tx" where
  "set_display_name_in_tx recipient_ref display_name =
     tx_then require_tx
     (tx_then (dir_kind recipient_ref [''recipient''])
     (tx_bind (tx_lift (display_name_of display_name)) (\<lambda>label.
      tx_bind (dir_id ''recipient'' recipient_ref) (\<lambda>rid.
      tx_modify (\<lambda>s. s\<lparr>recipients :=
        update_where (\<lambda>r. rcp_id r = rid) (\<lambda>r. r\<lparr>rcp_display_name := Some label\<rparr>) (recipients s)\<rparr>)))))"

definition add_contact_point_in_tx ::
  "string \<Rightarrow> string \<Rightarrow> string \<Rightarrow> normalizer \<Rightarrow> datetime \<Rightarrow> string db_tx" where
  "add_contact_point_in_tx recipient_ref transport platform_identity to_identity now =
     tx_then require_tx
     (tx_then (tx_guard (transport \<in> set CONTACT_TRANSPORTS) (DirectoryError ''unsupported transport''))
     (tx_then (dir_kind recipient_ref [''recipient''])
     (tx_bind (mint_ref ''contact_point'') (\<lambda>ref.
      tx_bind (tx_lift (iso now)) (\<lambda>stamp.
      tx_bind (dir_id ''recipient'' recipient_ref) (\<lambda>rid.
      tx_bind (tx_reads (\<lambda>s. list_ex (\<lambda>c. cp_recipient_id c = rid \<and> cp_transport c = transport \<and> cp_enabled c)
                               (contact_points s))) (\<lambda>taken.
      tx_then (tx_guard (\<not> taken) second_contact)
     (tx_bind (identity_id transport platform_identity to_identity) (\<lambda>i.
      tx_then (refuse_second_contact i)
     (tx_bind (tx_reads (\<lambda>s. list_ex (\<lambda>c. cp_identity_id c = i \<and> cp_opted_out_at c \<noteq> None)
                               (contact_points s))) (\<lambda>opted_out.
      tx_then (tx_guard (\<not> opted_out) (DirectoryError ''delivery identity has opted out''))
     (tx_bind (tx_reads (\<lambda>s. next_id cp_id (contact_points s))) (\<lambda>cid.
      tx_then (insert_contact_point
        \<lparr>cp_id = cid, cp_ref = ref, cp_recipient_id = rid, cp_transport = transport,
         cp_platform_identity = platform_identity, cp_identity_id = i, cp_enabled = True,
         cp_opted_out_at = None, cp_created_at = stamp, cp_disabled_at = None\<rparr>)
      (tx_return ref))))))))))))))"

definition add_contact_point :: "string \<Rightarrow> string \<Rightarrow> string \<Rightarrow> normalizer \<Rightarrow> datetime \<Rightarrow> string db_tx" where
  "add_contact_point recipient_ref transport platform_identity to_identity now =
     write_tx (add_contact_point_in_tx recipient_ref transport platform_identity to_identity now)"

section \<open>Enabling, disabling, opting out\<close>

text \<open>Enabling an endpoint looks for another enabled one of the same identity first, and for a
  contact point also of the same person and transport.\<close>

definition enable_destination_guard :: "nat \<Rightarrow> unit db_tx" where
  "enable_destination_guard did =
     tx_bind (tx_reads (\<lambda>s. find (\<lambda>d. dst_id d = did) (destinations s))) (\<lambda>row.
     tx_bind (tx_the (TypeError ''NoneType'') row) (\<lambda>d.
     tx_bind (tx_reads (\<lambda>s. list_ex (\<lambda>e. dst_identity_id e = dst_identity_id d \<and> dst_enabled e \<and> dst_id e \<noteq> did)
                              (destinations s))) (\<lambda>clash.
     tx_guard (\<not> clash) second_enabled)))"

definition enable_contact_guard :: "nat \<Rightarrow> unit db_tx" where
  "enable_contact_guard cid =
     tx_bind (tx_reads (\<lambda>s. find (\<lambda>c. cp_id c = cid) (contact_points s))) (\<lambda>row.
     tx_bind (tx_the (TypeError ''NoneType'') row) (\<lambda>c.
     tx_bind (tx_reads (\<lambda>s. list_ex (\<lambda>e. cp_identity_id e = cp_identity_id c \<and> cp_enabled e \<and> cp_id e \<noteq> cid)
                              (contact_points s))) (\<lambda>clash.
     tx_then (tx_guard (\<not> clash) second_enabled)
    (tx_bind (tx_reads (\<lambda>s. list_ex (\<lambda>e. cp_recipient_id e = cp_recipient_id c \<and> cp_transport e = cp_transport c
                                         \<and> cp_enabled e \<and> cp_id e \<noteq> cid) (contact_points s))) (\<lambda>other.
     tx_guard (\<not> other) second_contact)))))"

text \<open>\<open>now or datetime.now(UTC)\<close>: \<open>clock\<close> is the system time.\<close>

definition set_enabled_in_tx :: "datetime \<Rightarrow> string \<Rightarrow> bool \<Rightarrow> datetime option \<Rightarrow> unit db_tx" where
  "set_enabled_in_tx clock ref enabled now =
     tx_then require_tx
     (tx_bind (dir_kind ref [''location'', ''destination'', ''recipient'', ''contact_point'']) (\<lambda>kind.
      tx_bind (dir_id kind ref) (\<lambda>row_id.
      let stamp = (if enabled then tx_return None
                   else tx_bind (tx_lift (iso (case now of None \<Rightarrow> clock | Some t \<Rightarrow> t)))
                          (\<lambda>t. tx_return (Some t)))
      in if kind = ''destination'' then
           tx_then (if enabled then enable_destination_guard row_id else tx_return ())
          (tx_then (update_destinations (\<lambda>d. dst_id d = row_id) (\<lambda>d. d\<lparr>dst_enabled := enabled\<rparr>))
          (tx_bind stamp (\<lambda>at.
           update_destinations (\<lambda>d. dst_id d = row_id) (\<lambda>d. d\<lparr>dst_disabled_at := at\<rparr>))))
         else if kind = ''contact_point'' then
           tx_then (if enabled then enable_contact_guard row_id else tx_return ())
          (tx_then (update_contact_points (\<lambda>c. cp_id c = row_id) (\<lambda>c. c\<lparr>cp_enabled := enabled\<rparr>))
          (tx_bind stamp (\<lambda>at.
           update_contact_points (\<lambda>c. cp_id c = row_id) (\<lambda>c. c\<lparr>cp_disabled_at := at\<rparr>))))
         else if kind = ''location'' then
           tx_modify (\<lambda>s. s\<lparr>locations :=
             update_where (\<lambda>l. loc_id l = row_id) (\<lambda>l. l\<lparr>loc_enabled := enabled\<rparr>) (locations s)\<rparr>)
         else
           tx_modify (\<lambda>s. s\<lparr>recipients :=
             update_where (\<lambda>r. rcp_id r = row_id) (\<lambda>r. r\<lparr>rcp_enabled := enabled\<rparr>) (recipients s)\<rparr>))))"

definition set_enabled :: "datetime \<Rightarrow> string \<Rightarrow> bool \<Rightarrow> datetime option \<Rightarrow> unit db_tx" where
  "set_enabled clock ref enabled now = write_tx (set_enabled_in_tx clock ref enabled now)"

text \<open>\<open>coalesce(opted_out_at, ?)\<close>: the first opt-out stays.\<close>

definition opt_out_in_tx :: "string \<Rightarrow> datetime \<Rightarrow> unit db_tx" where
  "opt_out_in_tx contact_point_ref now =
     tx_then require_tx
     (tx_then (dir_kind contact_point_ref [''contact_point''])
     (tx_bind (tx_lift (iso now)) (\<lambda>stamp.
      tx_bind (dir_id ''contact_point'' contact_point_ref) (\<lambda>row_id.
      update_contact_points (\<lambda>c. cp_id c = row_id)
        (\<lambda>c. c\<lparr>cp_opted_out_at := (case cp_opted_out_at c of None \<Rightarrow> Some stamp | Some t \<Rightarrow> Some t)\<rparr>)))))"

definition opt_out :: "string \<Rightarrow> datetime \<Rightarrow> unit db_tx" where
  "opt_out contact_point_ref now = write_tx (opt_out_in_tx contact_point_ref now)"

section \<open>Memberships\<close>

text \<open>\<open>INSERT OR IGNORE\<close> ignores a repeated pair; a missing parent is still refused.\<close>

definition insert_location_member :: "nat \<Rightarrow> nat \<Rightarrow> unit db_tx" where
  "insert_location_member lid rid s =
     (if (lid, rid) \<in> set (location_members s) then Inr ((), s)
      else if lid \<notin> loc_id ` set (locations s) \<or> rid \<notin> rcp_id ` set (recipients s) then violates s
      else Inr ((), s\<lparr>location_members := location_members s @ [(lid, rid)]\<rparr>))"

definition unknown_membership :: exn where
  "unknown_membership = DirectoryNotFound ''unknown membership''"

definition add_location_member_in_tx :: "string \<Rightarrow> string \<Rightarrow> unit db_tx" where
  "add_location_member_in_tx location_ref recipient_ref =
     tx_then require_tx
     (tx_then (dir_kind location_ref [''location''])
     (tx_then (dir_kind recipient_ref [''recipient''])
     (tx_bind (dir_id ''location'' location_ref) (\<lambda>lid.
      tx_bind (dir_id ''recipient'' recipient_ref) (\<lambda>rid.
      insert_location_member lid rid)))))"

definition add_location_member :: "string \<Rightarrow> string \<Rightarrow> unit db_tx" where
  "add_location_member location_ref recipient_ref =
     write_tx (add_location_member_in_tx location_ref recipient_ref)"

definition remove_location_member_in_tx :: "string \<Rightarrow> string \<Rightarrow> unit db_tx" where
  "remove_location_member_in_tx location_ref recipient_ref =
     tx_then require_tx
     (tx_then (dir_kind location_ref [''location''])
     (tx_then (dir_kind recipient_ref [''recipient''])
     (tx_bind (dir_id ''location'' location_ref) (\<lambda>lid.
      tx_bind (dir_id ''recipient'' recipient_ref) (\<lambda>rid.
      tx_bind (tx_reads (\<lambda>s. length (filter (\<lambda>m. m = (lid, rid)) (location_members s)))) (\<lambda>rowcount.
      tx_then (tx_guard (rowcount = 1) unknown_membership)
        (tx_modify (\<lambda>s. s\<lparr>location_members :=
           filter (\<lambda>m. m \<noteq> (lid, rid)) (location_members s)\<rparr>))))))))"

definition remove_location_member :: "string \<Rightarrow> string \<Rightarrow> unit db_tx" where
  "remove_location_member location_ref recipient_ref =
     write_tx (remove_location_member_in_tx location_ref recipient_ref)"

definition add_audience_in_tx :: "string \<Rightarrow> datetime \<Rightarrow> string db_tx" where
  "add_audience_in_tx name now =
     tx_then require_tx
     (tx_bind (mint_ref ''audience'') (\<lambda>ref.
      tx_bind (tx_lift (iso now)) (\<lambda>stamp.
      tx_then (insert_audience ref name stamp) (tx_return ref))))"

definition add_audience :: "string \<Rightarrow> datetime \<Rightarrow> string db_tx" where
  "add_audience name now = write_tx (add_audience_in_tx name now)"

section \<open>Cycles\<close>

text \<open>The member-audience edges, and the ids \<open>SELECT member_audience_id ... WHERE audience_id = ?\<close>
  returns for one audience.\<close>

definition audience_edges :: "comms_db \<Rightarrow> (nat \<times> nat) list" where
  "audience_edges s =
     concat (map (\<lambda>m. case am_member m of MAudience b \<Rightarrow> [(am_audience_id m, b)] | _ \<Rightarrow> [])
       (audience_members s))"

definition successors :: "(nat \<times> nat) list \<Rightarrow> nat \<Rightarrow> nat list" where
  "successors edges node = map snd (filter (\<lambda>e. fst e = node) edges)"

text \<open>The loop of \<open>_reaches\<close>. The stack is written with its top first: \<open>pop\<close> takes the head and
  \<open>extend\<close> puts the new nodes in front in reverse. A node is expanded once, so either fewer
  audiences with members are left unseen, or the stack is shorter.\<close>

function reaches_loop :: "(nat \<times> nat) list \<Rightarrow> nat \<Rightarrow> nat list \<Rightarrow> nat list \<Rightarrow> bool" where
  "reaches_loop edges target seen [] = False"
| "reaches_loop edges target seen (node # stack) =
     (if node = target then True
      else if node \<in> set seen then reaches_loop edges target seen stack
      else reaches_loop edges target (node # seen) (rev (successors edges node) @ stack))"
  by pat_completeness auto

lemma successors_empty: "node \<notin> fst ` set edges \<Longrightarrow> successors edges node = []"
  by (force simp: successors_def filter_empty_conv)

termination reaches_loop
proof (relation "measures [\<lambda>(edges, target, seen, stack). card (fst ` set edges - set seen),
                           \<lambda>(edges, target, seen, stack). length stack]")
  fix edges :: "(nat \<times> nat) list" and target node :: nat and seen stack :: "nat list"
  assume unseen: "node \<notin> set seen"
  show "((edges, target, node # seen, rev (successors edges node) @ stack), edges, target, seen, node # stack)
    \<in> measures [\<lambda>(edges, target, seen, stack). card (fst ` set edges - set seen),
                 \<lambda>(edges, target, seen, stack). length stack]"
  proof (cases "node \<in> fst ` set edges")
    case True
    then have "card (fst ` set edges - set (node # seen)) < card (fst ` set edges - set seen)"
      using unseen by (intro psubset_card_mono) auto
    then show ?thesis by simp
  next
    case False
    then have "fst ` set edges - set (node # seen) = fst ` set edges - set seen" by auto
    then show ?thesis using False by (simp add: successors_empty)
  qed
qed auto

definition reaches :: "comms_db \<Rightarrow> nat \<Rightarrow> nat \<Rightarrow> bool" where
  "reaches s start target = reaches_loop (audience_edges s) target [] [start]"

text \<open>The member column references its table; no audience is its own member; no row repeats.\<close>

definition member_exists :: "comms_db \<Rightarrow> member \<Rightarrow> bool" where
  "member_exists s m =
     (case m of
        MLocation i \<Rightarrow> i \<in> loc_id ` set (locations s)
      | MAudience i \<Rightarrow> i \<in> aud_id ` set (audiences s)
      | MDestination i \<Rightarrow> i \<in> dst_id ` set (destinations s)
      | MRecipient i \<Rightarrow> i \<in> rcp_id ` set (recipients s))"

definition insert_audience_member :: "nat \<Rightarrow> member \<Rightarrow> unit db_tx" where
  "insert_audience_member aid m s =
     (if aid \<notin> aud_id ` set (audiences s) \<or> \<not> member_exists s m \<or> m = MAudience aid
         \<or> (aid, m) \<in> (\<lambda>r. (am_audience_id r, am_member r)) ` set (audience_members s)
      then violates s
      else Inr ((), s\<lparr>audience_members := audience_members s @
        [\<lparr>am_id = next_id am_id (audience_members s), am_audience_id = aid, am_member = m\<rparr>]\<rparr>))"

definition add_audience_member_in_tx :: "string \<Rightarrow> string \<Rightarrow> unit db_tx" where
  "add_audience_member_in_tx audience_ref member_ref =
     tx_then require_tx
     (tx_then (dir_kind audience_ref [''audience''])
     (tx_bind (dir_kind member_ref MEMBER_KINDS) (\<lambda>kind.
      tx_bind (dir_id ''audience'' audience_ref) (\<lambda>aid.
      tx_bind (dir_id kind member_ref) (\<lambda>mid.
      tx_bind (tx_reads (\<lambda>s. kind = ''audience'' \<and> reaches s mid aid)) (\<lambda>cycle.
      tx_then (tx_guard (\<not> cycle) (DirectoryError ''audience cycle''))
     (tx_bind (tx_reads (\<lambda>s. list_ex (\<lambda>r. am_audience_id r = aid \<and> am_member r = member_of kind mid)
                              (audience_members s))) (\<lambda>exists.
      if exists then tx_return () else insert_audience_member aid (member_of kind mid)))))))))"

definition add_audience_member :: "string \<Rightarrow> string \<Rightarrow> unit db_tx" where
  "add_audience_member audience_ref member_ref =
     write_tx (add_audience_member_in_tx audience_ref member_ref)"

definition remove_audience_member_in_tx :: "string \<Rightarrow> string \<Rightarrow> unit db_tx" where
  "remove_audience_member_in_tx audience_ref member_ref =
     tx_then require_tx
     (tx_then (dir_kind audience_ref [''audience''])
     (tx_bind (dir_kind member_ref MEMBER_KINDS) (\<lambda>kind.
      tx_bind (dir_id ''audience'' audience_ref) (\<lambda>aid.
      tx_bind (dir_id kind member_ref) (\<lambda>mid.
      let hit = (\<lambda>r. am_audience_id r = aid \<and> am_member r = member_of kind mid)
      in tx_bind (tx_reads (\<lambda>s. length (filter hit (audience_members s)))) (\<lambda>rowcount.
         tx_then (tx_guard (rowcount = 1) unknown_membership)
           (tx_modify (\<lambda>s. s\<lparr>audience_members := filter (\<lambda>r. \<not> hit r) (audience_members s)\<rparr>))))))))"

definition remove_audience_member :: "string \<Rightarrow> string \<Rightarrow> unit db_tx" where
  "remove_audience_member audience_ref member_ref =
     write_tx (remove_audience_member_in_tx audience_ref member_ref)"

definition rename_in_tx :: "string \<Rightarrow> string \<Rightarrow> unit db_tx" where
  "rename_in_tx ref name =
     tx_then require_tx
     (tx_bind (dir_kind ref [''location'', ''audience'']) (\<lambda>kind.
      tx_then (tx_guard (py_strip name \<noteq> []) (DirectoryError ''a name is required''))
     (tx_bind (dir_id kind ref) (\<lambda>row_id.
      if kind = ''location'' then
        tx_modify (\<lambda>s. s\<lparr>locations :=
          update_where (\<lambda>l. loc_id l = row_id) (\<lambda>l. l\<lparr>loc_name := name\<rparr>) (locations s)\<rparr>)
      else
        tx_modify (\<lambda>s. s\<lparr>audiences :=
          update_where (\<lambda>a. aud_id a = row_id) (\<lambda>a. a\<lparr>aud_name := name\<rparr>) (audiences s)\<rparr>)))))"

definition rename :: "string \<Rightarrow> string \<Rightarrow> unit db_tx" where
  "rename ref name = write_tx (rename_in_tx ref name)"

section \<open>Group creations\<close>

definition insert_pending_group :: "string \<Rightarrow> nat \<Rightarrow> string \<Rightarrow> string \<Rightarrow> unit db_tx" where
  "insert_pending_group request_id lid name stamp s =
     (if request_id \<in> pgc_request_id ` set (pending_group_creations s) \<or> lid \<notin> loc_id ` set (locations s)
      then violates s
      else Inr ((), s\<lparr>pending_group_creations := pending_group_creations s @
        [\<lparr>pgc_id = next_id pgc_id (pending_group_creations s), pgc_request_id = request_id,
          pgc_location_id = lid, pgc_name = name, pgc_created_at = stamp, pgc_destination_id = None,
          pgc_failed_at = None\<rparr>]\<rparr>))"

text \<open>\<open>pending_group_creations_settle_once\<close>, and the CHECK that it does not both succeed and fail.\<close>

definition settle_pending :: "nat \<Rightarrow> (pending_group_row \<Rightarrow> pending_group_row) \<Rightarrow> unit db_tx" where
  "settle_pending pid f s =
     (let rows = update_where (\<lambda>p. pgc_id p = pid) f (pending_group_creations s)
      in if list_all (\<lambda>p. pgc_id p = pid \<longrightarrow> pgc_destination_id p = None \<and> pgc_failed_at p = None)
              (pending_group_creations s)
            \<and> list_all (\<lambda>p. pgc_destination_id p = None \<or> pgc_failed_at p = None) rows
            \<and> list_all (\<lambda>p. case pgc_destination_id p of None \<Rightarrow> True
                            | Some d \<Rightarrow> d \<in> dst_id ` set (destinations s)) rows
         then Inr ((), s\<lparr>pending_group_creations := rows\<rparr>)
         else violates s)"

definition pend_group_creation_in_tx :: "string \<Rightarrow> string \<Rightarrow> string \<Rightarrow> datetime \<Rightarrow> unit db_tx" where
  "pend_group_creation_in_tx request_id location_ref name now =
     tx_then require_tx
     (tx_then (dir_kind location_ref [''location''])
     (tx_then (tx_guard (request_id \<noteq> [] \<and> length request_id \<le> 256) (DirectoryError ''request id refused''))
     (tx_bind (dir_id ''location'' location_ref) (\<lambda>lid.
      tx_bind (tx_lift (display_name_of name)) (\<lambda>label.
      tx_bind (tx_lift (iso now)) (\<lambda>stamp.
      insert_pending_group request_id lid label stamp))))))"

definition pend_group_creation :: "string \<Rightarrow> string \<Rightarrow> string \<Rightarrow> datetime \<Rightarrow> unit db_tx" where
  "pend_group_creation request_id location_ref name now =
     write_tx (pend_group_creation_in_tx request_id location_ref name now)"

text \<open>The open creation of a request, with its location.\<close>

definition open_creation :: "comms_db \<Rightarrow> string \<Rightarrow> (nat \<times> string \<times> string) option" where
  "open_creation s request_id =
     (case find (\<lambda>p. pgc_request_id p = request_id \<and> pgc_destination_id p = None \<and> pgc_failed_at p = None)
             (pending_group_creations s) of
        None \<Rightarrow> None
      | Some p \<Rightarrow>
          (case find (\<lambda>l. loc_id l = pgc_location_id p) (locations s) of
             None \<Rightarrow> None
           | Some l \<Rightarrow> Some (pgc_id p, loc_ref l, pgc_name p)))"

definition settle_group_creation_in_tx ::
  "string \<Rightarrow> string option \<Rightarrow> normalizer \<Rightarrow> datetime \<Rightarrow> string option db_tx" where
  "settle_group_creation_in_tx request_id platform_identity to_identity now =
     tx_then require_tx
     (tx_bind (tx_reads (\<lambda>s. open_creation s request_id)) (\<lambda>row.
      case row of
        None \<Rightarrow> tx_return None
      | Some (pid, location_ref, name) \<Rightarrow>
          (case platform_identity of
             None \<Rightarrow>
               tx_bind (tx_lift (iso now)) (\<lambda>stamp.
               tx_then (settle_pending pid (\<lambda>p. p\<lparr>pgc_failed_at := Some stamp\<rparr>)) (tx_return None))
           | Some identity \<Rightarrow>
               tx_bind (add_destination_in_tx location_ref ''whatsapp'' identity name to_identity now) (\<lambda>dest.
               tx_bind (dir_id ''destination'' dest) (\<lambda>did.
               tx_then (settle_pending pid (\<lambda>p. p\<lparr>pgc_destination_id := Some did\<rparr>))
                 (tx_return (Some dest)))))))"

section \<open>Reads\<close>

definition named_recipients :: "comms_db \<Rightarrow> (string \<times> string) list" where
  "named_recipients s =
     concat (map (\<lambda>r. case rcp_display_name r of
                        None \<Rightarrow> [] | Some n \<Rightarrow> if rcp_enabled r then [(rcp_ref r, n)] else [])
       (sort_key rcp_id (recipients s)))"

definition group_destinations :: "comms_db \<Rightarrow> (string \<times> string \<times> string) list" where
  "group_destinations s =
     concat (map (\<lambda>d. case find (\<lambda>l. loc_id l = dst_location_id d) (locations s) of
                        None \<Rightarrow> []
                      | Some l \<Rightarrow> if dst_enabled d \<and> is_group_identity (dst_platform_identity d)
                                  then [(dst_ref d, dst_display_name d, loc_name l)] else [])
       (sort_key dst_id (destinations s)))"

definition destination_id :: "comms_db \<Rightarrow> string \<Rightarrow> nat option" where
  "destination_id s ref = map_option dst_id (find (\<lambda>d. dst_ref d = ref) (destinations s))"

text \<open>\<open>contact_points c JOIN delivery_identities i ON i.id = c.identity_id\<close>.\<close>

definition identity_of_contact :: "comms_db \<Rightarrow> contact_row \<Rightarrow> identity_row option" where
  "identity_of_contact s c = find (\<lambda>i. idn_id i = cp_identity_id c) (delivery_identities s)"

definition member_identity :: "comms_db \<Rightarrow> string \<Rightarrow> string \<Rightarrow> string option" where
  "member_identity s recipient_ref transport =
     (case find (\<lambda>c. list_ex (\<lambda>r. rcp_id r = cp_recipient_id c \<and> rcp_ref r = recipient_ref) (recipients s)
                    \<and> cp_transport c = transport \<and> cp_enabled c \<and> identity_of_contact s c \<noteq> None)
             (contact_points s) of
        None \<Rightarrow> None | Some c \<Rightarrow> map_option idn_identity (identity_of_contact s c))"

definition has_recipient :: "comms_db \<Rightarrow> string \<Rightarrow> bool" where
  "has_recipient s ref \<longleftrightarrow> list_ex (\<lambda>r. rcp_ref r = ref) (recipients s)"

definition contact_targets :: "comms_db \<Rightarrow> string \<Rightarrow> (string \<times> string \<times> string) list res" where
  "contact_targets s recipient_ref =
     res_bind (case dir_kind recipient_ref [''recipient''] s of Inl e \<Rightarrow> Inl e | Inr _ \<Rightarrow> Inr ()) (\<lambda>_.
     res_bind (case dir_id ''recipient'' recipient_ref s of Inl e \<Rightarrow> Inl e | Inr (i, _) \<Rightarrow> Inr i) (\<lambda>rid.
     Inr (concat (map (\<lambda>c. case identity_of_contact s c of
                             None \<Rightarrow> [] | Some i \<Rightarrow> [(cp_transport c, cp_ref c, idn_identity i)])
            (sort_key cp_transport
              (filter (\<lambda>c. cp_recipient_id c = rid \<and> cp_enabled c) (contact_points s)))))))"

text \<open>\<open>ORDER BY c.enabled DESC, c.id LIMIT 1\<close>.\<close>

definition recipient_of_identity :: "comms_db \<Rightarrow> string \<Rightarrow> string \<Rightarrow> string option" where
  "recipient_of_identity s transport identity =
     (let hits = sort_key (\<lambda>c. (\<not> cp_enabled c, cp_id c))
        (filter (\<lambda>c. list_ex (\<lambda>r. rcp_id r = cp_recipient_id c) (recipients s)
           \<and> (case identity_of_contact s c of None \<Rightarrow> False
              | Some i \<Rightarrow> idn_transport i = transport \<and> idn_identity i = identity)) (contact_points s))
      in case hits of
           [] \<Rightarrow> None
         | c # _ \<Rightarrow> map_option rcp_ref (find (\<lambda>r. rcp_id r = cp_recipient_id c) (recipients s)))"

end
