(* ===== verification/Comms_Refs_Props.thy ===== *)
theory Comms_Refs_Props
  imports Comms_Schema
begin

text \<open>
  What a minted reference is: it carries its kind, and how much of the random draw it keeps.
\<close>

lemma core_prefix_split:
  assumes "map_of CORE_PREFIXES kind = Some prefix"
  shows "prefix = butlast prefix @ ''_''"
  using core_prefix_shape [OF assms] by (metis append_butlast_last_id)

lemma is_az_lower: "is_az c \<Longrightarrow> py_lower_alpha c"
  by (simp add: py_lower_alpha_def)

lemma mint_known:
  assumes "map_of CORE_PREFIXES kind = Some prefix"
  shows "mint kind n = Inr (prefix @ take 26 (b32encode_lower (to_bytes_be 17 n)))"
  using core_prefix_shape [OF assms] assms
  by (auto simp: mint_def mint_opaque_ref_def Let_def list_all_iff dest: is_az_lower)

lemma mint_kind:
  assumes "mint kind n = Inr r"
  shows "kind_of r = Inr kind"
proof -
  from assms obtain prefix where p: "map_of CORE_PREFIXES kind = Some prefix"
    by (auto simp: mint_def split: option.splits)
  define body where "body = take 26 (b32encode_lower (to_bytes_be 17 n))"
  have r: "r = butlast prefix @ CHR ''_'' # body"
  proof -
    have "r = prefix @ body" using assms mint_known [OF p] by (simp add: body_def)
    also have "\<dots> = (butlast prefix @ ''_'') @ body" using core_prefix_split [OF p] by (rule arg_cong)
    finally show ?thesis by simp
  qed
  have "validate_ref_format r = Inr (butlast prefix @ ''_'')"
    unfolding r by (rule validate_ref_format_intro)
      (use core_prefix_shape [OF p] minted_body_shape [of n] in \<open>simp_all add: body_def\<close>)
  then show ?thesis
    using core_prefix_shape [OF p] core_prefix_split [OF p] by (simp add: kind_of_def)
qed

lemma mint_ref_kind: "mint_ref kind s = Inr (r, t) \<Longrightarrow> kind_of r = Inr kind \<and> t = s\<lparr>draws := Suc (draws s)\<rparr>"
  by (auto simp: mint_ref_def dest: mint_kind split: sum.splits)

section \<open>The bits a reference keeps\<close>

lemma quintets_take:
  "take n (quintets bs) = quintets (take (5 * n) bs)"
proof (induction n arbitrary: bs)
  case (Suc n)
  then show ?case
    by (cases bs) (simp_all add: take_Cons' drop_take numeral_eq_Suc)
qed simp

lemma bits_of_byte_top: "take 2 (bits_of_byte b) = [odd (b div 128), odd (b div 64)]"
proof -
  have "[0..<8] = [0, 1, 2, 3, 4, 5, 6, 7::nat]" by (simp add: upt_rec)
  then show ?thesis by (simp add: bits_of_byte_def)
qed

lemma take_130_bits:
  "take 130 (concat (map bits_of_byte (to_bytes_be 17 n)))
   = concat (map bits_of_byte (to_bytes_be 16 (n div 256))) @ [odd (n mod 256 div 128), odd (n mod 256 div 64)]"
proof -
  have "to_bytes_be 17 n = to_bytes_be 16 (n div 256) @ [n mod 256]"
    using to_bytes_be_rec(2) [of 16 n] by simp
  moreover have "length (concat (map bits_of_byte (to_bytes_be 16 (n div 256)))) = 128"
    by (simp add: to_bytes_be_def bits_of_byte_def length_concat comp_def upt_rec)
  ultimately show ?thesis
    using bits_of_byte_top [of "n mod 256"] by simp
qed

lemma mint_low_bits: "mint kind (64 * (n div 64)) = mint kind n"
proof (cases "map_of CORE_PREFIXES kind")
  case None
  then show ?thesis by (simp add: mint_def)
next
  case (Some prefix)
  have "64 * (n div 64) div 256 = n div 256"
    using div_mult2_eq [of "64 * (n div 64)" 64 4] div_mult2_eq [of n 64 4] by simp
  moreover have "64 * (n div 64) mod 256 = 64 * (n div 64 mod 4)"
    using mult_mod_right [of 64 "n div 64" 4] by simp
  moreover have "n mod 256 div 64 = n div 64 mod 4"
    using mod_mult2_eq [of n 64 4] by simp
  moreover have "n mod 256 div 128 = n mod 256 div 64 div 2"
    using div_mult2_eq [of "n mod 256" 64 2] by simp
  moreover have "64 * (n div 64 mod 4) div 128 = n div 64 mod 4 div 2"
    using div_mult2_eq [of "64 * (n div 64 mod 4)" 64 2] by simp
  ultimately have "take 130 (concat (map bits_of_byte (to_bytes_be 17 (64 * (n div 64)))))
      = take 130 (concat (map bits_of_byte (to_bytes_be 17 n)))"
    by (simp add: take_130_bits)
  then have "take 26 (quintets (concat (map bits_of_byte (to_bytes_be 17 (64 * (n div 64))))))
      = take 26 (quintets (concat (map bits_of_byte (to_bytes_be 17 n))))"
    by (simp add: quintets_take)
  then show ?thesis by (simp add: mint_known [OF Some] minted_body)
qed

text \<open>C1: minting and reading a reference agree. For every kind of reference the program has, minting
  succeeds whatever the random source answers, and \<open>kind_of\<close> and \<open>check\<close> of the result give that
  kind back and no other.\<close>

theorem mint_roundtrip:
  assumes "kind \<in> fst ` set CORE_PREFIXES"
  shows "\<exists>r. mint kind n = Inr r \<and> kind_of r = Inr kind \<and> (\<forall>k. is_ok (check r k) \<longleftrightarrow> k = kind)"
proof -
  from assms obtain prefix where "map_of CORE_PREFIXES kind = Some prefix"
    by (metis (no_types) map_of_eq_None_iff option.exhaust)
  from mint_known [OF this] obtain r where r: "mint kind n = Inr r" by blast
  from mint_kind [OF this] have "kind_of r = Inr kind" .
  then have "is_ok (check r k) \<longleftrightarrow> k = kind" for k
    by (auto simp: check_def)
  with r mint_kind [OF r] show ?thesis by blast
qed

theorem mint_roundtrip_witness:
  "\<exists>r. mint ''job'' 12345 = Inr r \<and> kind_of r = Inr ''job''"
proof -
  have "''job'' \<in> fst ` set CORE_PREFIXES" by (simp add: CORE_PREFIXES_def)
  from mint_roundtrip [OF this] show ?thesis by blast
qed

text \<open>C2: a reference keeps 124 of the 130 random bits. The 130 bits are written into 17 bytes, so the
  first six of the 136 encoded bits are zero and the last six are cut off by the 26 characters: over
  all draws at most \<open>2 ^ 124\<close> references of a kind exist.\<close>

theorem minted_refs_bound:
  "card (mint kind ` randbits130 ` UNIV) \<le> 2 ^ 124"
proof -
  have "mint kind ` randbits130 ` UNIV \<subseteq> (\<lambda>m. mint kind (64 * m)) ` {..<2 ^ 124}"
  proof clarify
    fix n
    have "randbits130 n div 64 < 2 ^ 124"
      by (simp add: randbits130_def div_less_iff_less_mult)
    then show "mint kind (randbits130 n) \<in> (\<lambda>m. mint kind (64 * m)) ` {..<2 ^ 124}"
      by (intro image_eqI [where x = "randbits130 n div 64"]) (simp_all add: mint_low_bits)
  qed
  then have "card (mint kind ` randbits130 ` UNIV) \<le> card ((\<lambda>m. mint kind (64 * m)) ` {..<(2::nat) ^ 124})"
    by (intro card_mono) auto
  also have "\<dots> \<le> card {..<(2::nat) ^ 124}" by (rule card_image_le) simp
  finally show ?thesis by simp
qed

end
