(* ===== verification/Comms_Resolve_Props.thy ===== *)
theory Comms_Resolve_Props
  imports Comms_Resolve Comms_Demo
begin

text \<open>
  Resolution is sound and complete: on a directory whose refs are unique and of their table's kind,
  the origin paths it records are exactly the paths from a target to an endpoint on a wanted
  transport that are valid in the same state.
\<close>

section \<open>Well-formed directories\<close>

definition refs_ok :: "string \<Rightarrow> ('r \<Rightarrow> string) \<Rightarrow> 'r list \<Rightarrow> bool" where
  "refs_ok kind ref rows \<longleftrightarrow>
     distinct (map ref rows) \<and> list_all (\<lambda>r. kind_of (ref r) = Inr kind) rows"

definition directory_ok :: "comms_db \<Rightarrow> bool" where
  "directory_ok s \<longleftrightarrow>
     refs_ok ''audience'' aud_ref (audiences s) \<and> refs_ok ''location'' loc_ref (locations s) \<and>
     refs_ok ''destination'' dst_ref (destinations s) \<and>
     refs_ok ''recipient'' rcp_ref (recipients s) \<and>
     refs_ok ''contact_point'' cp_ref (contact_points s) \<and>
     distinct (map rcp_id (recipients s))"

lemma unique_row:
  "distinct (map key rows) \<Longrightarrow> a \<in> set rows \<Longrightarrow> b \<in> set rows \<Longrightarrow> key a = key b \<Longrightarrow> a = b"
  by (auto simp: distinct_map inj_on_def)

lemma find_unique_iff:
  "distinct (map key rows) \<Longrightarrow> find (\<lambda>x. key x = k) rows = Some x \<longleftrightarrow> x \<in> set rows \<and> key x = k"
  using find_Some_iff_key [of "\<lambda>x. key x = k" rows] find_key_unique [of key rows] by blast

lemma find_unique_case:
  assumes "distinct (map key rows)"
  shows "(case find (\<lambda>x. key x = k) rows of None \<Rightarrow> False | Some x \<Rightarrow> P x)
     \<longleftrightarrow> (\<exists>x\<in>set rows. key x = k \<and> P x)"
proof (cases "find (\<lambda>x. key x = k) rows")
  case None
  then have "\<And>x. x \<in> set rows \<Longrightarrow> key x \<noteq> k" by (auto simp: find_None_iff)
  with None show ?thesis by auto
next
  case (Some y)
  with find_unique_iff [OF assms, of k y] have "y \<in> set rows" "key y = k" by auto
  with Some show ?thesis by (auto dest: unique_row [OF assms])
qed

lemmas directory_defs = directory_ok_def refs_ok_def

section \<open>One step of the search\<close>

lemma audience_edge_iff:
  assumes "directory_ok s" and "k \<in> {''audience'', ''location'', ''destination'', ''recipient''}"
  shows "audience_edge s p k r \<longleftrightarrow>
    (\<exists>a\<in>set (audiences s). aud_ref a = p \<and> (k, r) \<in> set (audience_members_of s (aud_id a)))"
proof -
  have u: "distinct (map aud_ref (audiences s))" "distinct (map loc_ref (locations s))"
    "distinct (map dst_ref (destinations s))" "distinct (map rcp_ref (recipients s))"
    using assms(1) by (auto simp: directory_defs)
  have names: "(if k = ''audience'' then
               (case find (\<lambda>x. aud_ref x = r) (audiences s) of
                  None \<Rightarrow> False | Some x \<Rightarrow> m = MAudience (aud_id x))
             else if k = ''location'' then
               (case find (\<lambda>x. loc_ref x = r) (locations s) of
                  None \<Rightarrow> False | Some x \<Rightarrow> m = MLocation (loc_id x))
             else if k = ''destination'' then
               (case find (\<lambda>x. dst_ref x = r) (destinations s) of
                  None \<Rightarrow> False | Some x \<Rightarrow> m = MDestination (dst_id x))
             else
               (case find (\<lambda>x. rcp_ref x = r) (recipients s) of
                  None \<Rightarrow> False | Some x \<Rightarrow> m = MRecipient (rcp_id x)))
         \<longleftrightarrow> member_names s m k r" for m
  proof -
    have a: "(case find (\<lambda>x. aud_ref x = r) (audiences s) of
         None \<Rightarrow> False | Some x \<Rightarrow> m = MAudience (aud_id x)) \<longleftrightarrow> member_names s m ''audience'' r"
      by (subst find_unique_case [OF u(1)]) (cases m; auto simp: member_names_def)
    have l: "(case find (\<lambda>x. loc_ref x = r) (locations s) of
         None \<Rightarrow> False | Some x \<Rightarrow> m = MLocation (loc_id x)) \<longleftrightarrow> member_names s m ''location'' r"
      by (subst find_unique_case [OF u(2)]) (cases m; auto simp: member_names_def)
    have d: "(case find (\<lambda>x. dst_ref x = r) (destinations s) of
         None \<Rightarrow> False | Some x \<Rightarrow> m = MDestination (dst_id x)) \<longleftrightarrow> member_names s m ''destination'' r"
      by (subst find_unique_case [OF u(3)]) (cases m; auto simp: member_names_def)
    have rc: "(case find (\<lambda>x. rcp_ref x = r) (recipients s) of
         None \<Rightarrow> False | Some x \<Rightarrow> m = MRecipient (rcp_id x)) \<longleftrightarrow> member_names s m ''recipient'' r"
      by (subst find_unique_case [OF u(4)]) (cases m; auto simp: member_names_def)
    from assms(2) show ?thesis
      unfolding a l d rc by (elim insertE emptyE) simp_all
  qed
  show ?thesis
    unfolding audience_edge_def names audience_members_iff list_ex_iff
    by (subst find_unique_case [OF u(1)]) simp
qed

lemma edge_from:
  "edge_valid s (k, r) (k', r') \<Longrightarrow> k \<in> {''audience'', ''location'', ''recipient''}
     \<and> (k = ''recipient'' \<longrightarrow> k' = ''contact_point'')
     \<and> (k \<noteq> ''recipient'' \<longrightarrow> k' \<in> {''audience'', ''location'', ''destination'', ''recipient''})"
  by (auto simp: edge_valid_def split: if_splits)

lemma kids_iff:
  assumes ok: "directory_ok s" and run: "expand s tr (k, r, path) = Inr (ems, kids)"
  shows "(k', r', p') \<in> set kids \<longleftrightarrow>
    k \<in> {''audience'', ''location''} \<and> node_valid s k r \<and> edge_valid s (k, r) (k', r') \<and> p' = path @ [r']"
proof -
  have u: "distinct (map aud_ref (audiences s))" "distinct (map loc_ref (locations s))"
    using ok by (auto simp: directory_defs)
  consider "k = ''audience''" | "k = ''location''" | "k \<notin> {''audience'', ''location''}" by blast
  then show ?thesis
  proof cases
    case 1
    with run obtain a where a: "a \<in> set (audiences s)" "aud_ref a = r"
      and kids: "kids = map (\<lambda>(k, r). (k, r, path @ [r])) (audience_members_of s (aud_id a))"
      by (auto simp: expand_def expand_audience_def Let_def find_unique_iff [OF u(1)]
          split: option.splits if_splits)
    have "member_names s m k' r' \<Longrightarrow> k' \<in> {''audience'', ''location'', ''destination'', ''recipient''}" for m
      by (cases m) (auto simp: member_names_def)
    then have four: "(k', r') \<in> set (audience_members_of s aid) \<Longrightarrow>
        k' \<in> {''audience'', ''location'', ''destination'', ''recipient''}" for aid
      unfolding audience_members_iff by blast
    have "edge_valid s (k, r) (k', r') \<longleftrightarrow> (k', r') \<in> set (audience_members_of s (aud_id a))"
    proof -
      have "edge_valid s (k, r) (k', r') \<longleftrightarrow>
          k' \<in> {''audience'', ''location'', ''destination'', ''recipient''} \<and> audience_edge s r k' r'"
        using 1 by (simp add: edge_valid_def)
      also have "\<dots> \<longleftrightarrow> (k', r') \<in> set (audience_members_of s (aud_id a))"
        using audience_edge_iff [OF ok, of k' r r'] four a unique_row [OF u(1)] by blast
      finally show ?thesis .
    qed
    with 1 a show ?thesis by (auto simp: kids node_valid_def list_ex_iff)
  next
    case 2
    with run obtain l where l: "l \<in> set (locations s)" "loc_ref l = r"
      and kids: "kids = (if \<not> loc_enabled l then [] else
                   map (\<lambda>d. (''destination'', dst_ref d, path @ [dst_ref d]))
                          (filter (\<lambda>d. dst_location_id d = loc_id l) (destinations s))
                       @ concat (map (\<lambda>(lid, rid). map (\<lambda>r. (''recipient'', rcp_ref r, path @ [rcp_ref r]))
                          (filter (\<lambda>r. rcp_id r = rid) (recipients s)))
                          (filter (\<lambda>(lid, rid). lid = loc_id l) (location_members s))))"
      by (auto simp: expand_def expand_location_def find_unique_iff [OF u(2)]
          split: option.splits if_splits)
    have same: "(\<exists>l'\<in>set (locations s). loc_id l' = i \<and> loc_ref l' = r) \<longleftrightarrow> i = loc_id l" for i
      using l unique_row [OF u(2)] by blast
    have en: "node_valid s k r \<longleftrightarrow> loc_enabled l"
      using 2 l unique_row [OF u(2)] by (auto simp: node_valid_def list_ex_iff)
    show ?thesis
      unfolding en kids using 2
      by (auto simp: edge_valid_def list_ex_iff same)
  next
    case 3
    with run have "kids = []"
      by (auto simp: expand_def split: if_splits option.splits)
    with 3 show ?thesis by simp
  qed
qed

text \<open>An endpoint with its delivery identity, on a wanted transport.\<close>

definition endpoint_on :: "comms_db \<Rightarrow> string list \<Rightarrow> string \<times> string \<Rightarrow> string \<Rightarrow> nat \<Rightarrow> bool" where
  "endpoint_on s tr node t i \<longleftrightarrow>
     (fst node = ''destination'' \<and> ''telegram'' \<in> set tr \<and>
        (\<exists>d\<in>set (destinations s). dst_ref d = snd node \<and> t = dst_transport d \<and> i = dst_identity_id d)) \<or>
     (fst node = ''contact_point'' \<and> t \<in> set tr \<and>
        (\<exists>c\<in>set (contact_points s). cp_ref c = snd node \<and> t = cp_transport c \<and> i = cp_identity_id c))"

lemma emits_iff:
  assumes ok: "directory_ok s" and run: "expand s tr (k, r, path) = Inr (ems, kids)"
  shows "(t, i, e, p) \<in> set ems \<longleftrightarrow>
    (k = ''destination'' \<and> node_valid s k r \<and> endpoint_on s tr (k, r) t i \<and> e = r \<and> p = path) \<or>
    (k = ''recipient'' \<and> node_valid s k r \<and> edge_valid s (k, r) (''contact_point'', e)
       \<and> node_valid s ''contact_point'' e \<and> endpoint_on s tr (''contact_point'', e) t i \<and> p = path @ [e])"
proof -
  have u: "distinct (map dst_ref (destinations s))" "distinct (map cp_ref (contact_points s))"
      "distinct (map rcp_id (recipients s))"
    using ok by (auto simp: directory_defs)
  consider "k = ''destination''" | "k = ''recipient''" | "k \<notin> {''destination'', ''recipient''}" by blast
  then show ?thesis
  proof cases
    case 1
    have live: "find (\<lambda>d. dst_ref d = r \<and> destination_live s d) (destinations s) = Some d \<longleftrightarrow>
        d \<in> set (destinations s) \<and> dst_ref d = r \<and> destination_live s d" for d
    proof
      assume "d \<in> set (destinations s) \<and> dst_ref d = r \<and> destination_live s d"
      then show "find (\<lambda>d. dst_ref d = r \<and> destination_live s d) (destinations s) = Some d"
        using unique_row [OF u(1), of _ d]
        by (cases "find (\<lambda>d. dst_ref d = r \<and> destination_live s d) (destinations s)")
          (auto simp: find_None_iff dest: find_Some_iff_key)
    qed (auto dest: find_Some_iff_key)
    show ?thesis
      using 1 run
      by (auto simp: expand_def node_valid_def list_ex_iff endpoint_on_def live find_None_iff
          dest: unique_row [OF u(1)] split: if_splits option.splits)
  next
    case 2
    have "(t, i, e, p) \<in> set ems \<longleftrightarrow> (\<exists>c\<in>set (contact_points s). cp_enabled c \<and> cp_opted_out_at c = None
        \<and> (\<exists>x\<in>set (recipients s). rcp_id x = cp_recipient_id c \<and> rcp_ref x = r \<and> rcp_enabled x)
        \<and> cp_transport c \<in> set tr \<and> t = cp_transport c \<and> i = cp_identity_id c \<and> e = cp_ref c
        \<and> p = path @ [cp_ref c])"
    proof -
      have "ems = map (\<lambda>c. (cp_transport c, cp_identity_id c, cp_ref c, path @ [cp_ref c]))
        (filter (\<lambda>c. cp_enabled c \<and> cp_opted_out_at c = None
          \<and> list_ex (\<lambda>x. rcp_id x = cp_recipient_id c \<and> rcp_ref x = r \<and> rcp_enabled x) (recipients s)
          \<and> cp_transport c \<in> set tr) (contact_points s))"
        using 2 run by (simp add: expand_def)
      then show ?thesis by (simp add: list_ex_iff image_iff) blast
    qed
    also have "\<dots> \<longleftrightarrow> node_valid s k r \<and> edge_valid s (k, r) (''contact_point'', e)
       \<and> node_valid s ''contact_point'' e \<and> endpoint_on s tr (''contact_point'', e) t i \<and> p = path @ [e]"
      (is "?L \<longleftrightarrow> ?R")
    proof
      assume ?R
      then obtain c x where c: "c \<in> set (contact_points s)" "cp_ref c = e" "contact_live s c"
        and x: "x \<in> set (recipients s)" "rcp_id x = cp_recipient_id c" "rcp_ref x = r"
        and e: "endpoint_on s tr (''contact_point'', e) t i" "p = path @ [e]"
        using 2 by (auto simp: node_valid_def edge_valid_def list_ex_iff dest: unique_row [OF u(2)])
      with c(3) have "rcp_enabled x"
        by (auto simp: contact_live_def list_ex_iff dest: unique_row [OF u(3)])
      with c x e show ?L
        by (auto simp: contact_live_def endpoint_on_def dest: unique_row [OF u(2)])
    qed (use 2 in \<open>auto simp: node_valid_def edge_valid_def endpoint_on_def contact_live_def list_ex_iff\<close>)
    finally show ?thesis using 2 by simp
  next
    case 3
    with run have "ems = []"
      by (auto simp: expand_def expand_audience_def expand_location_def Let_def
          split: if_splits option.splits)
    with 3 show ?thesis by simp
  qed
qed

section \<open>The whole search\<close>

definition SEARCH_KINDS :: "string set" where
  "SEARCH_KINDS = {''audience'', ''location'', ''destination'', ''recipient''}"

text \<open>A chain of valid nodes and edges that ends in an endpoint on a wanted transport.\<close>

definition live_chain :: "comms_db \<Rightarrow> string list \<Rightarrow> (string \<times> string) list \<Rightarrow> string \<Rightarrow> nat \<Rightarrow> bool" where
  "live_chain s tr nodes t i \<longleftrightarrow>
     list_all (\<lambda>(k, r). node_valid s k r) nodes \<and> list_all (\<lambda>(a, b). edge_valid s a b) (pairwise nodes)
     \<and> endpoint_on s tr (last nodes) t i"

definition leads_to :: "comms_db \<Rightarrow> string list \<Rightarrow> entry \<Rightarrow> emitted \<Rightarrow> bool" where
  "leads_to s tr e x \<longleftrightarrow> (case (e, x) of ((k, r, path), (t, i, ref, p)) \<Rightarrow>
     \<exists>rest. live_chain s tr ((k, r) # rest) t i \<and> ref = snd (last ((k, r) # rest))
            \<and> p = path @ map snd rest)"

lemma live_chain_Cons:
  "live_chain s tr ((k, r) # (k', r') # rest) t i \<longleftrightarrow>
     node_valid s k r \<and> edge_valid s (k, r) (k', r') \<and> live_chain s tr ((k', r') # rest) t i"
  by (auto simp: live_chain_def)

lemma live_chain_single:
  "live_chain s tr [(k, r)] t i \<longleftrightarrow> node_valid s k r \<and> endpoint_on s tr (k, r) t i"
  by (simp add: live_chain_def)

lemma leads_to_unfold:
  "leads_to s tr (k, r, path) (t, i, ref, p) \<longleftrightarrow>
     (node_valid s k r \<and> endpoint_on s tr (k, r) t i \<and> ref = r \<and> p = path) \<or>
     (\<exists>k' r'. node_valid s k r \<and> edge_valid s (k, r) (k', r')
        \<and> leads_to s tr (k', r', path @ [r']) (t, i, ref, p))"
  (is "?L \<longleftrightarrow> ?now \<or> ?later")
proof
  assume ?L
  then obtain rest where rest: "live_chain s tr ((k, r) # rest) t i"
      "ref = snd (last ((k, r) # rest))" "p = path @ map snd rest"
    by (auto simp: leads_to_def)
  show "?now \<or> ?later"
  proof (cases rest)
    case Nil
    with rest show ?thesis by (simp add: live_chain_single)
  next
    case (Cons n rest')
    obtain k' r' where n: "n = (k', r')" by (cases n)
    with Cons rest have "live_chain s tr ((k', r') # rest') t i" "node_valid s k r"
        "edge_valid s (k, r) (k', r')"
      by (auto simp: live_chain_Cons)
    moreover from this(1) have "leads_to s tr (k', r', path @ [r']) (t, i, ref, p)"
      unfolding leads_to_def prod.case using rest(2,3) Cons n
      by (intro exI [of _ rest']) simp
    ultimately show ?thesis by blast
  qed
next
  assume "?now \<or> ?later"
  then show ?L
  proof
    assume ?now
    then show ?L unfolding leads_to_def prod.case by (intro exI [of _ "[]"]) (simp add: live_chain_single)
  next
    assume ?later
    then obtain k' r' rest where "node_valid s k r" "edge_valid s (k, r) (k', r')"
        "live_chain s tr ((k', r') # rest) t i" "ref = snd (last ((k', r') # rest))"
        "p = path @ [r'] @ map snd rest"
      by (auto simp: leads_to_def)
    then show ?L unfolding leads_to_def prod.case
      by (intro exI [of _ "(k', r') # rest"]) (simp add: live_chain_Cons)
  qed
qed

text \<open>One step: what an entry leads to is what it emits and what its successors lead to.\<close>

lemma expand_leads:
  assumes ok: "directory_ok s" and run: "expand s tr (k, r, path) = Inr (ems, kids)"
    and k: "k \<in> SEARCH_KINDS"
  shows "leads_to s tr (k, r, path) x \<longleftrightarrow> x \<in> set ems \<or> (\<exists>e\<in>set kids. leads_to s tr e x)"
proof -
  obtain t i ref p where x: "x = (t, i, ref, p)" by (cases x)
  have ends: "endpoint_on s tr (k', r') t i \<Longrightarrow> k' \<in> {''destination'', ''contact_point''}" for k' r'
    by (auto simp: endpoint_on_def)
  have cp: "leads_to s tr (''contact_point'', e, q) (t, i, ref, p) \<longleftrightarrow>
      node_valid s ''contact_point'' e \<and> endpoint_on s tr (''contact_point'', e) t i \<and> ref = e \<and> p = q" for e q
    by (subst leads_to_unfold) (auto dest: edge_from)
  have kids: "(\<exists>e\<in>set kids. leads_to s tr e x) \<longleftrightarrow> (\<exists>k' r'. k \<in> {''audience'', ''location''}
      \<and> node_valid s k r \<and> edge_valid s (k, r) (k', r') \<and> leads_to s tr (k', r', path @ [r']) x)"
  proof -
    have "(\<exists>e\<in>set kids. leads_to s tr e x) \<longleftrightarrow>
        (\<exists>k' r' p'. (k', r', p') \<in> set kids \<and> leads_to s tr (k', r', p') x)" by auto
    then show ?thesis unfolding kids_iff [OF ok run] by blast
  qed
  note kids = kids [unfolded x]
  consider "k = ''destination''" | "k = ''recipient''" | "k \<in> {''audience'', ''location''}"
    using k by (auto simp: SEARCH_KINDS_def)
  then show ?thesis
  proof cases
    case 1
    then show ?thesis
      unfolding x kids emits_iff [OF ok run] by (subst leads_to_unfold) (auto dest: edge_from)
  next
    case 2
    have "leads_to s tr (k, r, path) x \<longleftrightarrow> node_valid s k r \<and>
        (\<exists>e. edge_valid s (k, r) (''contact_point'', e) \<and> node_valid s ''contact_point'' e
          \<and> endpoint_on s tr (''contact_point'', e) t i \<and> ref = e \<and> p = path @ [e])"
    proof -
      have "\<not> endpoint_on s tr (k, r) t i" using 2 ends [of k r] by auto
      moreover have "edge_valid s (k, r) (k', r') \<Longrightarrow> k' = ''contact_point''" for k' r'
        using 2 edge_from [of s k r k' r'] by simp
      ultimately have "leads_to s tr (k, r, path) x \<longleftrightarrow> node_valid s k r \<and>
          (\<exists>e. edge_valid s (k, r) (''contact_point'', e)
             \<and> leads_to s tr (''contact_point'', e, path @ [e]) (t, i, ref, p))"
        unfolding x by (subst leads_to_unfold) blast
      then show ?thesis unfolding cp by blast
    qed
    with 2 show ?thesis unfolding x kids emits_iff [OF ok run] by auto
  next
    case 3
    have no: "\<not> endpoint_on s tr (k, r) t i" using 3 ends [of k r] by auto
    have "k \<noteq> ''destination''" "k \<noteq> ''recipient''" using 3 by auto
    then have ems: "(t, i, ref, p) \<notin> set ems" by (simp add: emits_iff [OF ok run])
    show ?thesis
      unfolding x kids leads_to_unfold [of s tr k r path] using 3 no ems by simp
  qed
qed

lemma expand_kinds:
  assumes "directory_ok s" and "expand s tr (k, r, path) = Inr (ems, kids)"
    and "(k', r', p') \<in> set kids"
  shows "k' \<in> SEARCH_KINDS"
  using kids_iff [OF assms(1,2), of k' r' p'] assms(3) edge_from [of s k r k' r']
  by (auto simp: SEARCH_KINDS_def)

lemma walk_iff:
  assumes "directory_ok s" and "walk s tr stack acc = Inr res"
    and "\<And>k r p. (k, r, p) \<in> set stack \<Longrightarrow> k \<in> SEARCH_KINDS"
  shows "x \<in> set res \<longleftrightarrow> x \<in> set acc \<or> (\<exists>e\<in>set stack. leads_to s tr e x)"
  using assms
proof (induction s tr stack acc rule: walk.induct)
  case (2 s tr e stack acc)
  obtain k r path where e: "e = (k, r, path)" by (cases e)
  from 2(3) obtain ems kids where run: "expand s tr (k, r, path) = Inr (ems, kids)"
      and rest: "walk s tr (rev kids @ stack) (acc @ ems) = Inr res"
    by (auto simp: e split: sum.splits prod.splits)
  have k: "k \<in> SEARCH_KINDS" using 2(4) [of k r path] by (simp add: e)
  have "x \<in> set res \<longleftrightarrow> x \<in> set (acc @ ems) \<or> (\<exists>e\<in>set (rev kids @ stack). leads_to s tr e x)"
    using 2(1) [of "(ems, kids)" ems kids] run rest 2(2) 2(4) expand_kinds [OF 2(2) run]
    by (fastforce simp: e)
  then show ?case
    using expand_leads [OF 2(2) run k, of x] by (auto simp: e)
qed simp

section \<open>Paths\<close>

lemma node_valid_kind:
  assumes "directory_ok s" and "node_valid s k r"
  shows "kind_of r = Inr k"
  using assms by (auto simp: directory_defs node_valid_def list_ex_iff list_all_iff split: if_splits)

lemma nodes_of_path:
  assumes "list_all (\<lambda>(k, r). kind_of r = Inr k) nodes"
  shows "res_each (\<lambda>ref. res_bind (kind_of ref) (\<lambda>k. Inr (k, ref))) (map snd nodes) = Inr nodes"
  using assms by (induction nodes) (auto simp: res_bind_def)

lemma res_each_nodes:
  "res_each (\<lambda>ref. res_bind (kind_of ref) (\<lambda>k. Inr (k, ref))) path = Inr nodes \<Longrightarrow> map snd nodes = path"
  by (induction path arbitrary: nodes) auto

definition wanted_endpoint :: "comms_db \<Rightarrow> string list \<Rightarrow> string \<Rightarrow> bool" where
  "wanted_endpoint s tr ref \<longleftrightarrow>
     (list_ex (\<lambda>d. dst_ref d = ref) (destinations s) \<and> ''telegram'' \<in> set tr) \<or>
     list_ex (\<lambda>c. cp_ref c = ref \<and> cp_transport c \<in> set tr) (contact_points s)"

lemma leads_to_valid_path:
  assumes ok: "directory_ok s" and r: "kind_of r = Inr k"
  shows "(\<exists>t i ref. leads_to s tr (k, r, [r]) (t, i, ref, p)) \<longleftrightarrow>
    path_is_valid s p \<and> p \<noteq> [] \<and> hd p = r \<and> wanted_endpoint s tr (last p)"
  (is "?L \<longleftrightarrow> ?R")
proof
  assume ?L
  then obtain t i rest where chain: "live_chain s tr ((k, r) # rest) t i" and p: "p = r # map snd rest"
    by (auto simp: leads_to_def)
  let ?nodes = "(k, r) # rest"
  have ps: "p = map snd ?nodes" using p by simp
  have kinds: "list_all (\<lambda>(k, r). kind_of r = Inr k) ?nodes"
    using chain node_valid_kind [OF ok] unfolding live_chain_def list_all_iff by blast
  have nodes: "res_each (\<lambda>ref. res_bind (kind_of ref) (\<lambda>k. Inr (k, ref))) p = Inr ?nodes"
    unfolding ps by (rule nodes_of_path) (rule kinds)
  have "snd (last ?nodes) = last p" unfolding ps by (rule last_map [symmetric]) simp
  moreover have ep: "endpoint_on s tr (last ?nodes) t i" using chain by (simp add: live_chain_def)
  ultimately have "wanted_endpoint s tr (last p)"
    by (auto simp: endpoint_on_def wanted_endpoint_def list_ex_iff simp del: last.simps)
  moreover have "fst (last ?nodes) \<in> {''destination'', ''contact_point''}"
    using ep by (auto simp: endpoint_on_def simp del: last.simps)
  ultimately show ?R
    using chain nodes p by (simp add: live_chain_def path_is_valid_def del: last.simps res_each.simps)
next
  assume R: ?R
  then obtain nodes where nodes: "res_each (\<lambda>ref. res_bind (kind_of ref) (\<lambda>k. Inr (k, ref))) p = Inr nodes"
    and ends: "fst (last nodes) \<in> {''destination'', ''contact_point''}"
    and valid: "list_all (\<lambda>(k, r). node_valid s k r) nodes"
      "list_all (\<lambda>(a, b). edge_valid s a b) (pairwise nodes)"
    by (auto simp: path_is_valid_def split: sum.splits)
  note ps = res_each_nodes [OF nodes]
  with R obtain n rest where n: "nodes = n # rest" by (cases nodes) auto
  have "n = (k, r)"
    using R ps n nodes r by (cases p) auto
  have lastp: "snd (last nodes) = last p" using ps n by (metis last_map list.discI)
  have "last nodes \<in> set nodes" using n by simp
  then have nv: "node_valid s (fst (last nodes)) (last p)"
    using valid(1) lastp by (auto simp: list_all_iff split_beta)
  have dk: "d \<in> set (destinations s) \<Longrightarrow> kind_of (dst_ref d) = Inr ''destination''" for d
    using ok by (auto simp: directory_defs list_all_iff)
  have ck: "c \<in> set (contact_points s) \<Longrightarrow> kind_of (cp_ref c) = Inr ''contact_point''" for c
    using ok by (auto simp: directory_defs list_all_iff)
  have wanted: "wanted_endpoint s tr (last p)" using R by simp
  have "\<exists>t i. endpoint_on s tr (last nodes) t i"
    using ends wanted node_valid_kind [OF ok nv] lastp dk ck
    unfolding wanted_endpoint_def endpoint_on_def list_ex_iff by fastforce
  then obtain t i where "live_chain s tr ((k, r) # rest) t i"
    using valid \<open>n = (k, r)\<close> n by (auto simp: live_chain_def)
  moreover have "p = [r] @ map snd rest" using ps n \<open>n = (k, r)\<close> by simp
  ultimately show ?L unfolding leads_to_def prod.case by blast
qed

section \<open>Resolution\<close>

text \<open>A ref the operator selected.\<close>

definition targeted :: "targets \<Rightarrow> string \<Rightarrow> bool" where
  "targeted tg r \<longleftrightarrow> list_ex (\<lambda>(key, kind). case map_of tg key of None \<Rightarrow> False | Some v \<Rightarrow> r \<in> set v) TARGET_KINDS"

lemma check_target_Inr:
  "check_target s kind ref = Inr y \<Longrightarrow> y = (kind, ref) \<and> kind_of ref = Inr kind"
  by (auto simp: check_target_def check_Inr split: sum.splits if_splits)

lemma check_targets_sound:
  assumes "check_targets s tg = Inr found"
  shows "(k, r) \<in> set found \<Longrightarrow> kind_of r = Inr k \<and> k \<in> SEARCH_KINDS"
    and "(\<exists>k. (k, r) \<in> set found) \<longleftrightarrow> targeted tg r"
proof -
  define vals where "vals = (\<lambda>key. case map_of tg key of None \<Rightarrow> [] | Some v \<Rightarrow> v)"
  from assms obtain fs where fs: "res_each (\<lambda>(key, kind).
       res_each (check_target s kind) (vals key)) TARGET_KINDS = Inr fs"
    and found: "set found = set (concat fs)"
    by (auto simp: check_targets_def vals_def split: if_splits)
  have each: "res_each (check_target s kind) vs = Inr ys \<Longrightarrow> ys = map (Pair kind) vs
      \<and> list_all (\<lambda>r. kind_of r = Inr kind) vs" for kind vs ys
    by (induction vs arbitrary: ys) (auto dest!: check_target_Inr)
  have l: "list_all2 (\<lambda>(key, kind) ys. ys = map (Pair kind) (vals key)
      \<and> list_all (\<lambda>r. kind_of r = Inr kind) (vals key)) TARGET_KINDS fs"
    using res_each_Inr [OF fs] by (rule list_all2_mono) (auto dest: each)
  have mem: "(k, r) \<in> set found \<longleftrightarrow>
      (\<exists>key. (key, k) \<in> set TARGET_KINDS \<and> r \<in> set (vals key) \<and> kind_of r = Inr k)" for k r
  proof -
    show ?thesis
    proof
      assume "(k, r) \<in> set found"
      then obtain ys where "ys \<in> set fs" "(k, r) \<in> set ys" unfolding found by auto
      moreover obtain key kind where "(key, kind) \<in> set TARGET_KINDS" "ys = map (Pair kind) (vals key)"
          "list_all (\<lambda>r. kind_of r = Inr kind) (vals key)"
        using list_all2_in_set2 [OF l \<open>ys \<in> set fs\<close>] by auto
      ultimately show "\<exists>key. (key, k) \<in> set TARGET_KINDS \<and> r \<in> set (vals key) \<and> kind_of r = Inr k"
        by (intro exI [of _ key]) (auto simp: list_all_iff)
    next
      assume "\<exists>key. (key, k) \<in> set TARGET_KINDS \<and> r \<in> set (vals key) \<and> kind_of r = Inr k"
      then obtain key where key: "(key, k) \<in> set TARGET_KINDS" "r \<in> set (vals key)" by blast
      have "map (Pair k) (vals key) \<in> set fs" using list_all2_in_set1 [OF l key(1)] by auto
      moreover have "(k, r) \<in> set (map (Pair k) (vals key))" using key(2) by simp
      ultimately show "(k, r) \<in> set found" unfolding found set_concat by blast
    qed
  qed
  show "(k, r) \<in> set found \<Longrightarrow> kind_of r = Inr k \<and> k \<in> SEARCH_KINDS"
    by (auto simp: mem SEARCH_KINDS_def TARGET_KINDS_def)
  have kinds: "(key, kind) \<in> set TARGET_KINDS \<Longrightarrow> r \<in> set (vals key) \<Longrightarrow> kind_of r = Inr kind" for key kind
    using list_all2_in_set1 [OF l] by (auto simp: list_all_iff)
  have "targeted tg r \<longleftrightarrow> (\<exists>key kind. (key, kind) \<in> set TARGET_KINDS \<and> r \<in> set (vals key))"
  proof -
    have "(case map_of tg key of None \<Rightarrow> False | Some v \<Rightarrow> r \<in> set v) \<longleftrightarrow> r \<in> set (vals key)" for key
      by (cases "map_of tg key") (simp_all add: vals_def)
    then show ?thesis by (auto simp: targeted_def list_ex_iff)
  qed
  with kinds mem show "(\<exists>k. (k, r) \<in> set found) \<longleftrightarrow> targeted tg r" by blast
qed

definition origin_paths :: "candidate list \<Rightarrow> string list set" where
  "origin_paths cs = (\<Union>c\<in>set cs. o_path ` set (c_origins c))"

lemma candidate_of_origins:
  "o_path ` set (c_origins (candidate_of ems key)) = {p. \<exists>e. (fst key, snd key, e, p) \<in> set ems}"
  by (cases key) (force simp: candidate_of_def Let_def image_iff)

lemma grouped_paths:
  "origin_paths (map (candidate_of ems) (sort (remdups (map (\<lambda>(t, i, _). (t, i)) ems))))
     = (\<lambda>(_, _, _, p). p) ` set ems"
proof -
  have "origin_paths (map (candidate_of ems) (sort (remdups (map (\<lambda>(t, i, _). (t, i)) ems))))
      = (\<Union>key\<in>(\<lambda>(t, i, _). (t, i)) ` set ems. {p. \<exists>e. (fst key, snd key, e, p) \<in> set ems})"
    by (simp add: origin_paths_def candidate_of_origins)
  also have "\<dots> = (\<lambda>(_, _, _, p). p) ` set ems" by force
  finally show ?thesis .
qed

lemma walks_iff:
  assumes ok: "directory_ok s" and found: "check_targets s tg = Inr found"
    and walks: "res_each (\<lambda>(kind, ref). walk s tr [(kind, ref, [ref])] []) found = Inr emss"
  shows "x \<in> set (concat emss) \<longleftrightarrow> (\<exists>(k, r)\<in>set found. leads_to s tr (k, r, [r]) x)"
proof -
  have each: "x \<in> set ems \<longleftrightarrow> leads_to s tr (k, r, [r]) x"
    if "walk s tr [(k, r, [r])] [] = Inr ems" "(k, r) \<in> set found" for k r ems
    using walk_iff [OF ok that(1)] check_targets_sound(1) [OF found that(2)] by auto
  show ?thesis
  proof
    assume "x \<in> set (concat emss)"
    then obtain ems where "ems \<in> set emss" "x \<in> set ems" by auto
    moreover obtain k r where "(k, r) \<in> set found" "walk s tr [(k, r, [r])] [] = Inr ems"
      using list_all2_in_set2 [OF res_each_Inr [OF walks] \<open>ems \<in> set emss\<close>] by (auto simp del: walk.simps)
    ultimately show "\<exists>(k, r)\<in>set found. leads_to s tr (k, r, [r]) x" using each by blast
  next
    assume "\<exists>(k, r)\<in>set found. leads_to s tr (k, r, [r]) x"
    then obtain k r where kr: "(k, r) \<in> set found" "leads_to s tr (k, r, [r]) x" by auto
    obtain ems where "ems \<in> set emss" "walk s tr [(k, r, [r])] [] = Inr ems"
      using list_all2_in_set1 [OF res_each_Inr [OF walks] kr(1)] by (auto simp del: walk.simps)
    with each kr have "x \<in> set ems" by blast
    with \<open>ems \<in> set emss\<close> show "x \<in> set (concat emss)" by auto
  qed
qed

lemma found_paths:
  assumes ok: "directory_ok s" and found: "check_targets s tg = Inr found"
  shows "(\<exists>(k, r)\<in>set found. \<exists>t i e. leads_to s tr (k, r, [r]) (t, i, e, p)) \<longleftrightarrow>
    path_is_valid s p \<and> targeted tg (hd p) \<and> wanted_endpoint s tr (last p)"
proof -
  have key: "(\<exists>t i e. leads_to s tr (k, r, [r]) (t, i, e, p)) \<longleftrightarrow>
      path_is_valid s p \<and> p \<noteq> [] \<and> hd p = r \<and> wanted_endpoint s tr (last p)"
    if "(k, r) \<in> set found" for k r
    by (rule leads_to_valid_path [OF ok]) (use check_targets_sound(1) [OF found that] in simp)
  have "(\<exists>(k, r)\<in>set found. \<exists>t i e. leads_to s tr (k, r, [r]) (t, i, e, p)) \<longleftrightarrow>
      (\<exists>(k, r)\<in>set found. path_is_valid s p \<and> p \<noteq> [] \<and> hd p = r \<and> wanted_endpoint s tr (last p))"
    by (intro bex_cong refl) (clarsimp simp: key)
  also have "\<dots> \<longleftrightarrow> (\<exists>k. (k, hd p) \<in> set found) \<and> path_is_valid s p \<and> wanted_endpoint s tr (last p)"
    by (auto simp: path_is_valid_def)
  finally show ?thesis
    unfolding check_targets_sound(2) [OF found] by auto
qed


text \<open>A directory with one location, one destination in it and an audience that holds the location.\<close>

definition small_ref :: "string \<Rightarrow> string" where
  "small_ref p = p @ ''_'' @ replicate 26 (CHR ''a'')"

definition small_directory :: comms_db where
  "small_directory = empty_db\<lparr>
     locations := [\<lparr>loc_id = 1, loc_ref = small_ref ''loc'', loc_name = ''l'', loc_enabled = True,
       loc_created_at = demo_stamp\<rparr>],
     delivery_identities := [\<lparr>idn_id = 1, idn_transport = ''telegram'', idn_identity = ''1001''\<rparr>],
     destinations := [\<lparr>dst_id = 1, dst_ref = small_ref ''dst'', dst_location_id = 1, dst_transport = ''telegram'',
       dst_platform_identity = ''1001'', dst_identity_id = 1, dst_display_name = ''d'', dst_capabilities = JObj [],
       dst_enabled = True, dst_created_at = demo_stamp, dst_disabled_at = None\<rparr>],
     audiences := [\<lparr>aud_id = 1, aud_ref = small_ref ''cau'', aud_name = ''a'', aud_created_at = demo_stamp\<rparr>],
     audience_members := [\<lparr>am_id = 1, am_audience_id = 1, am_member = MLocation 1\<rparr>]\<rparr>"

definition small_targets :: targets where
  "small_targets = [(''audiences'', [small_ref ''cau''])]"

lemma small_directory_ok: "directory_ok small_directory"
  by code_simp

lemma small_resolution:
  "resolve_targets small_directory small_targets [''telegram''] =
     Inr [\<lparr>c_transport = ''telegram'', c_identity_id = 1, c_endpoint_refs = [small_ref ''dst''],
       c_origins = [\<lparr>o_endpoint_ref = small_ref ''dst'', o_path = [small_ref ''cau'', small_ref ''loc'', small_ref ''dst'']\<rparr>]\<rparr>]"
  by code_simp


text \<open>The same directory with a WhatsApp group in the place of the destination.\<close>

definition whatsapp_group_directory :: comms_db where
  "whatsapp_group_directory = small_directory\<lparr>
     delivery_identities := [\<lparr>idn_id = 1, idn_transport = ''whatsapp'', idn_identity = ''group:1''\<rparr>],
     destinations := map (\<lambda>d. d\<lparr>dst_transport := ''whatsapp'', dst_platform_identity := ''group:1''\<rparr>)
       (destinations small_directory)\<rparr>"


end
