(* ===== verification/Comms_Directory_Props.thy ===== *)
theory Comms_Directory_Props
  imports Comms_Directory Comms_Refs_Props Comms_Resolve_Props
begin

text \<open>
  The directory's invariant and what follows from it. Every directory operation keeps references and
  ids unique, the endpoints' identities and parents present, at most one enabled endpoint per delivery
  identity, and the audience graph acyclic; therefore resolving targets never fails on a cycle or on a
  missing row. An opt-out is never taken back.
\<close>

section \<open>The search for cycles\<close>

lemma set_successors: "set (successors edges n) = {m. (n, m) \<in> set edges}"
  by (force simp: successors_def)

text \<open>A path from an expanded node to a node not expanded goes through the stack.\<close>

lemma leaves_seen:
  assumes "(n, target) \<in> R\<^sup>*" and "n \<in> seen" and "target \<notin> seen"
    and "\<And>a b. a \<in> seen \<Longrightarrow> (a, b) \<in> R \<Longrightarrow> b \<in> seen \<union> stack"
  shows "\<exists>m\<in>stack. (m, target) \<in> R\<^sup>*"
  using assms(1,2)
proof (induction rule: converse_rtrancl_induct)
  case base
  then show ?case using assms(3) by simp
next
  case (step y z)
  with assms(4) [of y z] show ?case by blast
qed

lemma reaches_loop_correct:
  assumes "target \<notin> set seen"
    and "\<And>a b. a \<in> set seen \<Longrightarrow> (a, b) \<in> set edges \<Longrightarrow> b \<in> set seen \<union> set stack"
  shows "reaches_loop edges target seen stack \<longleftrightarrow> (\<exists>n\<in>set stack. (n, target) \<in> (set edges)\<^sup>*)"
  using assms
proof (induction edges target seen stack rule: reaches_loop.induct)
  case (2 edges target seen node stack)
  consider "node = target" | "node \<noteq> target" "node \<in> set seen" | "node \<noteq> target" "node \<notin> set seen"
    by blast
  then show ?case
  proof cases
    case 2
    have closed: "b \<in> set seen \<union> set stack" if "a \<in> set seen" "(a, b) \<in> set edges" for a b
      using "2.prems"(2) [OF that] \<open>node \<in> set seen\<close> by auto
    have "reaches_loop edges target seen stack \<longleftrightarrow> (\<exists>n\<in>set stack. (n, target) \<in> (set edges)\<^sup>*)"
      using "2.IH"(1) [OF \<open>node \<noteq> target\<close> \<open>node \<in> set seen\<close> "2.prems"(1) closed] .
    then show ?thesis
      using \<open>node \<noteq> target\<close> \<open>node \<in> set seen\<close> leaves_seen [OF _ _ "2.prems"(1), of node "set edges" "set stack"]
        closed by auto
  next
    case 3
    have closed: "b \<in> set (node # seen) \<union> set (rev (successors edges node) @ stack)"
      if "a \<in> set (node # seen)" "(a, b) \<in> set edges" for a b
      using that "2.prems"(2) [of a b] by (auto simp: set_successors)
    have "reaches_loop edges target (node # seen) (rev (successors edges node) @ stack)
        \<longleftrightarrow> (\<exists>n\<in>set (rev (successors edges node) @ stack). (n, target) \<in> (set edges)\<^sup>*)"
      by (rule "2.IH"(2)) (use 3 "2.prems"(1) closed in simp_all)
    moreover have "(node, target) \<in> (set edges)\<^sup>*
        \<longleftrightarrow> (\<exists>m. (node, m) \<in> set edges \<and> (m, target) \<in> (set edges)\<^sup>*)"
      using 3(1) by (metis converse_rtranclE converse_rtrancl_into_rtrancl)
    ultimately show ?thesis using 3 by (auto simp: set_successors)
  qed simp
qed simp

lemma reaches_correct: "reaches s a b \<longleftrightarrow> (a, b) \<in> (set (audience_edges s))\<^sup>*"
  unfolding reaches_def by (subst reaches_loop_correct) simp_all

section \<open>The invariant\<close>

definition unique_keys :: "comms_db \<Rightarrow> bool" where
  "unique_keys s \<longleftrightarrow>
     distinct (map loc_id (locations s)) \<and> distinct (map aud_id (audiences s)) \<and>
     distinct (map idn_id (delivery_identities s)) \<and>
     distinct (map (\<lambda>i. (idn_transport i, idn_identity i)) (delivery_identities s)) \<and>
     distinct (map dst_id (destinations s)) \<and> destinations_unique (destinations s) \<and>
     distinct (map cp_id (contact_points s)) \<and> contacts_unique (contact_points s) \<and>
     distinct (location_members s)"

text \<open>The rows each table references exist, for given rows of the referencing tables.\<close>

definition foreign_keys ::
  "comms_db \<Rightarrow> destination_row list \<Rightarrow> contact_row list \<Rightarrow> (nat \<times> nat) list \<Rightarrow> audience_member_row list \<Rightarrow> bool" where
  "foreign_keys s ds cs ms ams \<longleftrightarrow>
     list_all (\<lambda>d. dst_location_id d \<in> loc_id ` set (locations s)
                  \<and> identity_matches (dst_identity_id d) (dst_transport d) s) ds \<and>
     list_all (\<lambda>c. cp_recipient_id c \<in> rcp_id ` set (recipients s)
                  \<and> identity_matches (cp_identity_id c) (cp_transport c) s) cs \<and>
     list_all (\<lambda>(l, r). l \<in> loc_id ` set (locations s) \<and> r \<in> rcp_id ` set (recipients s)) ms \<and>
     list_all (\<lambda>m. am_audience_id m \<in> aud_id ` set (audiences s) \<and> member_exists s (am_member m)) ams"

definition groups_ok :: "destination_row list \<Rightarrow> group_row list \<Rightarrow> bool" where
  "groups_ok ds gs \<longleftrightarrow>
     refs_ok ''group'' grp_ref gs \<and> distinct (map grp_destination_id gs) \<and>
     list_all (\<lambda>g. list_ex (\<lambda>d. dst_id d = grp_destination_id g \<and> is_group_identity (dst_platform_identity d)) ds) gs"

definition directory_inv :: "comms_db \<Rightarrow> bool" where
  "directory_inv s \<longleftrightarrow> directory_ok s \<and> unique_keys s
     \<and> foreign_keys s (destinations s) (contact_points s) (location_members s) (audience_members s)
     \<and> groups_ok (destinations s) (groups s) \<and> acyclic (set (audience_edges s))"

text \<open>The tables the invariant reads.\<close>

definition same_directory :: "comms_db \<Rightarrow> comms_db \<Rightarrow> bool" where
  "same_directory s t \<longleftrightarrow> locations t = locations s \<and> recipients t = recipients s
     \<and> delivery_identities t = delivery_identities s \<and> destinations t = destinations s
     \<and> contact_points t = contact_points s \<and> location_members t = location_members s
     \<and> audiences t = audiences s \<and> audience_members t = audience_members s \<and> groups t = groups s"

section \<open>Primitive writes\<close>

text \<open>The tables that are referenced only gain rows.\<close>

definition directory_grows :: "comms_db \<Rightarrow> comms_db \<Rightarrow> bool" where
  "directory_grows s t \<longleftrightarrow>
     loc_id ` set (locations s) \<subseteq> loc_id ` set (locations t) \<and>
     rcp_id ` set (recipients s) \<subseteq> rcp_id ` set (recipients t) \<and>
     aud_id ` set (audiences s) \<subseteq> aud_id ` set (audiences t) \<and>
     dst_id ` set (destinations s) \<subseteq> dst_id ` set (destinations t) \<and>
     set (delivery_identities s) \<subseteq> set (delivery_identities t)"

lemma identity_matches_grows:
  "directory_grows s t \<Longrightarrow> identity_matches i tr s \<Longrightarrow> identity_matches i tr t"
  by (auto simp: identity_matches_def directory_grows_def list_ex_iff)

lemma member_exists_grows: "directory_grows s t \<Longrightarrow> member_exists s m \<Longrightarrow> member_exists t m"
  by (cases m) (auto simp: member_exists_def directory_grows_def)

lemma foreign_keys_grow:
  "directory_grows s t \<Longrightarrow> foreign_keys s ds cs ms ams \<Longrightarrow> foreign_keys t ds cs ms ams"
  using identity_matches_grows [of s t] member_exists_grows [of s t]
  by (force simp: foreign_keys_def list_all_iff directory_grows_def)

lemma distinct_next_id:
  "distinct (map key rows) \<Longrightarrow> key r = next_id key rows \<Longrightarrow> distinct (map key (rows @ [r]))"
  using next_id_fresh [of key rows] by simp

lemma refs_ok_append:
  "refs_ok kind ref rows \<Longrightarrow> ref r \<notin> ref ` set rows \<Longrightarrow> kind_of (ref r) = Inr kind
   \<Longrightarrow> refs_ok kind ref (rows @ [r])"
  by (simp add: refs_ok_def)

text \<open>A key column that an UPDATE does not touch.\<close>

lemma refs_ok_column:
  "refs_ok kind ref rows \<longleftrightarrow> distinct (map ref rows) \<and> list_all (\<lambda>x. kind_of x = Inr kind) (map ref rows)"
  by (simp add: refs_ok_def list.pred_map comp_def)

lemma refs_ok_update:
  "(\<And>r. p r \<Longrightarrow> ref (f r) = ref r) \<Longrightarrow> refs_ok kind ref (update_where p f rows) = refs_ok kind ref rows"
  by (simp add: refs_ok_column)

lemma list_ex_update_where:
  "(\<And>r. P (f r) = P r) \<Longrightarrow> list_ex P (update_where p f rows) = list_ex P rows"
  by (induction rows) (simp_all add: update_where_def)

lemma foreign_keys_parts:
  "foreign_keys s (ds @ [d]) cs ms ams \<longleftrightarrow> foreign_keys s ds cs ms ams
     \<and> dst_location_id d \<in> loc_id ` set (locations s) \<and> identity_matches (dst_identity_id d) (dst_transport d) s"
  "foreign_keys s ds (cs @ [c]) ms ams \<longleftrightarrow> foreign_keys s ds cs ms ams
     \<and> cp_recipient_id c \<in> rcp_id ` set (recipients s) \<and> identity_matches (cp_identity_id c) (cp_transport c) s"
  "foreign_keys s ds cs (ms @ [(l, r)]) ams \<longleftrightarrow> foreign_keys s ds cs ms ams
     \<and> l \<in> loc_id ` set (locations s) \<and> r \<in> rcp_id ` set (recipients s)"
  "foreign_keys s ds cs ms (ams @ [m]) \<longleftrightarrow> foreign_keys s ds cs ms ams
     \<and> am_audience_id m \<in> aud_id ` set (audiences s) \<and> member_exists s (am_member m)"
  by (auto simp: foreign_keys_def)

lemmas directory_parts = directory_inv_def directory_ok_def unique_keys_def

lemma edges_cong: "audience_members t = audience_members s \<Longrightarrow> audience_edges t = audience_edges s"
  by (simp add: audience_edges_def)

lemma insert_location_inv:
  assumes "insert_location ref name stamp s = Inr (x, t)" and "kind_of ref = Inr ''location''" and "directory_inv s"
  shows "directory_inv t"
proof -
  from assms(1) obtain r where t: "t = s\<lparr>locations := locations s @ [r]\<rparr>" and r: "loc_ref r = ref"
    "loc_id r = next_id loc_id (locations s)" "ref \<notin> loc_ref ` set (locations s)"
    by (auto simp: insert_location_def violates_def split: if_splits)
  have g: "directory_grows s t" by (auto simp: t directory_grows_def)
  have e: "audience_edges t = audience_edges s" by (rule edges_cong) (simp add: t)
  have "unique_keys t" "directory_ok t"
    using assms(2,3) r refs_ok_append [of "''location''" loc_ref "locations s" r]
      distinct_next_id [of loc_id "locations s" r]
    by (simp_all add: t directory_parts del: map_append distinct_append)
  then show ?thesis
    using assms(3) foreign_keys_grow [OF g] by (simp add: directory_inv_def e) (simp add: t)
qed

text \<open>The other inserts are alike: a fresh ref of its kind, the next id, parents that only grow.\<close>

lemma insert_recipient_inv:
  assumes "insert_recipient ref label stamp s = Inr (x, t)" and "kind_of ref = Inr ''recipient''" and "directory_inv s"
  shows "directory_inv t"
proof -
  from assms(1) obtain r where t: "t = s\<lparr>recipients := recipients s @ [r]\<rparr>" and r: "rcp_ref r = ref"
    "rcp_id r = next_id rcp_id (recipients s)" "ref \<notin> rcp_ref ` set (recipients s)"
    by (auto simp: insert_recipient_def violates_def split: if_splits)
  have g: "directory_grows s t" by (auto simp: t directory_grows_def)
  have e: "audience_edges t = audience_edges s" by (rule edges_cong) (simp add: t)
  have "unique_keys t" "directory_ok t"
    using assms(2,3) r refs_ok_append [of "''recipient''" rcp_ref "recipients s" r]
      distinct_next_id [of rcp_id "recipients s" r]
    by (simp_all add: t directory_parts del: map_append distinct_append)
  then show ?thesis
    using assms(3) foreign_keys_grow [OF g] by (simp add: directory_inv_def e) (simp add: t)
qed

lemma insert_audience_inv:
  assumes "insert_audience ref name stamp s = Inr (x, t)" and "kind_of ref = Inr ''audience''" and "directory_inv s"
  shows "directory_inv t"
proof -
  from assms(1) obtain r where t: "t = s\<lparr>audiences := audiences s @ [r]\<rparr>" and r: "aud_ref r = ref"
    "aud_id r = next_id aud_id (audiences s)" "ref \<notin> aud_ref ` set (audiences s)"
    by (auto simp: insert_audience_def violates_def split: if_splits)
  have g: "directory_grows s t" by (auto simp: t directory_grows_def)
  have e: "audience_edges t = audience_edges s" by (rule edges_cong) (simp add: t)
  have "unique_keys t" "directory_ok t"
    using assms(2,3) r refs_ok_append [of "''audience''" aud_ref "audiences s" r]
      distinct_next_id [of aud_id "audiences s" r]
    by (simp_all add: t directory_parts del: map_append distinct_append)
  then show ?thesis
    using assms(3) foreign_keys_grow [OF g] by (simp add: directory_inv_def e) (simp add: t)
qed

lemma insert_identity_inv:
  assumes "insert_identity transport v s = Inr (x, t)" and "directory_inv s"
  shows "directory_inv t"
proof -
  from assms(1) obtain r where t: "t = s\<lparr>delivery_identities := delivery_identities s @ [r]\<rparr>"
    and r: "idn_id r = next_id idn_id (delivery_identities s)"
      "(idn_transport r, idn_identity r) \<notin> (\<lambda>i. (idn_transport i, idn_identity i)) ` set (delivery_identities s)"
    by (auto simp: insert_identity_def violates_def Let_def split: if_splits)
  have g: "directory_grows s t" by (auto simp: t directory_grows_def)
  have e: "audience_edges t = audience_edges s" by (rule edges_cong) (simp add: t)
  have "distinct (map (\<lambda>i. (idn_transport i, idn_identity i)) (delivery_identities s @ [r]))"
    using assms(2) r(2) by (simp add: directory_parts)
  then have "unique_keys t" "directory_ok t"
    using assms(2) r(1) distinct_next_id [of idn_id "delivery_identities s" r]
    by (simp_all add: t directory_parts del: map_append distinct_append)
  then show ?thesis
    using assms(2) foreign_keys_grow [OF g] by (simp add: directory_inv_def e) (simp add: t)
qed

lemma groups_ok_grow: "set ds \<subseteq> set ds' \<Longrightarrow> groups_ok ds gs \<Longrightarrow> groups_ok ds' gs"
  unfolding groups_ok_def list_all_iff list_ex_iff by blast

lemma insert_destination_inv:
  assumes "insert_destination d s = Inr (x, t)" and "kind_of (dst_ref d) = Inr ''destination''"
    and "dst_id d = next_id dst_id (destinations s)" and "directory_inv s"
  shows "directory_inv t"
proof -
  from assms(1) have t: "t = s\<lparr>destinations := destinations s @ [d]\<rparr>" and d: "dst_ref d \<notin> dst_ref ` set (destinations s)"
    "dst_location_id d \<in> loc_id ` set (locations s)" "identity_matches (dst_identity_id d) (dst_transport d) s"
    "destinations_unique (destinations s @ [d])"
    by (auto simp: insert_destination_def violates_def split: if_splits)
  have g: "directory_grows s t" by (auto simp: t directory_grows_def)
  have e: "audience_edges t = audience_edges s" by (rule edges_cong) (simp add: t)
  have "unique_keys t" "directory_ok t"
    using assms(2,3,4) d refs_ok_append [of "''destination''" dst_ref "destinations s" d]
      distinct_next_id [of dst_id "destinations s" d]
    by (simp_all add: t directory_parts del: map_append distinct_append)
  moreover have "foreign_keys t (destinations s @ [d]) (contact_points s) (location_members s) (audience_members s)"
    using assms(4) d by (intro foreign_keys_grow [OF g]) (simp add: foreign_keys_parts directory_inv_def)
  moreover have "groups_ok (destinations s @ [d]) (groups s)"
    using assms(4) by (auto simp: directory_inv_def intro: groups_ok_grow [of "destinations s"])
  ultimately show ?thesis using assms(4) by (simp add: directory_inv_def e) (simp add: t)
qed

lemma insert_contact_point_inv:
  assumes "insert_contact_point c s = Inr (x, t)" and "kind_of (cp_ref c) = Inr ''contact_point''"
    and "cp_id c = next_id cp_id (contact_points s)" and "directory_inv s"
  shows "directory_inv t"
proof -
  from assms(1) have t: "t = s\<lparr>contact_points := contact_points s @ [c]\<rparr>" and c: "cp_ref c \<notin> cp_ref ` set (contact_points s)"
    "cp_recipient_id c \<in> rcp_id ` set (recipients s)" "identity_matches (cp_identity_id c) (cp_transport c) s"
    "contacts_unique (contact_points s @ [c])"
    by (auto simp: insert_contact_point_def violates_def split: if_splits)
  have g: "directory_grows s t" by (auto simp: t directory_grows_def)
  have e: "audience_edges t = audience_edges s" by (rule edges_cong) (simp add: t)
  have "unique_keys t" "directory_ok t"
    using assms(2,3,4) c refs_ok_append [of "''contact_point''" cp_ref "contact_points s" c]
      distinct_next_id [of cp_id "contact_points s" c]
    by (simp_all add: t directory_parts del: map_append distinct_append)
  moreover have "foreign_keys t (destinations s) (contact_points s @ [c]) (location_members s) (audience_members s)"
    using assms(4) c by (intro foreign_keys_grow [OF g]) (simp add: foreign_keys_parts directory_inv_def)
  ultimately show ?thesis using assms(4) by (simp add: directory_inv_def e) (simp add: t)
qed

lemma insert_group_inv:
  assumes "insert_group ref did stamp s = Inr (x, t)" and "kind_of ref = Inr ''group''" and "directory_inv s"
  shows "directory_inv t"
proof -
  from assms(1) obtain g where t: "t = s\<lparr>groups := groups s @ [g]\<rparr>" and g: "grp_ref g = ref" "grp_destination_id g = did"
    "ref \<notin> grp_ref ` set (groups s)" "did \<notin> grp_destination_id ` set (groups s)"
    "list_ex (\<lambda>d. dst_id d = did \<and> is_group_identity (dst_platform_identity d)) (destinations s)"
    by (auto simp: insert_group_def violates_def split: if_splits)
  have "groups_ok (destinations s) (groups s @ [g])"
    using assms(2,3) g refs_ok_append [of "''group''" grp_ref "groups s" g]
    by (simp add: groups_ok_def directory_inv_def)
  moreover have "foreign_keys t (destinations s) (contact_points s) (location_members s) (audience_members s)"
    using assms(3) by (intro foreign_keys_grow [of s t]) (simp_all add: directory_inv_def directory_grows_def t)
  moreover have "audience_edges t = audience_edges s" by (rule edges_cong) (simp add: t)
  moreover have "directory_ok t" "unique_keys t"
    using assms(3) by (simp_all add: t directory_inv_def directory_ok_def unique_keys_def)
  ultimately show ?thesis
    using assms(3) by (simp add: directory_inv_def) (simp add: t)
qed

text \<open>An UPDATE of columns that no key, reference or index reads.\<close>

lemma update_columns_inv:
  assumes "directory_inv s"
  shows "(\<And>l. loc_id (f l) = loc_id l \<and> loc_ref (f l) = loc_ref l) \<Longrightarrow>
      directory_inv (s\<lparr>locations := update_where p f (locations s)\<rparr>)"
    and "(\<And>r. rcp_id (h r) = rcp_id r \<and> rcp_ref (h r) = rcp_ref r) \<Longrightarrow>
      directory_inv (s\<lparr>recipients := update_where q h (recipients s)\<rparr>)"
    and "(\<And>a. aud_id (k a) = aud_id a \<and> aud_ref (k a) = aud_ref a) \<Longrightarrow>
      directory_inv (s\<lparr>audiences := update_where v k (audiences s)\<rparr>)"
  using assms
  by (simp_all add: directory_parts foreign_keys_def identity_matches_def member_exists_def audience_edges_def
      refs_ok_update cong: member.case_cong)

lemma update_destinations_inv:
  assumes "update_destinations p f s = Inr (x, t)" and "directory_inv s"
    and f: "\<And>d. dst_id (f d) = dst_id d \<and> dst_ref (f d) = dst_ref d \<and> dst_location_id (f d) = dst_location_id d
      \<and> dst_transport (f d) = dst_transport d \<and> dst_identity_id (f d) = dst_identity_id d
      \<and> dst_platform_identity (f d) = dst_platform_identity d"
  shows "directory_inv t"
proof -
  let ?ds = "update_where p f (destinations s)"
  from assms(1) have t: "t = s\<lparr>destinations := ?ds\<rparr>" and u: "destinations_unique ?ds"
    by (auto simp: update_destinations_def violates_def Let_def split: if_splits)
  have "foreign_keys t ?ds (contact_points s) (location_members s) (audience_members s)"
  proof (rule foreign_keys_grow [of s t])
    show "directory_grows s t" using f by (simp add: t directory_grows_def)
    show "foreign_keys s ?ds (contact_points s) (location_members s) (audience_members s)"
      using assms(2) f by (auto simp: directory_inv_def foreign_keys_def list_all_iff set_update_where)
  qed
  moreover have "groups_ok ?ds (groups s)"
  proof -
    have "list_ex (\<lambda>d. dst_id d = i \<and> is_group_identity (dst_platform_identity d)) ?ds
        = list_ex (\<lambda>d. dst_id d = i \<and> is_group_identity (dst_platform_identity d)) (destinations s)" for i
      using f by (simp add: list_ex_update_where)
    then show ?thesis using assms(2) by (simp add: directory_inv_def groups_ok_def)
  qed
  moreover have "audience_edges t = audience_edges s" by (rule edges_cong) (simp add: t)
  moreover have "directory_ok t" "unique_keys t"
    using assms(2) u f by (simp_all add: t directory_parts refs_ok_update)
  ultimately show ?thesis using assms(2) by (simp add: directory_inv_def) (simp add: t)
qed

lemma update_contact_points_inv:
  assumes "update_contact_points p f s = Inr (x, t)" and "directory_inv s"
    and f: "\<And>c. cp_id (f c) = cp_id c \<and> cp_ref (f c) = cp_ref c \<and> cp_recipient_id (f c) = cp_recipient_id c
      \<and> cp_transport (f c) = cp_transport c \<and> cp_identity_id (f c) = cp_identity_id c"
  shows "directory_inv t"
proof -
  let ?cs = "update_where p f (contact_points s)"
  from assms(1) have t: "t = s\<lparr>contact_points := ?cs\<rparr>" and u: "contacts_unique ?cs"
    by (auto simp: update_contact_points_def violates_def Let_def split: if_splits)
  have "foreign_keys t (destinations s) ?cs (location_members s) (audience_members s)"
  proof (rule foreign_keys_grow [of s t])
    show "directory_grows s t" by (simp add: t directory_grows_def)
    show "foreign_keys s (destinations s) ?cs (location_members s) (audience_members s)"
      using assms(2) f by (auto simp: directory_inv_def foreign_keys_def list_all_iff set_update_where)
  qed
  moreover have "audience_edges t = audience_edges s" by (rule edges_cong) (simp add: t)
  moreover have "directory_ok t" "unique_keys t"
    using assms(2) u f by (simp_all add: t directory_parts refs_ok_update)
  ultimately show ?thesis using assms(2) by (simp add: directory_inv_def) (simp add: t)
qed

lemma insert_location_member_inv:
  assumes "insert_location_member l r s = Inr (x, t)" and "directory_inv s"
  shows "directory_inv t"
proof (cases "(l, r) \<in> set (location_members s)")
  case True
  then show ?thesis using assms by (simp add: insert_location_member_def)
next
  case False
  with assms(1) have t: "t = s\<lparr>location_members := location_members s @ [(l, r)]\<rparr>"
    and lr: "l \<in> loc_id ` set (locations s)" "r \<in> rcp_id ` set (recipients s)"
    by (auto simp: insert_location_member_def violates_def split: if_splits)
  have "foreign_keys t (destinations s) (contact_points s) (location_members s @ [(l, r)]) (audience_members s)"
  proof (rule foreign_keys_grow [of s t])
    show "foreign_keys s (destinations s) (contact_points s) (location_members s @ [(l, r)]) (audience_members s)"
      using assms(2) lr by (simp add: foreign_keys_parts directory_inv_def)
  qed (simp add: t directory_grows_def)
  moreover have "audience_edges t = audience_edges s" by (rule edges_cong) (simp add: t)
  moreover have "directory_ok t" "unique_keys t"
    using assms(2) False by (simp_all add: t directory_parts)
  ultimately show ?thesis using assms(2) by (simp add: directory_inv_def) (simp add: t)
qed

lemma edges_append:
  "audience_edges (s\<lparr>audience_members := audience_members s @ [m]\<rparr>)
   = audience_edges s @ (case am_member m of MAudience b \<Rightarrow> [(am_audience_id m, b)] | _ \<Rightarrow> [])"
  by (simp add: audience_edges_def)

text \<open>The edge the search allows closes no cycle.\<close>

lemma insert_audience_member_inv:
  assumes "insert_audience_member aid m s = Inr (x, t)" and "directory_inv s"
    and "\<And>b. m = MAudience b \<Longrightarrow> \<not> reaches s b aid"
  shows "directory_inv t"
proof -
  from assms(1) obtain r where t: "t = s\<lparr>audience_members := audience_members s @ [r]\<rparr>"
    and r: "am_audience_id r = aid" "am_member r = m" "aid \<in> aud_id ` set (audiences s)" "member_exists s m"
    by (auto simp: insert_audience_member_def violates_def split: if_splits)
  have "foreign_keys t (destinations s) (contact_points s) (location_members s) (audience_members s @ [r])"
  proof (rule foreign_keys_grow [of s t])
    show "foreign_keys s (destinations s) (contact_points s) (location_members s) (audience_members s @ [r])"
      using assms(2) r by (simp add: foreign_keys_parts directory_inv_def)
  qed (simp add: t directory_grows_def)
  moreover have "acyclic (set (audience_edges t))"
    using assms(2,3) r unfolding t edges_append
    by (cases m) (simp_all add: directory_inv_def reaches_correct acyclic_insert)
  moreover have "directory_ok t" "unique_keys t"
    using assms(2) by (simp_all add: t directory_parts)
  ultimately show ?thesis using assms(2) by (simp add: directory_inv_def) (simp add: t)
qed

lemma remove_members_inv:
  assumes "directory_inv s"
  shows "directory_inv (s\<lparr>location_members := filter p (location_members s)\<rparr>)"
    and "directory_inv (s\<lparr>audience_members := filter q (audience_members s)\<rparr>)"
proof -
  let ?t = "s\<lparr>audience_members := filter q (audience_members s)\<rparr>"
  have "set (audience_edges ?t) \<subseteq> set (audience_edges s)"
    by (auto simp: audience_edges_def)
  then have "acyclic (set (audience_edges ?t))"
    using assms by (auto simp: directory_inv_def intro: acyclic_subset)
  then show "directory_inv ?t"
    using assms unfolding directory_inv_def
    by (simp add: directory_ok_def unique_keys_def foreign_keys_def identity_matches_def member_exists_def list_all_iff
        cong: member.case_cong)
next
  have "audience_edges (s\<lparr>location_members := filter p (location_members s)\<rparr>) = audience_edges s"
    by (rule edges_cong) simp
  then show "directory_inv (s\<lparr>location_members := filter p (location_members s)\<rparr>)"
    using assms unfolding directory_inv_def
    by (simp add: directory_ok_def unique_keys_def foreign_keys_def identity_matches_def member_exists_def list_all_iff
        cong: member.case_cong)
qed

lemma same_directory_inv: "same_directory s t \<Longrightarrow> directory_inv t = directory_inv s"
  by (simp add: same_directory_def directory_parts foreign_keys_def identity_matches_def member_exists_def
      edges_cong [of t s] cong: member.case_cong)

lemma directory_inv_draws [simp]: "directory_inv (s\<lparr>draws := n\<rparr>) = directory_inv s"
  by (rule same_directory_inv) (simp add: same_directory_def)

section \<open>Operations\<close>

lemma dir_kind_Inr: "dir_kind ref allowed s = Inr (k, t) \<longleftrightarrow> t = s \<and> kind_of ref = Inr k \<and> k \<in> set allowed"
  by (auto simp: dir_kind_def split: sum.splits)

lemma dir_id_Inr: "dir_id kind ref s = Inr (i, t) \<longleftrightarrow> t = s \<and> map_of (table_ids kind s) ref = Some i"
  by (auto simp: dir_id_def split: option.splits)

lemma refuse_second_Inr:
  "refuse_second_destination i s = Inr (x, t) \<longleftrightarrow>
     t = s \<and> \<not> list_ex (\<lambda>d. dst_identity_id d = i \<and> dst_enabled d) (destinations s)"
  "refuse_second_contact i s = Inr (x, t) \<longleftrightarrow>
     t = s \<and> \<not> list_ex (\<lambda>c. cp_identity_id c = i \<and> cp_enabled c) (contact_points s)"
  by (auto simp: refuse_second_destination_def refuse_second_contact_def tx_inr)

lemma require_tx_Inr: "require_tx s = Inr (x, t) \<longleftrightarrow> t = s \<and> in_transaction s"
  by (auto simp: require_tx_def)

lemmas directory_reads = dir_kind_Inr dir_id_Inr refuse_second_Inr require_tx_Inr

lemma enable_guards_state:
  "enable_destination_guard i s = Inr (x, t) \<Longrightarrow> t = s"
  "enable_contact_guard i s = Inr (x, t) \<Longrightarrow> t = s"
  by (auto simp: enable_destination_guard_def enable_contact_guard_def tx_inr)

lemma identity_id_inv: "identity_id tr pid f s = Inr (i, t) \<Longrightarrow> directory_inv s \<Longrightarrow> directory_inv t"
  by (auto simp: identity_id_def tx_inr split: option.splits intro: insert_identity_inv)

text \<open>Minting and the clock leave the directory as it was.\<close>

lemma group_ref_in_tx_inv: "group_ref_in_tx dref now s = Inr (g, t) \<Longrightarrow> directory_inv s \<Longrightarrow> directory_inv t"
  by (auto simp: group_ref_in_tx_def tx_inr split: option.splits sum.splits dest!: mint_ref_kind intro: insert_group_inv)

lemma add_location_inv: "add_location_in_tx name now s = Inr (r, t) \<Longrightarrow> directory_inv s \<Longrightarrow> directory_inv t"
  by (auto simp: add_location_in_tx_def tx_inr directory_reads dest!: mint_ref_kind intro: insert_location_inv)

lemma add_audience_inv: "add_audience_in_tx name now s = Inr (r, t) \<Longrightarrow> directory_inv s \<Longrightarrow> directory_inv t"
  by (auto simp: add_audience_in_tx_def tx_inr directory_reads dest!: mint_ref_kind intro: insert_audience_inv)

lemma add_recipient_inv: "add_recipient_in_tx now label s = Inr (r, t) \<Longrightarrow> directory_inv s \<Longrightarrow> directory_inv t"
  by (auto simp: add_recipient_in_tx_def tx_inr directory_reads dest!: mint_ref_kind intro: insert_recipient_inv
      split: option.splits)

lemma add_destination_inv:
  assumes "add_destination_in_tx lref tr pid name f now s = Inr (r, t)" and "directory_inv s"
  shows "directory_inv t"
proof -
  from assms(1) obtain stamp lid i did s1 s2 s3 where m: "mint_ref ''destination'' s = Inr (r, s1)"
    and i: "identity_id tr pid f s1 = Inr (i, s2)" and did: "did = next_id dst_id (destinations s2)"
    and ins: "insert_destination \<lparr>dst_id = did, dst_ref = r, dst_location_id = lid, dst_transport = tr,
         dst_platform_identity = pid, dst_identity_id = i, dst_display_name = name,
         dst_capabilities = JObj [], dst_enabled = True, dst_created_at = stamp, dst_disabled_at = None\<rparr> s2 = Inr ((), s3)"
    and fin: "t = s3 \<or> (\<exists>g. group_ref_in_tx r now s3 = Inr (g, t))"
    by (auto simp: add_destination_in_tx_def tx_inr directory_reads split: if_splits)
  have "directory_inv s2"
    using mint_ref_kind [OF m] i assms(2) by (auto intro: identity_id_inv)
  with insert_destination_inv [OF ins] mint_ref_kind [OF m] did have "directory_inv s3" by simp
  with fin show ?thesis by (auto intro: group_ref_in_tx_inv)
qed

lemma add_contact_point_run:
  assumes "add_contact_point_in_tx rref tr pid f now s = Inr (r, t)"
  obtains stamp rid i cid s1 s2 where "mint_ref ''contact_point'' s = Inr (r, s1)"
    and "identity_id tr pid f s1 = Inr (i, s2)" and "cid = next_id cp_id (contact_points s2)"
    and "\<not> list_ex (\<lambda>c. cp_identity_id c = i \<and> cp_opted_out_at c \<noteq> None) (contact_points s2)"
    and "insert_contact_point \<lparr>cp_id = cid, cp_ref = r, cp_recipient_id = rid, cp_transport = tr,
         cp_platform_identity = pid, cp_identity_id = i, cp_enabled = True,
         cp_opted_out_at = None, cp_created_at = stamp, cp_disabled_at = None\<rparr> s2 = Inr ((), t)"
  using assms by (auto simp: add_contact_point_in_tx_def tx_inr directory_reads)

lemma add_contact_point_inv:
  assumes "add_contact_point_in_tx rref tr pid f now s = Inr (r, t)" and "directory_inv s"
  shows "directory_inv t"
  using assms(1)
proof (rule add_contact_point_run)
  fix stamp rid i cid s1 s2
  assume m: "mint_ref ''contact_point'' s = Inr (r, s1)" and i: "identity_id tr pid f s1 = Inr (i, s2)"
    and cid: "cid = next_id cp_id (contact_points s2)"
    and ins: "insert_contact_point \<lparr>cp_id = cid, cp_ref = r, cp_recipient_id = rid, cp_transport = tr,
         cp_platform_identity = pid, cp_identity_id = i, cp_enabled = True,
         cp_opted_out_at = None, cp_created_at = stamp, cp_disabled_at = None\<rparr> s2 = Inr ((), t)"
  have "directory_inv s2"
    using mint_ref_kind [OF m] i assms(2) by (auto intro: identity_id_inv)
  with insert_contact_point_inv [OF ins] mint_ref_kind [OF m] cid show ?thesis by simp
qed

lemma set_display_name_inv:
  "set_display_name_in_tx rref name s = Inr (x, t) \<Longrightarrow> directory_inv s \<Longrightarrow> directory_inv t"
  by (auto simp: set_display_name_in_tx_def tx_inr directory_reads intro!: update_columns_inv(2))

lemma switch_columns_inv:
  "update_destinations p (dst_enabled_update f) s = Inr (x, t) \<Longrightarrow> directory_inv s \<Longrightarrow> directory_inv t"
  "update_destinations p (dst_disabled_at_update g) s = Inr (x, t) \<Longrightarrow> directory_inv s \<Longrightarrow> directory_inv t"
  "update_contact_points q (cp_enabled_update f) s = Inr (x, t) \<Longrightarrow> directory_inv s \<Longrightarrow> directory_inv t"
  "update_contact_points q (cp_disabled_at_update g) s = Inr (x, t) \<Longrightarrow> directory_inv s \<Longrightarrow> directory_inv t"
  by (erule update_destinations_inv update_contact_points_inv; simp)+

lemma directory_keptI:
  "(\<And>s x t. m s = Inr (x, t) \<Longrightarrow> directory_inv s \<Longrightarrow> directory_inv t) \<Longrightarrow> tx_within (kept directory_inv) m"
  by (auto simp: tx_within_def kept_def)

lemma directory_reads_kept:
  "tx_within (kept directory_inv) require_tx" "tx_within (kept directory_inv) (dir_kind ref ks)"
  "tx_within (kept directory_inv) (dir_id kind ref)" "tx_within (kept directory_inv) (enable_destination_guard i)"
  "tx_within (kept directory_inv) (enable_contact_guard i)"
  by (rule directory_keptI, auto simp: directory_reads dest!: enable_guards_state)+

lemma switch_columns_kept:
  "tx_within (kept directory_inv) (update_destinations p (dst_enabled_update f))"
  "tx_within (kept directory_inv) (update_destinations p (dst_disabled_at_update g))"
  "tx_within (kept directory_inv) (update_contact_points q (cp_enabled_update f))"
  "tx_within (kept directory_inv) (update_contact_points q (cp_disabled_at_update g))"
  by (rule directory_keptI, erule (1) switch_columns_inv)+

lemma switch_rows_kept:
  "tx_within (kept directory_inv) (tx_modify (\<lambda>s. s\<lparr>locations := update_where p (loc_enabled_update f) (locations s)\<rparr>))"
  "tx_within (kept directory_inv) (tx_modify (\<lambda>s. s\<lparr>recipients := update_where q (rcp_enabled_update f) (recipients s)\<rparr>))"
  by (rule directory_keptI, auto intro!: update_columns_inv)+

lemma set_enabled_kept: "tx_within (kept directory_inv) (set_enabled_in_tx clock ref b now)"
  unfolding set_enabled_in_tx_def Let_def
  by (intro kept.within_intros directory_reads_kept switch_columns_kept switch_rows_kept)

lemma opt_out_inv: "opt_out_in_tx cref now s = Inr (x, t) \<Longrightarrow> directory_inv s \<Longrightarrow> directory_inv t"
  by (auto simp: opt_out_in_tx_def tx_inr directory_reads elim!: update_contact_points_inv)

lemma location_members_inv:
  "add_location_member_in_tx l r s = Inr (x, t) \<Longrightarrow> directory_inv s \<Longrightarrow> directory_inv t"
  "remove_location_member_in_tx l r s = Inr (x, t) \<Longrightarrow> directory_inv s \<Longrightarrow> directory_inv t"
  by (auto simp: add_location_member_in_tx_def remove_location_member_in_tx_def tx_inr directory_reads
      intro: insert_location_member_inv remove_members_inv)

lemma remove_audience_member_inv:
  "remove_audience_member_in_tx a m s = Inr (x, t) \<Longrightarrow> directory_inv s \<Longrightarrow> directory_inv t"
  by (auto simp: remove_audience_member_in_tx_def Let_def tx_inr directory_reads intro: remove_members_inv(2))

lemma add_audience_member_inv:
  assumes "add_audience_member_in_tx a m s = Inr (x, t)" and "directory_inv s"
  shows "directory_inv t"
proof -
  from assms(1) obtain kind aid mid where "kind = ''audience'' \<longrightarrow> \<not> reaches s mid aid"
    and "t = s \<or> insert_audience_member aid (member_of kind mid) s = Inr ((), t)"
    by (auto simp: add_audience_member_in_tx_def tx_inr directory_reads split: if_splits)
  with assms(2) show ?thesis
    by (auto simp: member_of_def split: if_splits intro: insert_audience_member_inv)
qed

lemma rename_inv: "rename_in_tx ref name s = Inr (x, t) \<Longrightarrow> directory_inv s \<Longrightarrow> directory_inv t"
  by (auto simp: rename_in_tx_def tx_inr directory_reads split: if_splits intro!: update_columns_inv(1,3))

lemma directory_inv_pending [simp]:
  "directory_inv (s\<lparr>pending_group_creations := ps\<rparr>) = directory_inv s"
  by (rule same_directory_inv) (simp add: same_directory_def)

lemma pend_group_creation_inv:
  "pend_group_creation_in_tx rid lref name now s = Inr (x, t) \<Longrightarrow> directory_inv s \<Longrightarrow> directory_inv t"
  by (auto simp: pend_group_creation_in_tx_def tx_inr directory_reads insert_pending_group_def violates_def
      split: if_splits)

lemma settle_pending_inv: "settle_pending pid f s = Inr (x, t) \<Longrightarrow> directory_inv s \<Longrightarrow> directory_inv t"
  by (auto simp: settle_pending_def Let_def violates_def split: if_splits)

lemma settle_group_creation_inv:
  "settle_group_creation_in_tx rid pid f now s = Inr (x, t) \<Longrightarrow> directory_inv s \<Longrightarrow> directory_inv t"
  by (auto simp: settle_group_creation_in_tx_def tx_inr directory_reads split: option.splits)
    (blast intro: settle_pending_inv add_destination_inv)+

section \<open>Steps of the directory\<close>

text \<open>One directory operation, as a whole transaction. A transaction that raises is no step.\<close>

inductive directory_step :: "comms_db \<Rightarrow> comms_db \<Rightarrow> bool" where
  location: "add_location name now s = Inr (r, t) \<Longrightarrow> directory_step s t"
| destination: "add_destination lref tr pid name f now s = Inr (r, t) \<Longrightarrow> directory_step s t"
| recipient: "add_recipient now label s = Inr (r, t) \<Longrightarrow> directory_step s t"
| label: "write_tx (set_display_name_in_tx rref name) s = Inr (x, t) \<Longrightarrow> directory_step s t"
| contact: "add_contact_point rref tr pid f now s = Inr (r, t) \<Longrightarrow> directory_step s t"
| switch: "set_enabled clock ref b at s = Inr (x, t) \<Longrightarrow> directory_step s t"
| opt_out: "opt_out cref now s = Inr (x, t) \<Longrightarrow> directory_step s t"
| join: "add_location_member lref rref s = Inr (x, t) \<Longrightarrow> directory_step s t"
| leave: "remove_location_member lref rref s = Inr (x, t) \<Longrightarrow> directory_step s t"
| audience: "add_audience name now s = Inr (r, t) \<Longrightarrow> directory_step s t"
| add_member: "add_audience_member aref mref s = Inr (x, t) \<Longrightarrow> directory_step s t"
| drop_member: "remove_audience_member aref mref s = Inr (x, t) \<Longrightarrow> directory_step s t"
| rename: "rename ref name s = Inr (x, t) \<Longrightarrow> directory_step s t"
| group: "group_ref dref now s = Inr (g, t) \<Longrightarrow> directory_step s t"
| pend: "pend_group_creation rid lref name now s = Inr (x, t) \<Longrightarrow> directory_step s t"
| settle: "write_tx (settle_group_creation_in_tx rid pid f now) s = Inr (d, t) \<Longrightarrow> directory_step s t"

text \<open>The body of the transaction of each step.\<close>

lemmas directory_ops = add_location_def add_destination_def add_recipient_def add_contact_point_def set_enabled_def
  opt_out_def add_location_member_def remove_location_member_def add_audience_def add_audience_member_def
  remove_audience_member_def rename_def group_ref_def pend_group_creation_def

lemmas directory_bodies = add_location_inv add_destination_inv add_recipient_inv set_display_name_inv
  add_contact_point_inv opt_out_inv location_members_inv add_audience_inv add_audience_member_inv
  remove_audience_member_inv rename_inv group_ref_in_tx_inv pend_group_creation_inv settle_group_creation_inv

lemma directory_inv_flag [simp]: "directory_inv (s\<lparr>in_transaction := b\<rparr>) = directory_inv s"
  by (rule same_directory_inv) (simp add: same_directory_def)

lemma write_tx_directory:
  assumes "write_tx m s = Inr (x, t)" and "directory_inv s"
    and "\<And>s x t. m s = Inr (x, t) \<Longrightarrow> directory_inv s \<Longrightarrow> directory_inv t"
  shows "directory_inv t"
proof -
  from assms(1) obtain u where "m (s\<lparr>in_transaction := True\<rparr>) = Inr (x, u)" "t = u\<lparr>in_transaction := False\<rparr>"
    by (auto simp: write_tx_def split: if_splits sum.splits)
  with assms(2) assms(3) [of "s\<lparr>in_transaction := True\<rparr>" x u] show ?thesis by simp
qed

lemma directory_step_inv:
  assumes "directory_step s t" and "directory_inv s"
  shows "directory_inv t"
  using assms(1)
proof cases
  case (switch clock ref b at x)
  then show ?thesis
    using write_tx_directory [OF _ assms(2), of "set_enabled_in_tx clock ref b at" x t]
      tx_withinD [OF set_enabled_kept] by (fastforce simp: set_enabled_def kept_def)
qed (unfold directory_ops, (erule write_tx_directory [OF _ assms(2)], erule (1) directory_bodies)+)

text \<open>C15: every directory operation keeps the directory well formed. From an empty directory, whatever
  operations succeed, references and ids stay unique and of their kind, every row's parents exist, a
  delivery identity has at most one enabled destination and one enabled contact point, a person at most
  one enabled contact point per transport, every group is a group or channel destination of its own, and
  the audiences that contain one another never form a cycle.\<close>

theorem directory_stays_well_formed:
  assumes "directory_step\<^sup>*\<^sup>* s t" and "directory_inv s"
  shows "directory_inv t"
  using assms by (induction rule: rtranclp_induct) (auto intro: directory_step_inv)

lemma directory_inv_empty: "directory_inv empty_db"
  by (simp add: empty_db_def directory_parts refs_ok_def foreign_keys_def groups_ok_def destinations_unique_def
      contacts_unique_def audience_edges_def acyclic_def)

section \<open>Resolution always returns\<close>

text \<open>A stack entry the search can expand: its row exists, and every audience on its path contains,
  directly or through others, the audience at its end.\<close>

definition entry_ok :: "comms_db \<Rightarrow> entry \<Rightarrow> bool" where
  "entry_ok s e = (case e of (k, r, path) \<Rightarrow>
     (k = ''location'' \<longrightarrow> r \<in> loc_ref ` set (locations s)) \<and>
     (k = ''audience'' \<longrightarrow> (\<exists>a\<in>set (audiences s). aud_ref a = r
        \<and> (\<forall>b\<in>set (audiences s). aud_ref b \<in> set path \<longrightarrow> (aud_id b, aud_id a) \<in> (set (audience_edges s))\<^sup>*))))"

lemma audience_edges_iff:
  "(a, b) \<in> set (audience_edges s) \<longleftrightarrow> (\<exists>m\<in>set (audience_members s). am_audience_id m = a \<and> am_member m = MAudience b)"
  by (force simp: audience_edges_def split: member.splits)

lemma member_names_audience:
  "member_names s m ''audience'' r \<longleftrightarrow> (\<exists>a\<in>set (audiences s). m = MAudience (aud_id a) \<and> aud_ref a = r)"
  by (cases m) (auto simp: member_names_def)

lemma member_names_location: "member_names s m ''location'' r \<Longrightarrow> r \<in> loc_ref ` set (locations s)"
  by (cases m) (auto simp: member_names_def)

lemma expand_audience_total:
  assumes inv: "directory_inv s" and ok: "entry_ok s (''audience'', r, path)"
  shows "\<exists>kids. expand_audience s r path = Inr ([], kids) \<and> list_all (entry_ok s) kids"
proof -
  from ok obtain a where a: "a \<in> set (audiences s)" "aud_ref a = r"
    and on_path: "\<And>b. b \<in> set (audiences s) \<Longrightarrow> aud_ref b \<in> set path \<Longrightarrow> (aud_id b, aud_id a) \<in> (set (audience_edges s))\<^sup>*"
    by (auto simp: entry_ok_def)
  have u: "distinct (map aud_ref (audiences s))" and acyc: "acyclic (set (audience_edges s))"
    using inv by (auto simp: directory_inv_def directory_ok_def refs_ok_def)
  have found: "find (\<lambda>x. aud_ref x = r) (audiences s) = Some a"
    using a find_unique_iff [OF u] by blast
  have child: "\<exists>b\<in>set (audiences s). aud_ref b = r' \<and> (aud_id a, aud_id b) \<in> set (audience_edges s)"
    if "(''audience'', r') \<in> set (audience_members_of s (aud_id a))" for r'
    using that unfolding audience_members_iff member_names_audience audience_edges_iff by blast
  have no_cycle: "r' \<notin> set path" if "(''audience'', r') \<in> set (audience_members_of s (aud_id a))" for r'
  proof
    assume "r' \<in> set path"
    from child [OF that] obtain b where b: "b \<in> set (audiences s)" "aud_ref b = r'"
      "(aud_id a, aud_id b) \<in> set (audience_edges s)" by blast
    with on_path \<open>r' \<in> set path\<close> have "(aud_id b, aud_id a) \<in> (set (audience_edges s))\<^sup>*" by blast
    with b(3) show False using acyc by (meson acyclic_def rtrancl_into_trancl2)
  qed
  have kid: "entry_ok s (k, r', path @ [r'])" if kr: "(k, r') \<in> set (audience_members_of s (aud_id a))" for k r'
  proof -
    have "k = ''location'' \<Longrightarrow> r' \<in> loc_ref ` set (locations s)"
      using kr by (auto simp: audience_members_iff dest: member_names_location)
    moreover have "\<exists>b\<in>set (audiences s). aud_ref b = r' \<and> (\<forall>c\<in>set (audiences s). aud_ref c \<in> set (path @ [r'])
        \<longrightarrow> (aud_id c, aud_id b) \<in> (set (audience_edges s))\<^sup>*)" if "k = ''audience''"
    proof -
      from child kr that obtain b where b: "b \<in> set (audiences s)" "aud_ref b = r'"
        "(aud_id a, aud_id b) \<in> set (audience_edges s)" by blast
      have "(aud_id c, aud_id b) \<in> (set (audience_edges s))\<^sup>*"
        if "c \<in> set (audiences s)" "aud_ref c \<in> set (path @ [r'])" for c
        using that on_path [of c] b unique_row [OF u that(1) b(1)] by (auto intro: rtrancl_into_rtrancl)
      with b show ?thesis by blast
    qed
    ultimately show ?thesis by (simp add: entry_ok_def)
  qed
  show ?thesis
    using no_cycle kid by (auto simp: expand_audience_def found Let_def list_ex_iff list_all_iff)
qed

lemma expand_total:
  assumes inv: "directory_inv s" and ok: "entry_ok s e"
  shows "\<exists>ems kids. expand s tr e = Inr (ems, kids) \<and> list_all (entry_ok s) kids"
proof (cases e)
  case (fields k r path)
  consider "k = ''audience''" | "k = ''location''" | "k \<noteq> ''audience''" "k \<noteq> ''location''" by blast
  then show ?thesis
  proof cases
    case 1
    with ok fields expand_audience_total [OF inv, of r path] show ?thesis by (auto simp: expand_def)
  next
    case 2
    with ok obtain l where "find (\<lambda>x. loc_ref x = r) (locations s) = Some l"
      by (cases "find (\<lambda>x. loc_ref x = r) (locations s)") (auto simp: fields entry_ok_def find_None_iff)
    with 2 show ?thesis
      by (auto simp: fields expand_def expand_location_def entry_ok_def list_all_iff)
  next
    case 3
    then show ?thesis by (auto simp: fields expand_def split: option.splits)
  qed
qed

lemma walk_total:
  assumes "directory_inv s" and "list_all (entry_ok s) stack"
  shows "\<exists>ems. walk s tr stack acc = Inr ems"
  using assms
proof (induction s tr stack acc rule: walk.induct)
  case (2 s tr e stack acc)
  obtain ems kids where e: "expand s tr e = Inr (ems, kids)" "list_all (entry_ok s) kids"
    using expand_total [OF 2(2), of e tr] 2(3) by auto
  with 2(1) [OF e(1) refl 2(2)] 2(3) show ?case by simp
qed simp

lemma check_targets_exist:
  assumes "check_targets s tg = Inr found" and "(k, r) \<in> set found"
  shows "ref_exists s k r"
proof -
  define vals where "vals = (\<lambda>key. case map_of tg key of None \<Rightarrow> [] | Some v \<Rightarrow> v)"
  from assms(1) obtain fs where fs: "res_each (\<lambda>(key, kind). res_each (check_target s kind) (vals key)) TARGET_KINDS = Inr fs"
    and found: "set found = set (concat fs)"
    by (auto simp: check_targets_def vals_def split: if_splits)
  from assms(2) found obtain f where f: "f \<in> set fs" "(k, r) \<in> set f" by auto
  obtain kind refs where "res_each (check_target s kind) refs = Inr f"
    using list_all2_in_set2 [OF res_each_Inr [OF fs] f(1)] by auto
  then obtain ref where "check_target s kind ref = Inr (k, r)"
    using list_all2_in_set2 [OF res_each_Inr f(2)] by blast
  then show ?thesis by (auto simp: check_target_def split: sum.splits if_splits)
qed

lemma target_entry_ok:
  assumes "directory_ok s" and "ref_exists s k r"
  shows "entry_ok s (k, r, [r])"
proof -
  have u: "distinct (map aud_ref (audiences s))" using assms(1) by (simp add: directory_defs)
  have "\<exists>a\<in>set (audiences s). aud_ref a = r \<and> (\<forall>b\<in>set (audiences s). aud_ref b \<in> set [r] \<longrightarrow>
      (aud_id b, aud_id a) \<in> (set (audience_edges s))\<^sup>*)" if "k = ''audience''"
  proof -
    from assms(2) that obtain a where a: "a \<in> set (audiences s)" "aud_ref a = r"
      by (auto simp: ref_exists_def list_ex_iff)
    then have "b = a" if "b \<in> set (audiences s)" "aud_ref b \<in> set [r]" for b
      using that unique_row [OF u that(1) a(1)] by simp
    with a show ?thesis by blast
  qed
  moreover have "k = ''location'' \<Longrightarrow> r \<in> loc_ref ` set (locations s)"
    using assms(2) by (auto simp: ref_exists_def list_ex_iff)
  ultimately show ?thesis by (simp add: entry_ok_def)
qed

lemma res_each_total: "(\<And>x. x \<in> set xs \<Longrightarrow> \<exists>y. f x = Inr y) \<Longrightarrow> \<exists>ys. res_each f xs = Inr ys"
proof (induction xs)
  case (Cons a xs)
  from Cons.prems [of a] Cons.IH Cons.prems show ?case by auto
qed simp

lemma resolve_returns:
  assumes "directory_inv s" and found: "check_targets s tg = Inr found"
  shows "\<exists>cs. resolve_targets s tg tr = Inr cs"
proof -
  have "\<exists>ems. walk s tr [(k, r, [r])] [] = Inr ems" if "(k, r) \<in> set found" for k r
    using assms(1) target_entry_ok [OF _ check_targets_exist [OF found that]]
    by (intro walk_total) (simp_all add: directory_inv_def)
  then have "\<exists>ys. res_each (\<lambda>(kind, ref). walk s tr [(kind, ref, [ref])] []) found = Inr ys"
    by (intro res_each_total) (auto simp del: walk.simps)
  then show ?thesis using found by (auto simp: resolve_targets_def simp del: walk.simps)
qed

text \<open>C16: resolving targets always returns. On every directory reached from an empty one by directory
  operations, if the targets name existing rows then resolution returns its candidates, however deeply
  audiences contain one another: the ``audience cycle'' error and the missing-row error are unreachable.\<close>

theorem resolution_always_returns:
  assumes "directory_step\<^sup>*\<^sup>* empty_db s" and "check_targets s tg = Inr found"
  shows "\<exists>cs. resolve_targets s tg tr = Inr cs"
proof -
  from assms(1) directory_inv_empty have "directory_inv s"
    by (induction rule: rtranclp_induct) (auto intro: directory_step_inv)
  then show ?thesis using assms(2) by (rule resolve_returns)
qed

text \<open>Two audiences, one inside the other, and a person in the inner one.\<close>

definition build_nested :: "(string \<times> string) db_tx" where
  "build_nested =
     tx_bind (add_audience ''outer'' demo_now) (\<lambda>a.
     tx_bind (add_audience ''inner'' demo_now) (\<lambda>b.
     tx_bind (add_recipient demo_now (Some ''p'')) (\<lambda>r.
     tx_then (add_audience_member a b)
    (tx_then (add_audience_member b r) (tx_return (a, b))))))"

lemma build_nested_steps: "build_nested s = Inr (x, t) \<Longrightarrow> directory_step\<^sup>*\<^sup>* s t"
  by (auto simp: build_nested_def tx_inr)
    (meson directory_step.intros rtranclp.rtrancl_into_rtrancl rtranclp.rtrancl_refl)

lemma build_nested_ok:
  "ok_with (\<lambda>(a, b) t. check_targets t [(''audiences'', [a])] = Inr [(''audience'', a)]
     \<and> length (audience_edges t) = 1) (build_nested empty_db)"
  by code_simp

theorem resolution_always_returns_witness:
  "\<exists>s a. directory_step\<^sup>*\<^sup>* empty_db s \<and> length (audience_edges s) = 1
     \<and> (\<exists>cs. resolve_targets s [(''audiences'', [a])] [''telegram''] = Inr cs)"
proof -
  from ok_withD [OF build_nested_ok] obtain a b t where run: "build_nested empty_db = Inr ((a, b), t)"
    and t: "check_targets t [(''audiences'', [a])] = Inr [(''audience'', a)]" "length (audience_edges t) = 1"
    by auto
  from build_nested_steps [OF run] t resolution_always_returns [OF build_nested_steps [OF run] t(1)]
  show ?thesis by blast
qed

theorem directory_stays_well_formed_witness:
  "directory_inv empty_db \<and> (\<exists>s. directory_step\<^sup>*\<^sup>* empty_db s \<and> length (audience_edges s) = 1 \<and> directory_inv s)"
proof -
  from ok_withD [OF build_nested_ok] obtain a b t where run: "build_nested empty_db = Inr ((a, b), t)"
    and t: "length (audience_edges t) = 1"
    by auto
  from directory_stays_well_formed [OF build_nested_steps [OF run] directory_inv_empty]
    build_nested_steps [OF run] t directory_inv_empty
  show ?thesis by blast
qed

section \<open>Opt-outs\<close>

definition contact_key :: "contact_row \<Rightarrow> string \<times> nat \<times> string \<times> nat" where
  "contact_key c = (cp_ref c, cp_recipient_id c, cp_transport c, cp_identity_id c)"

text \<open>Contact points are never removed or rebound, an opt-out keeps its first time, and a contact
  point that is new has an identity that never opted out.\<close>

definition opt_outs_kept :: "comms_db \<Rightarrow> comms_db \<Rightarrow> bool" where
  "opt_outs_kept s t \<longleftrightarrow>
     (\<forall>c\<in>set (contact_points s). \<exists>d\<in>set (contact_points t). contact_key d = contact_key c
        \<and> (cp_opted_out_at c \<noteq> None \<longrightarrow> cp_opted_out_at d = cp_opted_out_at c)) \<and>
     (\<forall>d\<in>set (contact_points t). contact_key d \<in> contact_key ` set (contact_points s)
        \<or> (\<forall>c\<in>set (contact_points s). cp_identity_id c = cp_identity_id d \<longrightarrow> cp_opted_out_at c = None))"

lemma contact_key_identity: "contact_key c = contact_key d \<Longrightarrow> cp_identity_id c = cp_identity_id d"
  by (simp add: contact_key_def)

lemma same_contacts_kept: "contact_points t = contact_points s \<Longrightarrow> opt_outs_kept s t"
  by (auto simp: opt_outs_kept_def)

lemma opt_outs_kept_trans:
  assumes st: "opt_outs_kept s t" and tu: "opt_outs_kept t u"
  shows "opt_outs_kept s u"
  unfolding opt_outs_kept_def
proof (intro conjI ballI)
  fix c assume "c \<in> set (contact_points s)"
  with st tu show "\<exists>d\<in>set (contact_points u). contact_key d = contact_key c
      \<and> (cp_opted_out_at c \<noteq> None \<longrightarrow> cp_opted_out_at d = cp_opted_out_at c)"
    unfolding opt_outs_kept_def by metis
next
  fix e assume "e \<in> set (contact_points u)"
  show "contact_key e \<in> contact_key ` set (contact_points s)
      \<or> (\<forall>c\<in>set (contact_points s). cp_identity_id c = cp_identity_id e \<longrightarrow> cp_opted_out_at c = None)"
  proof (cases "contact_key e \<in> contact_key ` set (contact_points t)")
    case True
    then obtain d where "d \<in> set (contact_points t)" "contact_key d = contact_key e" by auto
    with st contact_key_identity [of d e] show ?thesis unfolding opt_outs_kept_def by metis
  next
    case False
    with tu \<open>e \<in> set (contact_points u)\<close>
    have never: "\<And>d. d \<in> set (contact_points t) \<Longrightarrow> cp_identity_id d = cp_identity_id e \<Longrightarrow> cp_opted_out_at d = None"
      unfolding opt_outs_kept_def by blast
    have "cp_opted_out_at c = None" if c: "c \<in> set (contact_points s)" "cp_identity_id c = cp_identity_id e" for c
    proof -
      from st c(1) obtain d where "d \<in> set (contact_points t)" "contact_key d = contact_key c"
        "cp_opted_out_at c \<noteq> None \<longrightarrow> cp_opted_out_at d = cp_opted_out_at c"
        unfolding opt_outs_kept_def by blast
      with never [of d] c(2) contact_key_identity [of d c] show ?thesis by auto
    qed
    then show ?thesis by blast
  qed
qed

interpretation opt_outs: tx_preorder opt_outs_kept
  by unfold_locales (simp_all add: same_contacts_kept, erule (1) opt_outs_kept_trans)

lemma same_contactsI:
  "(\<And>s x t. m s = Inr (x, t) \<Longrightarrow> contact_points t = contact_points s) \<Longrightarrow> tx_within opt_outs_kept m"
  by (auto simp: tx_within_def intro: same_contacts_kept)

section \<open>What the operations touch\<close>

text \<open>
  The interface of the directory's writes to a property of a run: a preorder that any change of the
  directory tables other than the contact points respects, and one that respects those too.
\<close>

locale directory_client = tx_preorder R for R :: "comms_db \<Rightarrow> comms_db \<Rightarrow> bool" +
  assumes R_locations: "R s (s\<lparr>locations := ls\<rparr>)" and R_recipients: "R s (s\<lparr>recipients := rs\<rparr>)"
    and R_identities: "R s (s\<lparr>delivery_identities := is\<rparr>)" and R_destinations: "R s (s\<lparr>destinations := ds\<rparr>)"
    and R_members: "R s (s\<lparr>location_members := ms\<rparr>)" and R_audiences: "R s (s\<lparr>audiences := as\<rparr>)"
    and R_audience_members: "R s (s\<lparr>audience_members := ams\<rparr>)" and R_groups: "R s (s\<lparr>groups := gs\<rparr>)"
    and R_pending: "R s (s\<lparr>pending_group_creations := ps\<rparr>)" and R_draws: "R s (s\<lparr>draws := n\<rparr>)"
begin

lemma mint_within: "tx_within R (mint_ref kind)"
  by (rule tx_withinI) (auto simp: R_draws dest!: mint_ref_kind)

lemma reads_within:
  "tx_within R require_tx" "tx_within R (dir_kind ref ks)" "tx_within R (dir_id kind ref)"
  "tx_within R (refuse_second_destination i)" "tx_within R (refuse_second_contact i)"
  "tx_within R (enable_destination_guard i)" "tx_within R (enable_contact_guard i)"
  by (rule tx_withinI, auto simp: directory_reads R_refl dest!: enable_guards_state)+

lemma inserts_within:
  "tx_within R (insert_location a b c)" "tx_within R (insert_recipient a d c)" "tx_within R (insert_audience a b c)"
  "tx_within R (insert_identity a b)" "tx_within R (insert_destination row)" "tx_within R (update_destinations p f)"
  "tx_within R (insert_group a i c)" "tx_within R (insert_location_member i j)"
  "tx_within R (insert_audience_member i m)" "tx_within R (insert_pending_group a i b c)"
  "tx_within R (settle_pending i g)"
  by (rule tx_withinI, auto simp: insert_location_def insert_recipient_def insert_audience_def insert_identity_def
      insert_destination_def update_destinations_def insert_group_def insert_location_member_def
      insert_audience_member_def insert_pending_group_def settle_pending_def Let_def violates_def
      R_locations R_recipients R_identities R_destinations R_members R_audiences R_audience_members R_groups
      R_pending R_refl split: if_splits)+

lemma modifies_within:
  "tx_within R (tx_modify (\<lambda>s. s\<lparr>locations := f (locations s)\<rparr>))"
  "tx_within R (tx_modify (\<lambda>s. s\<lparr>recipients := g (recipients s)\<rparr>))"
  "tx_within R (tx_modify (\<lambda>s. s\<lparr>audiences := h (audiences s)\<rparr>))"
  "tx_within R (tx_modify (\<lambda>s. s\<lparr>location_members := k (location_members s)\<rparr>))"
  "tx_within R (tx_modify (\<lambda>s. s\<lparr>audience_members := l (audience_members s)\<rparr>))"
  by (rule tx_withinI, auto simp: R_locations R_recipients R_audiences R_members R_audience_members)+

lemma identity_within: "tx_within R (identity_id a b f)"
  unfolding identity_id_def by (intro within_intros inserts_within)

lemma group_within: "tx_within R (group_ref_in_tx dref now)"
  unfolding group_ref_in_tx_def by (intro within_intros mint_within inserts_within)

lemmas directory_within = within_intros mint_within reads_within inserts_within modifies_within identity_within group_within

lemma add_rows_within:
  "tx_within R (add_location_in_tx name now)" "tx_within R (add_recipient_in_tx now label)"
  "tx_within R (add_audience_in_tx name now)" "tx_within R (set_display_name_in_tx rref nm)"
  "tx_within R (rename_in_tx ref nm)"
  unfolding add_location_in_tx_def add_recipient_in_tx_def add_audience_in_tx_def set_display_name_in_tx_def
    rename_in_tx_def
  by (intro directory_within)+

lemma add_destination_within: "tx_within R (add_destination_in_tx lref tr pid name f now)"
  unfolding add_destination_in_tx_def by (intro directory_within)

lemma memberships_within:
  "tx_within R (add_location_member_in_tx a b)" "tx_within R (remove_location_member_in_tx a b)"
  "tx_within R (add_audience_member_in_tx a b)" "tx_within R (remove_audience_member_in_tx a b)"
  unfolding add_location_member_in_tx_def remove_location_member_in_tx_def add_audience_member_in_tx_def
    remove_audience_member_in_tx_def Let_def
  by (intro directory_within)+

lemma group_creation_within:
  "tx_within R (pend_group_creation_in_tx rid lref name now)" "tx_within R (settle_group_creation_in_tx rid pid f now)"
  unfolding pend_group_creation_in_tx_def settle_group_creation_in_tx_def
  by (intro directory_within add_destination_within)+

lemmas operations_within = add_rows_within add_destination_within memberships_within group_creation_within group_within

end

locale contact_client = directory_client +
  assumes R_contacts: "R s (s\<lparr>contact_points := cs\<rparr>)"
begin

lemma contacts_within: "tx_within R (insert_contact_point c)" "tx_within R (update_contact_points p f)"
  by (rule tx_withinI, auto simp: insert_contact_point_def update_contact_points_def Let_def violates_def R_contacts
      split: if_splits)+

lemma contact_operations_within:
  "tx_within R (add_contact_point_in_tx rref tr pid f now)" "tx_within R (opt_out_in_tx cref now)"
  "tx_within R (set_enabled_in_tx clock ref b at)"
  unfolding add_contact_point_in_tx_def opt_out_in_tx_def set_enabled_in_tx_def Let_def
  by (intro directory_within contacts_within)+

end

interpretation opt_outs: directory_client opt_outs_kept
  by unfold_locales (simp_all add: same_contacts_kept)

text \<open>The writes to contact points: a switch or an opt-out keeps every row, an insert is guarded.\<close>

lemma update_contacts_opt_outs:
  assumes "\<And>c. contact_key (f c) = contact_key c
    \<and> (cp_opted_out_at c \<noteq> None \<longrightarrow> cp_opted_out_at (f c) = cp_opted_out_at c)"
  shows "tx_within opt_outs_kept (update_contact_points p f)"
proof (rule tx_withinI)
  fix s x t assume "update_contact_points p f s = Inr (x, t)"
  then have t: "contact_points t = update_where p f (contact_points s)"
    by (auto simp: update_contact_points_def Let_def violates_def split: if_splits)
  let ?g = "\<lambda>c. if p c then f c else c"
  have g: "contact_key (?g c) = contact_key c"
    "cp_opted_out_at c \<noteq> None \<longrightarrow> cp_opted_out_at (?g c) = cp_opted_out_at c" for c
    using assms [of c] by simp_all
  show "opt_outs_kept s t"
    unfolding opt_outs_kept_def t set_update_where
  proof (intro conjI ballI)
    fix c assume "c \<in> set (contact_points s)"
    then show "\<exists>d\<in>?g ` set (contact_points s). contact_key d = contact_key c
        \<and> (cp_opted_out_at c \<noteq> None \<longrightarrow> cp_opted_out_at d = cp_opted_out_at c)"
      using g by blast
  next
    fix d assume "d \<in> ?g ` set (contact_points s)"
    then show "contact_key d \<in> contact_key ` set (contact_points s)
        \<or> (\<forall>c\<in>set (contact_points s). cp_identity_id c = cp_identity_id d \<longrightarrow> cp_opted_out_at c = None)"
      using g(1) by (auto simp del: if_image_distrib)
  qed
qed

lemma set_enabled_opt_outs: "tx_within opt_outs_kept (set_enabled_in_tx clock ref b at)"
  unfolding set_enabled_in_tx_def Let_def
  by (intro opt_outs.directory_within update_contacts_opt_outs) (simp_all add: contact_key_def)

lemma opt_out_opt_outs: "tx_within opt_outs_kept (opt_out_in_tx cref now)"
  unfolding opt_out_in_tx_def
  by (intro opt_outs.directory_within update_contacts_opt_outs)
    (auto simp: contact_key_def split: option.splits)

lemma identity_id_contacts: "identity_id tr pid f s = Inr (i, t) \<Longrightarrow> contact_points t = contact_points s"
  by (auto simp: identity_id_def tx_inr insert_identity_def Let_def violates_def split: option.splits if_splits)

lemma add_contact_opt_outs: "tx_within opt_outs_kept (add_contact_point_in_tx rref tr pid f now)"
proof (rule tx_withinI)
  fix s r t assume "add_contact_point_in_tx rref tr pid f now s = Inr (r, t)"
  then show "opt_outs_kept s t"
  proof (rule add_contact_point_run)
    fix stamp rid i cid s1 s2
    assume "mint_ref ''contact_point'' s = Inr (r, s1)" "identity_id tr pid f s1 = Inr (i, s2)"
      and never: "\<not> list_ex (\<lambda>c. cp_identity_id c = i \<and> cp_opted_out_at c \<noteq> None) (contact_points s2)"
      and ins: "insert_contact_point \<lparr>cp_id = cid, cp_ref = r, cp_recipient_id = rid, cp_transport = tr,
         cp_platform_identity = pid, cp_identity_id = i, cp_enabled = True,
         cp_opted_out_at = None, cp_created_at = stamp, cp_disabled_at = None\<rparr> s2 = Inr ((), t)"
    then have "contact_points s2 = contact_points s"
      by (auto dest!: mint_ref_kind identity_id_contacts)
    with never ins show ?thesis
      by (auto simp: opt_outs_kept_def list_ex_iff insert_contact_point_def violates_def split: if_splits)
  qed
qed

lemma opt_outs_kept_flag [simp]:
  "opt_outs_kept (s\<lparr>in_transaction := b\<rparr>) t = opt_outs_kept s t"
  "opt_outs_kept s (t\<lparr>in_transaction := b\<rparr>) = opt_outs_kept s t"
  by (simp_all add: opt_outs_kept_def)

lemma write_tx_opt_outs: "tx_within opt_outs_kept m \<Longrightarrow> write_tx m s = Inr (x, t) \<Longrightarrow> opt_outs_kept s t"
  by (auto simp: write_tx_def dest!: tx_withinD split: if_splits sum.splits)

lemma directory_step_opt_outs:
  assumes "directory_step s t"
  shows "opt_outs_kept s t"
  using assms
  by cases (unfold directory_ops, (erule write_tx_opt_outs [rotated],
      rule opt_outs.operations_within set_enabled_opt_outs opt_out_opt_outs add_contact_opt_outs)+)

lemma directory_steps_opt_outs: "directory_step\<^sup>*\<^sup>* s t \<Longrightarrow> opt_outs_kept s t"
  by (induction rule: rtranclp_induct)
    (auto intro: same_contacts_kept opt_outs_kept_trans directory_step_opt_outs)

text \<open>C17: an opt-out is permanent. Once a contact point has opted out, whatever directory operations
  follow, it is still there with the same person, transport and delivery identity, and with the time it
  first opted out; and no contact point is ever added again for that delivery identity, under any
  person.\<close>

theorem opt_out_is_permanent:
  assumes "directory_step\<^sup>*\<^sup>* s t" and "c \<in> set (contact_points s)" and "cp_opted_out_at c = Some at"
  shows "(\<exists>d\<in>set (contact_points t). contact_key d = contact_key c \<and> cp_opted_out_at d = Some at)
    \<and> (\<forall>d\<in>set (contact_points t). cp_identity_id d = cp_identity_id c
         \<longrightarrow> contact_key d \<in> contact_key ` set (contact_points s))"
  using directory_steps_opt_outs [OF assms(1)] assms(2,3) unfolding opt_outs_kept_def by fastforce

text \<open>A person with one contact point that opted out, and the attempt to add its number again.\<close>

definition opted_out_run :: "string db_tx" where
  "opted_out_run =
     tx_bind (add_recipient demo_now None) (\<lambda>r.
     tx_bind (add_contact_point r ''whatsapp'' ''+61400'' Inr demo_now) (\<lambda>c.
     tx_then (opt_out c demo_now) (tx_return c)))"

lemma opted_out_run_ok:
  "ok_with (\<lambda>c t. map (\<lambda>p. (cp_ref p, cp_opted_out_at p)) (contact_points t) = [(c, Some demo_stamp)]
     \<and> is_ok (set_enabled demo_now c False None t)) (opted_out_run empty_db)"
  by code_simp

theorem opt_out_is_permanent_witness:
  "\<exists>s t c. directory_step\<^sup>*\<^sup>* s t \<and> c \<in> set (contact_points s) \<and> cp_opted_out_at c = Some demo_stamp
     \<and> (\<exists>d\<in>set (contact_points t). contact_key d = contact_key c \<and> cp_opted_out_at d = Some demo_stamp)"
proof -
  from ok_withD [OF opted_out_run_ok] obtain r s where
    rows: "map (\<lambda>p. (cp_ref p, cp_opted_out_at p)) (contact_points s) = [(r, Some demo_stamp)]"
    and run: "is_ok (set_enabled demo_now r False None s)" by (elim exE conjE)
  then obtain x t where "set_enabled demo_now r False None s = Inr (x, t)"
    by (auto simp: is_ok_def split: sum.splits)
  then have step: "directory_step\<^sup>*\<^sup>* s t" by (blast intro: directory_step.switch)
  from rows obtain c where c: "c \<in> set (contact_points s)" "cp_opted_out_at c = Some demo_stamp" by auto
  from opt_out_is_permanent [OF step c] step c show ?thesis by blast
qed

text \<open>Two people with the same number: the first one's contact point was disabled, then the second one's
  opted out and was disabled too.\<close>

definition shared_number_db :: comms_db where
  "shared_number_db = empty_db\<lparr>
     recipients := map (\<lambda>n. \<lparr>rcp_id = n, rcp_ref = ''rcp_'' @ replicate 26 (char_of (96 + n)), rcp_enabled = True,
       rcp_display_name = None, rcp_created_at = demo_stamp\<rparr>) [1, 2],
     delivery_identities := [\<lparr>idn_id = 1, idn_transport = ''whatsapp'', idn_identity = ''+61400''\<rparr>],
     contact_points := map (\<lambda>(n, gone). \<lparr>cp_id = n, cp_ref = ''rct_'' @ replicate 26 (char_of (96 + n)),
       cp_recipient_id = n, cp_transport = ''whatsapp'', cp_platform_identity = ''+61400'', cp_identity_id = 1,
       cp_enabled = False, cp_opted_out_at = gone, cp_created_at = demo_stamp, cp_disabled_at = Some demo_stamp\<rparr>)
       [(1, None), (2, Some demo_stamp)]\<rparr>"


end
