(* ===== verification/Comms_Core.thy ===== *)
theory Comms_Core
  imports Comms_Recovery Comms_Directory_Props
begin

text \<open>
  The campaign core as one system: the operations as a step relation on databases, operations, engine
  runs, recoveries and scheduled starts as a step relation on worlds, and what holds in every state
  these reach. A step is a whole transaction or a whole run; a transaction that raises is no step.
\<close>

section \<open>Steps of the database\<close>

inductive core_step :: "crypto \<Rightarrow> comms_db \<Rightarrow> comms_db \<Rightarrow> bool" for cr where
  create: "create_campaign cr title now s = Inr (r, t) \<Longrightarrow> core_step cr s t"
| content: "set_content cr cmp canonical fa en links media now s = Inr (x, t) \<Longrightarrow> core_step cr s t"
| targets: "set_targets cr cmp tg transports now s = Inr (x, t) \<Longrightarrow> core_step cr s t"
| validate: "validate cr cmp now s = Inr (x, t) \<Longrightarrow> core_step cr s t"
| edit: "edit cr cmp now s = Inr (x, t) \<Longrightarrow> core_step cr s t"
| template: "bind_template cmp name lang ver params now s = Inr (x, t) \<Longrightarrow> core_step cr s t"
| send: "send cr cmp trs now s = Inr (g, t) \<Longrightarrow> core_step cr s t"
| schedule: "schedule cr cmp at trs now s = Inr (g, t) \<Longrightarrow> core_step cr s t"
| unschedule: "unschedule cr cmp now s = Inr (x, t) \<Longrightarrow> core_step cr s t"
| cancel: "cancel cr cmp now s = Inr (rep, t) \<Longrightarrow> core_step cr s t"
| retry: "retry_failed cr cmp now cap s = Inr (rr, t) \<Longrightarrow> core_step cr s t"
| resolve: "resolve_outcome cr jref verdict now s = Inr (x, t) \<Longrightarrow> core_step cr s t"
| provider: "record_provider_update cr transport eref mref status now s = Inr (d, t) \<Longrightarrow> core_step cr s t"
| window: "mirror_window iid last_at source now s = Inr (b, t) \<Longrightarrow> core_step cr s t"
| directory: "directory_step s t \<Longrightarrow> core_step cr s t"

text \<open>Directory operations touch none of the tables of campaigns and deliveries.\<close>

interpretation directory_tables: contact_client same_tables
  by unfold_locales (simp_all add: same_tables_def)

lemma upsert_template_tables: "tx_within same_tables (upsert_template tpl)"
  by (rule tx_withinI) (auto simp: upsert_template_def violates_def same_tables_def split: if_splits)

lemma upsert_window_tables: "tx_within same_tables (upsert_window row)"
  by (rule tx_withinI) (auto simp: upsert_window_def violates_def same_tables_def split: if_splits)

lemma write_tx_tables: "tx_within same_tables m \<Longrightarrow> tx_within same_tables (write_tx m)"
  by (fastforce simp: tx_within_def write_tx_def same_tables_def split: if_splits sum.splits)

lemma directory_step_tables:
  assumes "directory_step s t"
  shows "same_tables s t"
  using assms
  by cases (unfold directory_ops, (erule tx_withinD [OF write_tx_tables, rotated],
      rule directory_tables.operations_within directory_tables.contact_operations_within)+)

lemma bind_template_tables: "tx_within same_tables (bind_template cmp name lang ver params now)"
  unfolding bind_template_def
  by (intro tables.within_intros write_tx_tables reading_tables upsert_template_tables)

lemma mirror_window_tables: "tx_within same_tables (mirror_window_in_tx iid last_at source now)"
  unfolding mirror_window_in_tx_def
  by (intro tables.within_intros upsert_window_tables)

lemma write_tx_system_inv:
  "tx_within (kept system_inv) m \<Longrightarrow> write_tx m s = Inr (x, t) \<Longrightarrow> system_inv s \<Longrightarrow> system_inv t"
  using write_tx_kept [of system_inv m] by (auto dest: tx_withinD simp: kept_def)

lemmas operations_kept = create_campaign_kept set_content_kept set_targets_kept validate_kept edit_kept
  unschedule_kept cancel_kept retry_failed_kept resolve_outcome_kept apply_provider_update_kept

lemma core_step_system_inv:
  assumes "core_step cr s t" "system_inv s"
  shows "system_inv t"
  using assms(1)
proof cases
  case send
  show ?thesis by (rule write_tx_system_inv [OF freeze_kept send [unfolded send_def] assms(2)]) simp
next
  case (schedule cmp at trs now g)
  then obtain send_at where run: "write_tx (freeze_in_tx cr cmp trs now (Aware send_at) LC_SCHEDULED None None) s = Inr (g, t)"
    by (auto simp: schedule_def tx_inr)
  show ?thesis by (rule write_tx_system_inv [OF freeze_kept run assms(2)]) simp
next
  case template
  then show ?thesis using assms(2) by (auto dest: tx_withinD [OF bind_template_tables] simp: system_inv_same_tables)
next
  case window
  then show ?thesis
    using assms(2) write_tx_system_inv [OF same_tables_kept [OF mirror_window_tables]]
    by (auto simp: mirror_window_def)
next
  case directory
  then show ?thesis using assms(2) directory_step_tables system_inv_same_tables by blast
qed (use assms(2) in \<open>auto simp: create_campaign_def set_content_def set_targets_def validate_def edit_def
      unschedule_def cancel_def retry_failed_def resolve_outcome_def record_provider_update_def
      intro: operations_kept [THEN write_tx_system_inv]\<close>)

lemma write_tx_log:
  assumes "tx_within log_grows m" "write_tx m s = Inr (x, t)"
  shows "log_grows s t"
proof -
  from assms(2) obtain t' where t': "m (s\<lparr>in_transaction := True\<rparr>) = Inr (x, t')" "t = t'\<lparr>in_transaction := False\<rparr>"
    by (auto simp: write_tx_def split: if_splits sum.splits)
  show ?thesis
    using tx_withinD [OF assms(1) t'(1)] unfolding t'(2) log_grows_def
    by (simp add: tables_ok_def job_names_def attempt_marks_def)
qed

lemmas logging_operations = create_campaign_log drafts_log operations_log cancel_log apply_provider_update_log

lemma core_step_log:
  assumes "core_step cr s t"
  shows "log_grows s t"
  using assms
proof cases
  case send
  then show ?thesis using write_tx_log [OF freeze_log] by (simp add: send_def)
next
  case schedule
  then show ?thesis using write_tx_log [OF freeze_log] by (auto simp: schedule_def tx_inr)
next
  case template
  then show ?thesis by (auto dest: tx_withinD [OF bind_template_tables] intro: log_grows_same_tables)
next
  case window
  then show ?thesis using write_tx_log [OF same_tables_log [OF mirror_window_tables]] by (simp add: mirror_window_def)
next
  case directory
  then show ?thesis by (intro log_grows_same_tables directory_step_tables)
qed (auto simp: create_campaign_def set_content_def set_targets_def validate_def edit_def
      unschedule_def cancel_def retry_failed_def resolve_outcome_def record_provider_update_def
      intro: logging_operations [THEN write_tx_log])

section \<open>Steps of the world\<close>

inductive world_step :: "crypto \<Rightarrow> world \<Rightarrow> world \<Rightarrow> bool" for cr where
  operation: "core_step cr (w_db w) t \<Longrightarrow> world_step cr w (w\<lparr>w_db := t\<rparr>)"
| run: "execute cr en lease cmp w = (r, w') \<Longrightarrow> world_step cr w w'"
| due: "run_due cr en lease now w = (rs, w') \<Longrightarrow> world_step cr w w'"
| restart: "recover cr lease now w = (rep, w') \<Longrightarrow> world_step cr w w'"

inductive world_reachable :: "crypto \<Rightarrow> world \<Rightarrow> world \<Rightarrow> bool" for cr where
  start: "world_reachable cr w w"
| step: "world_reachable cr w w' \<Longrightarrow> world_step cr w' w'' \<Longrightarrow> world_reachable cr w w''"

definition world_inv :: "world \<Rightarrow> bool" where
  "world_inv w \<longleftrightarrow> system_inv (w_db w) \<and> log_inv w"

lemma log_inv_grows: "log_grows (w_db w) t \<Longrightarrow> log_inv w \<Longrightarrow> log_inv (w\<lparr>w_db := t\<rparr>)"
  by (force simp: log_inv_def log_grows_def call_marks_def)

lemma world_step_inv: "world_step cr w w' \<Longrightarrow> world_inv w \<Longrightarrow> world_inv w'"
proof (induction rule: world_step.induct)
  case (operation w t)
  then show ?case
    using core_step_system_inv core_step_log log_inv_grows by (simp add: world_inv_def)
next
  case (run en lease cmp w r w')
  then show ?case
    using io_withinD [OF execute_keeps run.hyps] io_withinD [OF execute_log run.hyps]
    by (simp add: world_inv_def w_kept_def db_inv_def)
next
  case (due en lease now w rs w')
  then show ?case
    using io_withinD [OF run_due_keeps due.hyps] io_withinD [OF run_due_log due.hyps]
    by (simp add: world_inv_def w_kept_def db_inv_def)
next
  case (restart lease now w rep w')
  then show ?case
    using io_withinD [OF recover_keeps restart.hyps] io_withinD [OF recover_log restart.hyps]
    by (simp add: world_inv_def w_kept_def db_inv_def)
qed

lemma world_reachable_inv: "world_reachable cr w w' \<Longrightarrow> world_inv w \<Longrightarrow> world_inv w'"
  by (induction rule: world_reachable.induct) (auto dest: world_step_inv)

text \<open>A new installation: empty tables, nothing delivered.\<close>

definition fresh_world :: "world \<Rightarrow> bool" where
  "fresh_world w \<longleftrightarrow> campaigns (w_db w) = [] \<and> generations (w_db w) = [] \<and> delivery_jobs (w_db w) = []
     \<and> delivery_attempts (w_db w) = [] \<and> w_calls w = []"

lemma fresh_world_inv: "fresh_world w \<Longrightarrow> world_inv w"
  by (auto simp: fresh_world_def world_inv_def system_inv_def log_inv_def tables_ok_def attempts_inv_def
      call_marks_def)

section \<open>A live installation\<close>

text \<open>One destination, and a campaign that is sending to it: one job pending, one in flight.\<close>

definition live_destination :: destination_row where
  "live_destination = \<lparr>dst_id = 1, dst_ref = ''dst_'' @ replicate 26 (CHR ''a''), dst_location_id = 1,
     dst_transport = ''telegram'', dst_platform_identity = ''1001'', dst_identity_id = 1,
     dst_display_name = ''d'', dst_capabilities = JObj [], dst_enabled = True, dst_created_at = demo_stamp,
     dst_disabled_at = None\<rparr>"

definition live_location :: location_row where
  "live_location = \<lparr>loc_id = 1, loc_ref = ''loc_'' @ replicate 26 (CHR ''a''), loc_name = ''l'', loc_enabled = True,
     loc_created_at = demo_stamp\<rparr>"

definition live_db :: comms_db where
  "live_db = demo_db\<lparr>in_transaction := False, locations := [live_location],
     delivery_identities := [\<lparr>idn_id = 1, idn_transport = ''telegram'', idn_identity = ''1001''\<rparr>,
       \<lparr>idn_id = 2, idn_transport = ''telegram'', idn_identity = ''1002''\<rparr>],
     destinations := [live_destination],
     job_origins := [\<lparr>org_job_id = 1, org_endpoint_ref = dst_ref live_destination,
       org_path = [loc_ref live_location, dst_ref live_destination]\<rparr>]\<rparr>"

definition live_world :: world where
  "live_world = \<lparr>w_db = live_db, w_calls = [], w_ticks = 0\<rparr>"

definition demo_transport :: delivery_transport where
  "demo_transport = \<lparr>tr_prepare = (\<lambda>_ _. Inr (Prepared \<lparr>pp_data = [], pp_digest = zero_hex 64\<rparr>)),
     tr_still_valid = (\<lambda>_ _. Inr True),
     tr_deliver = (\<lambda>_. Inr \<lparr>dr_kind = ACCEPTED, dr_message_ref = Some ''m1''\<rparr>),
     tr_request_key = None, tr_actor = None\<rparr>"

definition demo_engine :: "string option \<Rightarrow> engine" where
  "demo_engine crash = \<lparr>en_transports = [(''telegram'', demo_transport)], en_clock = (\<lambda>_. demo_now), en_crash_at = crash\<rparr>"

definition delivered_run :: "(exn + execution_report) \<times> world" where
  "delivered_run = execute demo_crypto (demo_engine None) True (cmp_ref demo_campaign) live_world"

lemma delivered_run_calls:
  "map (\<lambda>d. (fd_job_ref d, fd_attempt_no d)) (w_calls (snd delivered_run)) = [(job_ref (demo_job 1 PENDING 0), 1)]"
  unfolding delivered_run_def by code_simp

lemma live_system_inv: "system_inv live_db"
  by code_simp

lemma quiet_world_inv: "system_inv (w_db w) \<Longrightarrow> w_calls w = [] \<Longrightarrow> world_inv w"
  by (simp add: world_inv_def log_inv_def call_marks_def system_inv_def)

section \<open>What holds in every reachable state\<close>

text \<open>C1: the system invariant holds in every state the program can reach from an empty installation,
  through any interleaving of operator operations, provider reports, engine runs that return, raise or
  crash, recoveries and scheduled starts. Attempts are numbered without gap or repetition and at most
  the last one is open; a campaign has a current generation of its own exactly while it is scheduled,
  sending or complete; its summary is the summary of that generation's jobs; nothing of a scheduled
  generation was ever attempted; a sending campaign has a job pending or in flight and a complete one
  has none.\<close>

theorem reachable_system_inv:
  assumes "fresh_world w" and "world_reachable cr w w'"
  shows "system_inv (w_db w')"
  using world_reachable_inv [OF assms(2) fresh_world_inv [OF assms(1)]] by (simp add: world_inv_def)

definition new_world :: world where
  "new_world = \<lparr>w_db = empty_db, w_calls = [], w_ticks = 0\<rparr>"

lemma create_demo: "ok_with (\<lambda>_ t. length (campaigns t) = 1) (create_campaign demo_crypto ''t'' demo_now empty_db)"
  by code_simp

theorem reachable_system_inv_witness:
  "fresh_world new_world
   \<and> (\<exists>w'. world_reachable demo_crypto new_world w' \<and> length (campaigns (w_db w')) = 1 \<and> system_inv (w_db w'))"
proof -
  have f: "fresh_world new_world" by (simp add: fresh_world_def new_world_def empty_db_def)
  obtain r t where t: "create_campaign demo_crypto ''t'' demo_now empty_db = Inr (r, t)" "length (campaigns t) = 1"
    using ok_withD [OF create_demo] by blast
  have "world_step demo_crypto new_world (new_world\<lparr>w_db := t\<rparr>)"
    using t(1) by (intro world_step.operation core_step.create [where title = "''t''" and now = demo_now and r = r])
      (simp add: new_world_def)
  then have r: "world_reachable demo_crypto new_world (new_world\<lparr>w_db := t\<rparr>)"
    by (rule world_reachable.step [OF world_reachable.start])
  from reachable_system_inv [OF f r] r f t(2) show ?thesis by (intro conjI exI) auto
qed

text \<open>C2: no attempt is delivered twice, and none without a record. In every world reached from a
  consistent database, the calls made to a transport's \<open>deliver\<close> are for distinct attempts (by job and
  attempt number), and every one of them has its attempt row committed for that job; this holds across
  crashes at any seam of the engine, whatever the transports and the clock answer.\<close>

theorem deliveries_are_recorded_and_distinct:
  assumes "system_inv (w_db w)" and "w_calls w = []" and "world_reachable cr w w'"
  shows "distinct (map (\<lambda>d. (fd_job_ref d, fd_attempt_no d)) (w_calls w'))
    \<and> (\<forall>d\<in>set (w_calls w'). \<exists>j\<in>set (delivery_jobs (w_db w')). \<exists>a\<in>set (delivery_attempts (w_db w')).
         job_ref j = fd_job_ref d \<and> att_job_id a = job_id j \<and> att_no a = fd_attempt_no d)"
proof -
  have "log_inv w'"
    using world_reachable_inv [OF assms(3) quiet_world_inv [OF assms(1,2)]] by (simp add: world_inv_def)
  then show ?thesis
    by (fastforce simp: log_inv_def call_marks_def job_names_def attempt_marks_def)
qed

theorem deliveries_are_recorded_and_distinct_witness:
  "map fd_job_ref (w_calls (snd delivered_run)) = [job_ref (demo_job 1 PENDING 0)]
   \<and> distinct (map (\<lambda>d. (fd_job_ref d, fd_attempt_no d)) (w_calls (snd delivered_run)))"
proof -
  obtain r w' where run: "delivered_run = (r, w')" by fastforce
  have "world_step demo_crypto live_world w'"
    using run unfolding delivered_run_def by (rule world_step.run)
  then have reach: "world_reachable demo_crypto live_world w'"
    by (rule world_reachable.step [OF world_reachable.start])
  have "system_inv (w_db live_world)" "w_calls live_world = []"
    using live_system_inv by (simp_all add: live_world_def)
  from deliveries_are_recorded_and_distinct [OF this reach] delivered_run_calls show ?thesis
    by (simp add: run) auto
qed

text \<open>C6: recovery resolves exactly the jobs a crash left in flight. When recovery returns, it held the
  executor lease, each job that was in flight has an unknown outcome, every other job is as it was, and
  nothing was sent.\<close>

theorem recovery_marks_in_flight_unknown:
  assumes "system_inv (w_db w)" and "recover cr lease now w = (Inr rep, w')"
  shows "lease \<and> w_calls w' = w_calls w
    \<and> delivery_jobs (w_db w') = map (\<lambda>j. if job_state j = IN_FLIGHT then j\<lparr>job_state := OUTCOME_UNKNOWN\<rparr> else j)
        (delivery_jobs (w_db w))"
proof -
  have "tables_ok (w_db w)" using assms(1) by (simp add: system_inv_def)
  from recover_lands(2) [OF assms(2) this] io_withinD [OF recover_same_calls assms(2)] assms(2) show ?thesis
    by (auto simp: landed_def update_where_def same_calls_def recover_def io_Inr require_lease_def io_raise_def
        split: if_splits)
qed

definition recovered_run :: "(exn + recovery_report) \<times> world" where
  "recovered_run = recover demo_crypto True demo_now live_world"

lemma recovered_run_ok: "is_ok (fst recovered_run)"
  unfolding recovered_run_def by code_simp

theorem recovery_marks_in_flight_unknown_witness:
  "is_ok (fst recovered_run) \<and> map job_state (delivery_jobs (w_db (snd recovered_run))) = [PENDING, OUTCOME_UNKNOWN]"
proof -
  obtain r w' where run: "recovered_run = (r, w')" by fastforce
  with recovered_run_ok obtain rep where rep: "r = Inr rep" by (cases r) (simp_all add: run)
  have "system_inv (w_db live_world)" using live_system_inv by (simp add: live_world_def)
  from recovery_marks_in_flight_unknown [OF this, of demo_crypto True demo_now rep w'] run rep
  have "delivery_jobs (w_db w') = map (\<lambda>j. if job_state j = IN_FLIGHT then j\<lparr>job_state := OUTCOME_UNKNOWN\<rparr> else j)
        (delivery_jobs (w_db live_world))"
    by (simp add: recovered_run_def)
  then show ?thesis unfolding run rep by (simp add: live_world_def live_db_def demo_db_def demo_job_def)
qed

end
