(* ===== verification/Comms_Providers.thy ===== *)
theory Comms_Providers
  imports Comms_Validators
begin

text \<open>
  The idempotency table of \<open>core/providers/semantics.py\<close>, which says for each capability an actor
  supports how it may be retried and what an ambiguous outcome permits. Capabilities are the string
  values of \<open>core/providers/capability.py\<close>.
\<close>

section \<open>Sets of capabilities\<close>

definition READS :: "string list" where
  "READS = [
     ''member.list'', ''member.get'', ''admin.list'', ''admin.log.read'', ''invite.list'',
     ''join_request.list'', ''topic.list'', ''history.read'', ''history.search'',
     ''media.retrieve'', ''template.list'', ''template.get'', ''webhook.receive_message'',
     ''webhook.receive_status'', ''account.inspect'', ''phone_number.inspect'',
     ''phone_number.health'', ''group.list'', ''group.get'', ''group.members'',
     ''group.invite.get'', ''profile.read'', ''media.list'', ''media.get'', ''insights.read'',
     ''comment.list'', ''tag.list'', ''publishing.quota_read'']"

definition USER_ONLY :: "string list" where
  "USER_ONLY = [
     ''member.list'', ''member.add'', ''admin.log.read'', ''invite.list'',
     ''join_request.list'', ''topic.list'', ''history.read'', ''history.search'',
     ''group.create'', ''group.delete'', ''group.migrate'']"

definition TELEGRAM_CAPS :: "string list" where
  "TELEGRAM_CAPS = [
     ''message.send'', ''message.edit'', ''message.delete'', ''message.forward'',
     ''message.pin'', ''member.list'', ''member.get'', ''member.add'', ''member.remove'',
     ''member.ban'', ''member.unban'', ''member.restrict'', ''member.tag'',
     ''reaction.remove'', ''reaction.clear'', ''admin.list'', ''admin.promote'',
     ''admin.demote'', ''admin.log.read'', ''invite.create'', ''invite.edit'',
     ''invite.revoke'', ''invite.list'', ''join_request.list'', ''join_request.approve'',
     ''join_request.reject'', ''chat.set_title'', ''chat.set_description'', ''chat.set_photo'',
     ''chat.set_permissions'', ''topic.list'', ''topic.create'', ''topic.edit'',
     ''topic.close'', ''topic.reopen'', ''history.read'', ''history.search'', ''group.create'',
     ''group.delete'', ''group.migrate'']"

definition HOOK_CAPS :: "string list" where
  "HOOK_CAPS = [
     ''webhook.receive_message'', ''webhook.receive_status'']"

definition INSTAGRAM_CAPS :: "string list" where
  "INSTAGRAM_CAPS = [
     ''profile.read'', ''media.list'', ''media.get'', ''insights.read'', ''comment.list'',
     ''tag.list'', ''publishing.quota_read'', ''media.container_create'',
     ''media.carousel_create'', ''media.publish'', ''comment.reply'', ''comment.hide'',
     ''comment.delete'', ''media.comments_toggle'']"

definition SENDS :: "string list" where
  "SENDS = [
     ''message.send'', ''message.forward'', ''message.reply'', ''message.send_text'',
     ''message.send_image'', ''message.send_video'', ''message.send_audio'',
     ''message.send_document'', ''message.send_location'', ''message.send_contacts'',
     ''message.send_interactive'', ''message.send_template'', ''group.message.send'',
     ''message.send_media'']"

definition CREATES :: "string list" where
  "CREATES = [
     ''invite.create'', ''topic.create'', ''group.create'', ''media.upload'',
     ''template.create'', ''chat.set_photo'', ''media.container_create'',
     ''media.carousel_create'', ''media.publish'', ''comment.reply'']"

definition DESTROYS :: "string list" where
  "DESTROYS = [
     ''group.delete'', ''group.migrate'', ''group.invite.reset'', ''message.delete'',
     ''media.delete'', ''template.delete'', ''comment.delete'']"

section \<open>Who supports what\<close>

abbreviation BOT :: string where "BOT \<equiv> ''telegram_bot''"
abbreviation USER :: string where "USER \<equiv> ''telegram_user''"
abbreviation CLOUD :: string where "CLOUD \<equiv> ''whatsapp_cloud''"
abbreviation HOOKS :: string where "HOOKS \<equiv> ''whatsapp_webhooks''"
abbreviation INSTAGRAM :: string where "INSTAGRAM \<equiv> ''instagram''"

text \<open>The entries in the order of the dict display; a later entry replaces an earlier one.\<close>

definition SUPPORT :: "(string \<times> string list) list" where
  "SUPPORT =
     map (\<lambda>c. (c, if c \<in> set USER_ONLY then [USER] else [BOT, USER])) TELEGRAM_CAPS
   @ map (\<lambda>c. (c, [CLOUD])) (filter (\<lambda>c. c \<notin> set TELEGRAM_CAPS \<and> c \<notin> set HOOK_CAPS \<and> c \<notin> set INSTAGRAM_CAPS)
       CAPABILITIES)
   @ map (\<lambda>c. (c, [INSTAGRAM])) INSTAGRAM_CAPS
   @ map (\<lambda>c. (c, [HOOKS])) HOOK_CAPS
   @ [(''group.invite.reset'', [BOT, USER, CLOUD]), (''message.pin'', [BOT, USER, CLOUD]),
      (''join_request.list'', [USER, CLOUD]), (''join_request.approve'', [BOT, USER, CLOUD]),
      (''join_request.reject'', [BOT, USER, CLOUD]), (''group.create'', [USER, CLOUD]),
      (''group.delete'', [USER, CLOUD]), (''message.mark_read'', [USER, CLOUD]),
      (''message.send_media'', [BOT, USER, CLOUD]), (''media.upload'', [USER, CLOUD]),
      (''history.read'', [USER, INSTAGRAM]), (''message.reply'', [CLOUD, INSTAGRAM])]"

definition support_of :: "string \<Rightarrow> string list" where
  "support_of c = (case map_of (rev SUPPORT) c of None \<Rightarrow> [] | Some actors \<Rightarrow> actors)"

section \<open>Semantics\<close>

record op_semantics =
  os_retry_class :: string
  os_strategy :: string
  os_policy :: string
  os_steps :: "string list"
  os_step_args :: "(string \<times> json) list list"

definition simple_semantics :: "string \<Rightarrow> string \<Rightarrow> string \<Rightarrow> op_semantics" where
  "simple_semantics cls strategy policy = \<lparr>os_retry_class = cls, os_strategy = strategy, os_policy = policy,
     os_steps = [], os_step_args = []\<rparr>"

definition REMOVE_SAGA :: op_semantics where
  "REMOVE_SAGA = \<lparr>os_retry_class = ''SET_STATE'', os_strategy = ''natural'', os_policy = ''retry_same_key'',
     os_steps = [''member.ban'', ''member.unban''], os_step_args = [[], [(''only_if_banned'', JBool True)]]\<rparr>"

definition semantics_for :: "string \<Rightarrow> string \<Rightarrow> op_semantics" where
  "semantics_for capability actor =
     (if capability \<in> set READS then simple_semantics ''READ'' ''natural'' ''retry_same_key''
      else if capability \<in> set SENDS then
        (if actor = USER then simple_semantics ''MESSAGE_SEND'' ''provider_random_id'' ''retry_same_key''
         else simple_semantics ''MESSAGE_SEND'' ''none'' ''resolve_only'')
      else if capability \<in> set CREATES then simple_semantics ''CREATE'' ''none'' ''resolve_only''
      else if capability \<in> set DESTROYS then simple_semantics ''DESTRUCTIVE_NONIDEMPOTENT'' ''none'' ''resolve_only''
      else if capability = ''member.remove'' then REMOVE_SAGA
      else simple_semantics ''SET_STATE'' ''natural'' ''retry_same_key'')"

text \<open>\<open>SEMANTICS.get((capability, actor))\<close>.\<close>

definition SEMANTICS :: "string \<Rightarrow> string \<Rightarrow> op_semantics option" where
  "SEMANTICS capability actor =
     (if actor \<in> set (support_of capability) then Some (semantics_for capability actor) else None)"

definition is_write :: "string \<Rightarrow> bool" where
  "is_write capability \<longleftrightarrow> capability \<notin> set READS"

section \<open>core/providers/protocols.py\<close>

text \<open>An argument of an operation is a JSON value or file bytes.\<close>

datatype arg = AVal json | ABytes bytes

record provider_target =
  pt_transport :: string
  pt_actor :: string
  pt_destination_ref :: string
  pt_identity :: string

record semantic_operation =
  so_capability :: string
  so_args :: "(string \<times> arg) list"

record provider_result =
  pr_outcome :: string
  pr_code :: "string option"
  pr_provider_ref :: "string option"
  pr_detail :: "(string \<times> json) list"

text \<open>An adapter. \<open>invoke\<close> is told how many calls were made before, so that a provider may answer the
  same call differently each time.\<close>

record admin_operations =
  ao_validate :: "semantic_operation \<Rightarrow> provider_target \<Rightarrow> unit res"
  ao_invoke :: "nat \<Rightarrow> semantic_operation \<Rightarrow> provider_target \<Rightarrow> string \<Rightarrow> provider_result res"

section \<open>What the table promises\<close>

text \<open>The steps the executor runs: the saga's, or the operation itself.\<close>

definition steps_of :: "op_semantics \<Rightarrow> string \<Rightarrow> string list" where
  "steps_of sem capability = (if os_steps sem = [] then [capability] else os_steps sem)"

lemma semantics_SomeD: "SEMANTICS c actor = Some sem \<Longrightarrow> sem = semantics_for c actor \<and> actor \<in> set (support_of c)"
  by (simp add: SEMANTICS_def split: if_splits)

lemma saga_supported: "set (support_of ''member.remove'') \<subseteq> set (support_of ''member.ban'') \<inter> set (support_of ''member.unban'')"
  by code_simp

lemma saga_steps_set: "semantics_for ''member.ban'' a = simple_semantics ''SET_STATE'' ''natural'' ''retry_same_key''"
  "semantics_for ''member.unban'' a = simple_semantics ''SET_STATE'' ''natural'' ''retry_same_key''"
  by (simp_all add: semantics_for_def READS_def SENDS_def CREATES_def DESTROYS_def)

lemma simple_fields [simp]:
  "os_steps (simple_semantics a b p) = []" "os_policy (simple_semantics a b p) = p"
  "os_retry_class (simple_semantics a b p) = a"
  by (simp_all add: simple_semantics_def)

text \<open>The policy and class of each branch of the table; only the removal of a member has steps.\<close>

lemma semantics_for_cases:
  "semantics_for c a = simple_semantics ''READ'' ''natural'' ''retry_same_key''
   \<or> a = USER \<and> semantics_for c a = simple_semantics ''MESSAGE_SEND'' ''provider_random_id'' ''retry_same_key''
   \<or> (\<exists>cls. semantics_for c a = simple_semantics cls ''none'' ''resolve_only'')
   \<or> c = ''member.remove'' \<and> semantics_for c a = REMOVE_SAGA
   \<or> semantics_for c a = simple_semantics ''SET_STATE'' ''natural'' ''retry_same_key''"
  unfolding semantics_for_def by (simp only: split: if_split) blast



end
