(* ===== verification/Comms_Objects.thy ===== *)
theory Comms_Objects
  imports Comms_Refs_Props Comms_Demo
begin

text \<open>
  Durable references for provider objects (\<open>core/objects.py\<close>): one opaque reference per kind,
  transport, actor, destination and provider identity, and the facts recorded of a media object.
\<close>

section \<open>Operations\<close>

definition OBJECT_KINDS :: "string list" where
  "OBJECT_KINDS = [''message'', ''invite'', ''template'', ''topic'', ''media'']"

text \<open>\<open>KIND_PREFIX\<close>: the prefix of each object kind.\<close>

definition KIND_PREFIX :: "(string \<times> string) list" where
  "KIND_PREFIX = map (\<lambda>k. (k, case map_of CORE_PREFIXES k of Some p \<Rightarrow> p | None \<Rightarrow> [])) OBJECT_KINDS"

definition invalid_argument :: exn where
  "invalid_argument = CommsError ''INVALID_ARGUMENT''"

definition message_identity :: "string \<Rightarrow> string \<Rightarrow> string" where
  "message_identity chat message_id = chat @ '':'' @ message_id"

type_synonym object_key = "string \<times> string \<times> string \<times> nat \<times> string"

definition object_key :: "object_row \<Rightarrow> object_key" where
  "object_key r = (obj_kind r, obj_transport r, obj_actor r,
     (case obj_destination_id r of None \<Rightarrow> 0 | Some d \<Rightarrow> d), obj_provider_identity r)"

text \<open>\<open>provider_objects_identity\<close>, the CHECK clauses and the destination reference.\<close>

definition insert_object :: "object_row \<Rightarrow> unit db_tx" where
  "insert_object r s =
     (if obj_ref r \<in> obj_ref ` set (provider_objects s) \<or> obj_kind r \<notin> set OBJECT_KINDS
         \<or> obj_transport r \<notin> set TRANSPORT_NAMES
         \<or> (case obj_destination_id r of None \<Rightarrow> False | Some d \<Rightarrow> d \<notin> dst_id ` set (destinations s))
         \<or> object_key r \<in> object_key ` set (provider_objects s)
      then violates s
      else Inr ((), s\<lparr>provider_objects := provider_objects s @ [r]\<rparr>))"

definition object_ref_body ::
  "string \<Rightarrow> string \<Rightarrow> string \<Rightarrow> nat option \<Rightarrow> string \<Rightarrow> string \<Rightarrow> string db_tx" where
  "object_ref_body kind transport actor destination identity stamp =
     (let key = (kind, transport, actor, (case destination of None \<Rightarrow> 0 | Some d \<Rightarrow> d), identity)
      in tx_bind (tx_reads (\<lambda>s. find (\<lambda>r. object_key r = key) (provider_objects s))) (\<lambda>row.
         case row of
           Some r \<Rightarrow>
             tx_then (tx_modify (\<lambda>s. s\<lparr>provider_objects :=
               update_where (\<lambda>o'. obj_id o' = obj_id r) (\<lambda>o'. o'\<lparr>obj_last_seen_at := stamp\<rparr>) (provider_objects s)\<rparr>))
             (tx_return (obj_ref r))
         | None \<Rightarrow>
             tx_bind (mint_ref kind) (\<lambda>ref.
             tx_bind (tx_reads (\<lambda>s. next_id obj_id (provider_objects s))) (\<lambda>oid.
             tx_then (insert_object \<lparr>obj_id = oid, obj_ref = ref, obj_kind = kind, obj_transport = transport,
                 obj_actor = actor, obj_destination_id = destination, obj_provider_identity = identity,
                 obj_created_at = stamp, obj_last_seen_at = stamp\<rparr>)
             (tx_return ref)))))"

definition object_ref ::
  "string \<Rightarrow> string \<Rightarrow> string \<Rightarrow> nat option \<Rightarrow> string \<Rightarrow> datetime \<Rightarrow> string db_tx" where
  "object_ref kind transport actor destination identity now =
     tx_then (tx_guard (kind \<in> set OBJECT_KINDS \<and> transport \<in> set TRANSPORT_NAMES) invalid_argument)
     (tx_then (tx_guard (actor \<noteq> [] \<and> identity \<noteq> []) invalid_argument)
     (tx_bind (tx_lift (iso now)) (\<lambda>stamp.
      write_tx (object_ref_body kind transport actor destination identity stamp))))"

record provider_object =
  po_ref :: string
  po_kind :: string
  po_transport :: string
  po_actor :: string
  po_destination_id :: "nat option"
  po_provider_identity :: string

text \<open>The kind a reference's prefix names, before its shape is checked.\<close>

definition prefix_kind :: "string \<Rightarrow> string option" where
  "prefix_kind ref = map_option fst (find (\<lambda>(k, p). take (length p) ref = p) KIND_PREFIX)"

definition resolve_object :: "comms_db \<Rightarrow> string \<Rightarrow> string \<Rightarrow> provider_object res" where
  "resolve_object s ref expected_kind =
     (if expected_kind \<notin> set OBJECT_KINDS then Inl invalid_argument
      else if prefix_kind ref \<noteq> Some expected_kind then Inl invalid_argument
      else case check ref expected_kind of
             Inl _ \<Rightarrow> Inl invalid_argument
           | Inr _ \<Rightarrow>
               (case find (\<lambda>r. obj_ref r = ref) (provider_objects s) of
                  None \<Rightarrow> Inl (CommsError ''NOT_FOUND'')
                | Some r \<Rightarrow> Inr \<lparr>po_ref = ref, po_kind = obj_kind r, po_transport = obj_transport r,
                    po_actor = obj_actor r, po_destination_id = obj_destination_id r,
                    po_provider_identity = obj_provider_identity r\<rparr>))"

definition latest_object :: "comms_db \<Rightarrow> string \<Rightarrow> string \<Rightarrow> nat option \<Rightarrow> string option" where
  "latest_object s kind transport destination =
     (case destination of
        None \<Rightarrow> None
      | Some d \<Rightarrow>
          (case rev (sort_key obj_id (filter (\<lambda>r. obj_kind r = kind \<and> obj_transport r = transport
                  \<and> obj_destination_id r = Some d) (provider_objects s))) of
             [] \<Rightarrow> None
           | r # _ \<Rightarrow> Some (obj_ref r)))"

definition MEDIA_ORIGINS :: "string list" where
  "MEDIA_ORIGINS = [''telegram_message'', ''telegram_bot_update'', ''telegram_upload'']"

text \<open>\<open>INSERT OR IGNORE INTO media_facts ... SELECT id ... WHERE ref = ?\<close>: an unknown reference, a second
  record and a row that fails a CHECK are ignored.\<close>

definition insert_media :: "media_row \<Rightarrow> comms_db \<Rightarrow> comms_db" where
  "insert_media m s =
     (if mf_object_id m \<in> mf_object_id ` set (media_facts s) \<or> length (mf_mime m) < 3 \<or> 128 < length (mf_mime m)
         \<or> (case mf_size m of None \<Rightarrow> False | Some n \<Rightarrow> n < 0)
      then s else s\<lparr>media_facts := media_facts s @ [m]\<rparr>)"

definition record_media ::
  "string \<Rightarrow> string \<Rightarrow> string \<Rightarrow> int option \<Rightarrow> string \<Rightarrow> datetime \<Rightarrow> unit db_tx" where
  "record_media ref kind mime sz origin now =
     tx_then (tx_guard (kind \<in> {''photo'', ''document''} \<and> origin \<in> set MEDIA_ORIGINS) invalid_argument)
     (write_tx (tx_bind (tx_lift (iso now)) (\<lambda>stamp.
        tx_modify (\<lambda>s. case find (\<lambda>r. obj_ref r = ref) (provider_objects s) of
          None \<Rightarrow> s
        | Some r \<Rightarrow> insert_media \<lparr>mf_object_id = obj_id r, mf_kind = kind, mf_mime = mime, mf_size = sz,
                      mf_origin = origin, mf_recorded_at = stamp\<rparr> s))))"

definition media_facts_of :: "comms_db \<Rightarrow> string \<Rightarrow> (string \<times> string \<times> int option \<times> string) option" where
  "media_facts_of s ref =
     (case find (\<lambda>r. obj_ref r = ref) (provider_objects s) of
        None \<Rightarrow> None
      | Some r \<Rightarrow> map_option (\<lambda>m. (mf_kind m, mf_mime m, mf_size m, mf_origin m))
                    (find (\<lambda>m. mf_object_id m = obj_id r) (media_facts s)))"

section \<open>What a reference names\<close>

definition objects_inv :: "comms_db \<Rightarrow> bool" where
  "objects_inv s \<longleftrightarrow> distinct (map obj_id (provider_objects s)) \<and> distinct (map obj_ref (provider_objects s))
     \<and> distinct (map object_key (provider_objects s)) \<and> list_all (\<lambda>r. kind_of (obj_ref r) = Inr (obj_kind r)) (provider_objects s)"

lemma kind_prefix:
  assumes "kind_of r = Inr k"
  shows "\<exists>p b. map_of CORE_PREFIXES k = Some p \<and> r = p @ b"
proof -
  from assms obtain p where p: "validate_ref_format r = Inr p" "map_of KIND_BY_PREFIX p = Some k"
    by (auto simp: kind_of_def split: sum.splits option.splits)
  have "(p, k) \<in> set KIND_BY_PREFIX" using p(2) by (rule map_of_SomeD)
  moreover have "list_all (\<lambda>(p, k). map_of CORE_PREFIXES k = Some p) KIND_BY_PREFIX" by code_simp
  ultimately have "map_of CORE_PREFIXES k = Some p" by (auto simp: list_all_iff)
  with validate_ref_format_Inr [OF p(1)] show ?thesis by auto
qed

lemma object_kind_prefix:
  assumes "k \<in> set OBJECT_KINDS" and "kind_of r = Inr k"
  shows "prefix_kind r = Some k"
proof -
  from kind_prefix [OF assms(2)] obtain p b where p: "map_of CORE_PREFIXES k = Some p" and r: "r = p @ b" by blast
  from assms(1) consider "k = ''message''" | "k = ''invite''" | "k = ''template''" | "k = ''topic''" | "k = ''media''"
    by (auto simp: OBJECT_KINDS_def)
  then show ?thesis
    using p unfolding r prefix_kind_def KIND_PREFIX_def OBJECT_KINDS_def CORE_PREFIXES_def by cases auto
qed

lemma insert_object_inv:
  assumes "insert_object r s = Inr (x, t)" and "objects_inv s" and "kind_of (obj_ref r) = Inr (obj_kind r)"
    and "obj_id r = next_id obj_id (provider_objects s)"
  shows "objects_inv t \<and> provider_objects t = provider_objects s @ [r]"
  using assms next_id_fresh [of obj_id "provider_objects s"]
  by (auto simp: insert_object_def objects_inv_def violates_def split: if_splits)

lemma seen_objects_inv:
  assumes "objects_inv s" and "t = s\<lparr>provider_objects := update_where p (obj_last_seen_at_update f) (provider_objects s)\<rparr>"
  shows "objects_inv t"
proof -
  have "object_key (obj_last_seen_at_update f r) = object_key r" for r by (simp add: object_key_def)
  then show ?thesis using assms by (simp add: objects_inv_def list_all_iff set_update_where) auto
qed

text \<open>What the body returns: the reference of the one row with the key asked for.\<close>

lemma object_ref_body_names:
  assumes run: "object_ref_body kind tr actor d identity stamp s = Inr (ref, t)" and inv: "objects_inv s"
  shows "objects_inv t \<and> (\<exists>r\<in>set (provider_objects t). obj_ref r = ref
    \<and> object_key r = (kind, tr, actor, (case d of None \<Rightarrow> 0 | Some i \<Rightarrow> i), identity))"
proof (cases "find (\<lambda>r. object_key r = (kind, tr, actor, (case d of None \<Rightarrow> 0 | Some i \<Rightarrow> i), identity)) (provider_objects s)")
  case None
  with run obtain s1 oid where m: "mint_ref kind s = Inr (ref, s1)" and oid: "oid = next_id obj_id (provider_objects s1)"
    and ins: "insert_object \<lparr>obj_id = oid, obj_ref = ref, obj_kind = kind, obj_transport = tr,
                 obj_actor = actor, obj_destination_id = d, obj_provider_identity = identity,
                 obj_created_at = stamp, obj_last_seen_at = stamp\<rparr> s1 = Inr ((), t)"
    by (auto simp: object_ref_body_def tx_inr)
  have "objects_inv s1" using mint_ref_kind [OF m] inv by (simp add: objects_inv_def)
  from insert_object_inv [OF ins this] mint_ref_kind [OF m] oid show ?thesis by (simp add: object_key_def)
next
  case (Some r)
  with run have t: "t = s\<lparr>provider_objects := update_where (\<lambda>o'. obj_id o' = obj_id r)
      (obj_last_seen_at_update (\<lambda>_. stamp)) (provider_objects s)\<rparr>" and ref: "ref = obj_ref r"
    by (auto simp: object_ref_body_def tx_inr)
  have r: "r \<in> set (provider_objects s)" "object_key r = (kind, tr, actor, (case d of None \<Rightarrow> 0 | Some i \<Rightarrow> i), identity)"
    using find_Some_iff_key [OF Some] by auto
  from r(1) have "obj_last_seen_at_update (\<lambda>_. stamp) r \<in> set (provider_objects t)"
    by (auto simp: t set_update_where)
  moreover have "object_key (obj_last_seen_at_update (\<lambda>_. stamp) r) = object_key r" by (simp add: object_key_def)
  ultimately show ?thesis
    using seen_objects_inv [OF inv t] r(2) ref
    by (intro conjI bexI [of _ "r\<lparr>obj_last_seen_at := stamp\<rparr>"]) simp_all
qed

lemma objects_inv_flag [simp]: "objects_inv (s\<lparr>in_transaction := b\<rparr>) = objects_inv s"
  by (simp add: objects_inv_def)

lemma object_ref_run:
  assumes "object_ref kind tr actor d identity now s = Inr (ref, t)"
  obtains stamp u where "kind \<in> set OBJECT_KINDS"
    and "object_ref_body kind tr actor d identity stamp (s\<lparr>in_transaction := True\<rparr>) = Inr (ref, u)"
    and "t = u\<lparr>in_transaction := False\<rparr>"
  using assms by (auto simp: object_ref_def tx_inr write_tx_def split: if_splits sum.splits)

lemma object_ref_names:
  assumes "object_ref kind tr actor d identity now s = Inr (ref, t)" and "objects_inv s"
  shows "objects_inv t \<and> (\<exists>r\<in>set (provider_objects t). obj_ref r = ref
    \<and> object_key r = (kind, tr, actor, (case d of None \<Rightarrow> 0 | Some i \<Rightarrow> i), identity))"
  using assms(1) by (rule object_ref_run) (use object_ref_body_names assms(2) in fastforce)

lemma object_ref_known:
  assumes run: "object_ref kind tr actor d identity now s = Inr (ref, t)" and inv: "objects_inv s"
    and r: "r \<in> set (provider_objects s)" "object_key r = (kind, tr, actor, (case d of None \<Rightarrow> 0 | Some i \<Rightarrow> i), identity)"
  shows "ref = obj_ref r"
  using run
proof (rule object_ref_run)
  fix stamp u
  assume body: "object_ref_body kind tr actor d identity stamp (s\<lparr>in_transaction := True\<rparr>) = Inr (ref, u)"
  have "find (\<lambda>x. object_key x = object_key r) (provider_objects s) = Some r"
    using find_key_unique [of object_key "provider_objects s" r] inv r(1) by (simp add: objects_inv_def)
  then show ?thesis using body by (simp add: object_ref_body_def tx_inr r(2))
qed

text \<open>C1: a provider object's reference names exactly that object, for good. The reference \<open>object_ref\<close>
  returns resolves, under its kind, to the kind, transport, actor, destination and provider identity it
  was asked for, and asking again for the same object, at any later time, returns the same reference.\<close>

theorem object_ref_roundtrip:
  assumes "objects_inv s" and "object_ref kind tr actor d identity now s = Inr (ref, t)"
  shows "\<exists>p. resolve_object t ref kind = Inr p \<and> po_kind p = kind \<and> po_transport p = tr \<and> po_actor p = actor
      \<and> (case po_destination_id p of None \<Rightarrow> 0 | Some i \<Rightarrow> i) = (case d of None \<Rightarrow> 0 | Some i \<Rightarrow> i)
      \<and> po_provider_identity p = identity
      \<and> (\<forall>later ref' u. object_ref kind tr actor d identity later t = Inr (ref', u) \<longrightarrow> ref' = ref)"
proof -
  from object_ref_names [OF assms(2,1)] obtain r where inv: "objects_inv t" and r: "r \<in> set (provider_objects t)"
    "obj_ref r = ref" "object_key r = (kind, tr, actor, (case d of None \<Rightarrow> 0 | Some i \<Rightarrow> i), identity)" by blast
  have kind: "kind \<in> set OBJECT_KINDS" using assms(2) by (rule object_ref_run)
  have "kind_of ref = Inr kind" using inv r by (auto simp: objects_inv_def list_all_iff object_key_def)
  moreover have "find (\<lambda>x. obj_ref x = ref) (provider_objects t) = Some r"
    using find_key_unique [of obj_ref "provider_objects t" r] inv r(1,2) by (simp add: objects_inv_def)
  ultimately have "resolve_object t ref kind = Inr \<lparr>po_ref = ref, po_kind = obj_kind r, po_transport = obj_transport r,
      po_actor = obj_actor r, po_destination_id = obj_destination_id r, po_provider_identity = obj_provider_identity r\<rparr>"
    using kind object_kind_prefix [OF kind] by (simp add: resolve_object_def check_def)
  moreover have "ref' = ref" if "object_ref kind tr actor d identity later t = Inr (ref', u)" for later ref' u
    using object_ref_known [OF that inv r(1,3)] r(2) by simp
  ultimately show ?thesis using r(3) by (auto simp: object_key_def)
qed

lemma object_run_ok:
  "ok_with (\<lambda>ref t. in_transaction t = False)
     (object_ref ''topic'' ''telegram'' ''telegram_user'' None ''42'' demo_now empty_db)"
  by code_simp

theorem object_ref_roundtrip_witness:
  "objects_inv empty_db \<and> (\<exists>ref t. object_ref ''topic'' ''telegram'' ''telegram_user'' None ''42'' demo_now empty_db = Inr (ref, t)
     \<and> (\<exists>p. resolve_object t ref ''topic'' = Inr p \<and> po_provider_identity p = ''42''))"
proof -
  have inv: "objects_inv empty_db" by (simp add: objects_inv_def empty_db_def)
  from ok_withD [OF object_run_ok] obtain ref t
    where run: "object_ref ''topic'' ''telegram'' ''telegram_user'' None ''42'' demo_now empty_db = Inr (ref, t)"
    by blast
  from object_ref_roundtrip [OF inv run] run inv show ?thesis by blast
qed

end
