(* ===== verification/Comms_Chain_Props.thy ===== *)
theory Comms_Chain_Props
  imports Comms_Events Comms_Refs_Props Comms_Demo
begin

text \<open>
  What the audit chain promises: an append to a chain that verifies leaves a chain that verifies,
  with the appended event at its head.
\<close>

section \<open>Rows in chain order\<close>

lemma insort_key_snoc: "f y \<le> f x \<Longrightarrow> insort_key f y (zs @ [x]) = insort_key f y zs @ [x]"
  by (induction zs) auto

lemma sort_key_snoc:
  assumes "\<And>y. y \<in> set xs \<Longrightarrow> f y \<le> f x"
  shows "sort_key f (xs @ [x]) = sort_key f xs @ [x]"
  using assms by (induction xs) (simp_all add: insort_key_snoc)

lemma head_last: "head s = (if audit_events s = [] then None else Some (last (chain_rows s)))"
  by (cases "chain_rows s" rule: rev_cases) (auto simp: head_def chain_rows_def dest: arg_cong [of _ _ set])

lemma head_SomeD:
  assumes "head s = Some h"
  shows "h \<in> set (audit_events s)" "\<exists>rs. chain_rows s = rs @ [h]"
    and "\<And>r. r \<in> set (audit_events s) \<Longrightarrow> chain_pos r \<le> chain_pos h"
proof -
  from assms obtain rs where rs: "chain_rows s = rs @ [h]"
    by (cases "chain_rows s" rule: rev_cases) (auto simp: head_def)
  then show "\<exists>rs. chain_rows s = rs @ [h]" by blast
  have sets: "set (audit_events s) = insert h (set rs)"
    using arg_cong [OF rs, of set] by (simp add: chain_rows_def)
  then show "h \<in> set (audit_events s)" by simp
  have "sorted (map chain_pos (rs @ [h]))" unfolding rs [symmetric] by (simp add: chain_rows_def)
  then show "chain_pos r \<le> chain_pos h" if "r \<in> set (audit_events s)" for r
    using that by (auto simp: sets sorted_append)
qed

text \<open>A row past the head goes to the end.\<close>

lemma chain_rows_snoc:
  assumes "\<And>h. head s = Some h \<Longrightarrow> chain_pos h \<le> chain_pos r"
  shows "chain_rows (s\<lparr>audit_events := audit_events s @ [r]\<rparr>) = chain_rows s @ [r]"
    and "head (s\<lparr>audit_events := audit_events s @ [r]\<rparr>) = Some r"
proof -
  have "chain_pos q \<le> chain_pos r" if "q \<in> set (audit_events s)" for q
  proof -
    from that obtain h where h: "head s = Some h" by (cases "audit_events s") (auto simp: head_last)
    from head_SomeD(3) [OF h that] assms [OF h] show ?thesis by (rule order_trans)
  qed
  then show rows: "chain_rows (s\<lparr>audit_events := audit_events s @ [r]\<rparr>) = chain_rows s @ [r]"
    by (simp add: chain_rows_def sort_key_snoc)
  then show "head (s\<lparr>audit_events := audit_events s @ [r]\<rparr>) = Some r" by (simp add: head_def)
qed

section \<open>Appending to a chain that verifies\<close>

definition chain_epoch :: "comms_db \<Rightarrow> nat" where
  "chain_epoch s = (case head s of None \<Rightarrow> 1 | Some h \<Rightarrow> aev_epoch h)"

text \<open>A row the loop accepts after row \<open>l\<close>.\<close>

definition follows :: "crypto \<Rightarrow> bytes \<Rightarrow> audit_event_row \<Rightarrow> audit_event_row \<Rightarrow> bool" where
  "follows cr key l r \<longleftrightarrow> aev_epoch r = aev_epoch l \<and> aev_seq r = aev_seq l + 1 \<and> aev_prev_mac r = aev_mac l
     \<and> event_mac cr key (aev_epoch r) (aev_seq r) (aev_prev_mac r) (event_of_row r) = Inr (aev_mac r)"

text \<open>When the loop accepts a row and the rest; \<open>sealed\<close> says the row ends an epoch before the last.\<close>

lemma verify_rows_Cons:
  "verify_rows cr key_for pub seals le rooted st (r # rs) = Inr () \<longleftrightarrow>
     (\<exists>key. expected_link cr rooted st r = Inr (aev_prev_mac r, aev_seq r) \<and> key_for (aev_epoch r) = Some key
        \<and> event_mac cr key (aev_epoch r) (aev_seq r) (aev_prev_mac r) (event_of_row r) = Inr (aev_mac r)
        \<and> ((case rs of [] \<Rightarrow> True | r' # _ \<Rightarrow> aev_epoch r' \<noteq> aev_epoch r) \<and> aev_epoch r \<noteq> le
             \<longrightarrow> check_seal cr pub seals r = Inr ())
        \<and> verify_rows cr key_for pub seals le rooted (Some (aev_epoch r, aev_mac r, aev_seq r + 1)) rs = Inr ())"
  unfolding verify_rows.simps(2)
  by (cases "key_for (aev_epoch r)"; cases "expected_link cr rooted st r")
    (simp_all split: if_split prod.split, blast)

lemma verify_rows_snoc:
  assumes "verify_rows cr key_for pub seals (aev_epoch l) rooted st (rs @ [l]) = Inr ()"
    and "follows cr key l r" and "key_for (aev_epoch l) = Some key"
  shows "verify_rows cr key_for pub seals (aev_epoch l) rooted st (rs @ [l, r]) = Inr ()"
  using assms(1)
proof (induction rs arbitrary: st)
  case Nil
  then show ?case
    using assms(2,3) by (auto simp: verify_rows_Cons follows_def expected_link_def simp del: verify_rows.simps(2))
next
  case (Cons q rs)
  have ends: "(case rs @ [l, r] of [] \<Rightarrow> True | r' # _ \<Rightarrow> aev_epoch r' \<noteq> aev_epoch q)
    = (case rs @ [l] of [] \<Rightarrow> True | r' # _ \<Rightarrow> aev_epoch r' \<noteq> aev_epoch q)"
    by (cases rs) simp_all
  from Cons.prems Cons.IH show ?case
    unfolding append_Cons verify_rows_Cons ends by blast
qed

lemma chain_append_run:
  assumes "chain_append cr key event s = Inr (row, t)"
  shows "t = s\<lparr>audit_events := audit_events s @ [row]\<rparr> \<and> event_of_row row = event
    \<and> event_mac cr key (aev_epoch row) (aev_seq row) (aev_prev_mac row) event = Inr (aev_mac row)
    \<and> (case head s of
         None \<Rightarrow> aev_epoch row = 1 \<and> aev_seq row = 1 \<and> genesis_mac cr 1 = Inr (aev_prev_mac row)
       | Some h \<Rightarrow> aev_epoch row = aev_epoch h \<and> aev_seq row = aev_seq h + 1 \<and> aev_prev_mac row = aev_mac h)"
  using assms
  by (auto simp: chain_append_def insert_event_def require_chain_tx_def insert_audit_event_def violates_def
      tx_inr event_of_row_def Let_def split: option.splits if_splits)

lemma verify_chain_nonempty:
  assumes "chain_rows s = r # rs"
  shows "verify_chain cr key_for root pub s = Inr () \<longleftrightarrow>
     set (map aev_epoch (r # rs)) = set [aev_epoch r..<Suc (aev_epoch (last (r # rs)))]
   \<and> (root = None \<longrightarrow> aev_epoch r = 1) \<and> (aev_epoch r \<noteq> aev_epoch (last (r # rs)) \<longrightarrow> pub \<noteq> None)
   \<and> (\<exists>seals. collect_seals (checkpoint_rows (\<lambda>c. ack_reason c = EPOCH_SEAL) s) [] = Inr seals
        \<and> (case root of None \<Rightarrow> True | Some rt \<Rightarrow> check_root cr pub rt r s = Inr ())
        \<and> verify_rows cr key_for pub seals (aev_epoch (last (r # rs))) (root \<noteq> None) None (r # rs) = Inr ()
        \<and> aev_epoch (last (r # rs)) \<notin> fst ` set seals)"
proof -
  have split: "(if b then Inl e else x) = Inr () \<longleftrightarrow> \<not> b \<and> x = Inr ()" for b e and x :: "unit res"
    by simp
  show ?thesis
    unfolding verify_chain_def assms list.case Let_def split res_bind_Inr
    by (cases root) auto
qed

lemma verify_chain_snoc:
  assumes s: "chain_rows s = rs @ [h]" and t: "chain_rows t = rs @ [h, row]"
    and seals: "\<And>p. checkpoint_rows p t = checkpoint_rows p s"
    and fol: "follows cr key h row" and key: "key_for (aev_epoch h) = Some key"
    and verified: "verify_chain cr key_for None pub s = Inr ()"
  shows "verify_chain cr key_for None pub t = Inr ()"
proof -
  obtain q qs where q: "rs @ [h] = q # qs" by (cases "rs @ [h]") auto
  then have t_rows: "chain_rows t = q # (qs @ [row])" and s_rows: "chain_rows s = q # qs"
    and last_q: "last (q # qs) = h" and both: "q # (qs @ [row]) = rs @ [h, row]"
    using s t by (auto dest: arg_cong [of _ _ last] arg_cong [of _ _ "\<lambda>xs. xs @ [row]"])
  have same: "aev_epoch row = aev_epoch h" using fol by (simp add: follows_def)
  have "aev_epoch h \<in> aev_epoch ` set (q # qs)" using last_q by (metis imageI last_in_set list.distinct(1))
  then have epochs: "set (map aev_epoch (q # qs @ [row])) = set (map aev_epoch (q # qs))"
    by (auto simp: same)
  have last_row: "aev_epoch (last (q # qs @ [row])) = aev_epoch h" by (simp add: same)
  from verified have first: "aev_epoch q = 1" "aev_epoch q \<noteq> aev_epoch h \<longrightarrow> pub \<noteq> None"
    and range: "set (map aev_epoch (q # qs)) = set [aev_epoch q..<Suc (aev_epoch h)]"
    unfolding verify_chain_nonempty [OF s_rows] last_q by (blast elim: conjE)+
  from verified obtain ss
    where found: "collect_seals (checkpoint_rows (\<lambda>c. ack_reason c = EPOCH_SEAL) s) [] = Inr ss"
      "verify_rows cr key_for pub ss (aev_epoch h) False None (rs @ [h]) = Inr ()"
      "aev_epoch h \<notin> fst ` set ss"
    unfolding verify_chain_nonempty [OF s_rows] last_q q by (auto simp del: verify_rows.simps(2))
  have loop: "verify_rows cr key_for pub ss (aev_epoch h) False None (q # qs @ [row]) = Inr ()"
    using verify_rows_snoc [of cr key_for pub ss h False None rs key row] found(2) fol key by (simp only: both)
  show ?thesis
    unfolding verify_chain_nonempty [OF t_rows] last_row epochs seals
    using first range found(1,3) loop
    by (intro conjI exI [of _ ss]) (simp_all del: verify_rows.simps(2) list.map set_map set_upt)
qed

text \<open>The state an append needs: the chain verifies, the key is that of its epoch, and no checkpoint
  precedes the first event.\<close>

definition chain_verified ::
  "crypto \<Rightarrow> (nat \<Rightarrow> bytes option) \<Rightarrow> (string \<Rightarrow> bytes option) option \<Rightarrow> bytes \<Rightarrow> comms_db \<Rightarrow> bool" where
  "chain_verified cr key_for pub key s \<longleftrightarrow> verify_chain cr key_for None pub s = Inr ()
     \<and> key_for (chain_epoch s) = Some key \<and> (audit_events s = [] \<longrightarrow> audit_checkpoints s = [])"

lemma chain_append_verified:
  assumes ok: "chain_verified cr key_for pub key s" and run: "chain_append cr key event s = Inr (row, t)"
  shows "chain_verified cr key_for pub key t \<and> head t = Some row \<and> chain_epoch t = chain_epoch s"
proof -
  from chain_append_run [OF run] have t: "t = s\<lparr>audit_events := audit_events s @ [row]\<rparr>"
    and ev: "event_of_row row = event"
    and mac: "event_mac cr key (aev_epoch row) (aev_seq row) (aev_prev_mac row) event = Inr (aev_mac row)"
    and pos: "case head s of
         None \<Rightarrow> aev_epoch row = 1 \<and> aev_seq row = 1 \<and> genesis_mac cr 1 = Inr (aev_prev_mac row)
       | Some h \<Rightarrow> aev_epoch row = aev_epoch h \<and> aev_seq row = aev_seq h + 1 \<and> aev_prev_mac row = aev_mac h"
    by auto
  have past: "chain_pos h \<le> chain_pos row" if "head s = Some h" for h
    using pos that by (simp add: chain_pos_def)
  have rows: "chain_rows t = chain_rows s @ [row]" "head t = Some row"
    unfolding t by (rule chain_rows_snoc, erule past)+
  have key: "key_for (chain_epoch s) = Some key" and empty: "audit_events s = [] \<longrightarrow> audit_checkpoints s = []"
    and verified: "verify_chain cr key_for None pub s = Inr ()" using ok by (simp_all add: chain_verified_def)
  have epoch: "chain_epoch t = chain_epoch s"
    using pos rows(2) by (cases "head s") (auto simp: chain_epoch_def)
  have seals: "checkpoint_rows p t = checkpoint_rows p s" for p by (simp add: t checkpoint_rows_def)
  have "verify_chain cr key_for None pub t = Inr ()"
  proof (cases "head s")
    case None
    then have "audit_events s = []" by (auto simp: head_last split: if_splits)
    then have "chain_rows t = [row]" "checkpoint_rows p t = []" for p
      using rows(1) empty by (simp_all add: chain_rows_def checkpoint_rows_def t)
    then show ?thesis
      using None pos key mac ev
      by (simp add: verify_chain_nonempty verify_rows_Cons chain_epoch_def expected_link_def del: verify_rows.simps(2))
  next
    case (Some h)
    then obtain rs where rs: "chain_rows s = rs @ [h]" using head_SomeD(2) by blast
    have fol: "follows cr key h row" using pos mac ev Some by (simp add: follows_def)
    show ?thesis
      by (rule verify_chain_snoc [OF rs _ seals fol _ verified]) (use rs rows(1) key Some in \<open>simp_all add: chain_epoch_def\<close>)
  qed
  then show ?thesis using key epoch rows(2) by (simp add: chain_verified_def t)
qed

lemma chain_verified_cong:
  assumes "audit_events t = audit_events s" and "audit_checkpoints t = audit_checkpoints s"
  shows "chain_verified cr key_for pub key t = chain_verified cr key_for pub key s"
proof -
  have rows: "chain_rows t = chain_rows s" "checkpoint_rows p t = checkpoint_rows p s" "head t = head s" for p
    using assms by (simp_all add: chain_rows_def checkpoint_rows_def head_def)
  show ?thesis
    unfolding chain_verified_def chain_epoch_def verify_chain_def check_root_def rows assms by (rule refl)
qed

lemma chain_verified_fields [simp]:
  "chain_verified cr kf pub key (s\<lparr>in_transaction := b\<rparr>) = chain_verified cr kf pub key s"
  "chain_verified cr kf pub key (s\<lparr>audit_appended := b\<rparr>) = chain_verified cr kf pub key s"
  "chain_verified cr kf pub key (s\<lparr>draws := n\<rparr>) = chain_verified cr kf pub key s"
  "chain_verified cr kf pub key (s\<lparr>audit_integrity := i\<rparr>) = chain_verified cr kf pub key s"
  "chain_verified cr kf pub key (s\<lparr>mutations := ms\<rparr>) = chain_verified cr kf pub key s"
  "chain_verified cr kf pub key (s\<lparr>mutation_steps := ss\<rparr>) = chain_verified cr kf pub key s"
  "chain_verified cr kf pub key (s\<lparr>provider_objects := os\<rparr>) = chain_verified cr kf pub key s"
  by (rule chain_verified_cong; simp)+

lemma mint_ref_chain: "tx_within (kept (chain_verified cr kf pub key)) (mint_ref kind)"
  by (rule mint_ref_within) (simp add: kept_def)

lemma audit_event_of_chain:
  "tx_within (kept (chain_verified cr kf pub key)) (audit_event_of tx kind sref sdig payload)"
  unfolding audit_event_of_def by (intro kept.within_intros mint_ref_chain)

lemma audit_append_verified:
  assumes "chain_verified (atx_crypto tx) key_for pub (atx_key tx) s"
    and "audit_append tx kind sref sdig payload s = Inr (row, t)"
  shows "verify_chain (atx_crypto tx) key_for None pub t = Inr () \<and> head t = Some row
    \<and> chain_verified (atx_crypto tx) key_for pub (atx_key tx) t"
proof -
  from assms(2) obtain event u v where ev: "audit_event_of tx kind sref sdig payload s = Inr (event, u)"
    and ap: "chain_append (atx_crypto tx) (atx_key tx) event u = Inr (row, v)" and t: "t = v\<lparr>audit_appended := True\<rparr>"
    by (auto simp: audit_append_def tx_inr)
  have "chain_verified (atx_crypto tx) key_for pub (atx_key tx) u"
    using tx_withinD [OF audit_event_of_chain ev] assms(1) by (auto simp: kept_def)
  from chain_append_verified [OF this ap] show ?thesis
    by (simp add: t chain_verified_def head_def chain_rows_def) (metis chain_verified_def chain_verified_fields(2))
qed

lemma audit_append_chain:
  assumes "atx_crypto tx = cr" and "atx_key tx = key"
  shows "tx_within (kept (chain_verified cr kf pub key)) (audit_append tx kind sref sdig payload)"
  using audit_append_verified [of tx] assms by (auto simp: tx_within_def kept_def)

text \<open>C24: an append by the writer keeps the chain verifiable. If the chain verifies and the writer holds
  the key of its epoch, then after an event was appended the chain still verifies, whatever the event
  and however many rows precede it, and the event is the head.\<close>

theorem audit_append_keeps_chain:
  assumes "chain_verified (atx_crypto tx) key_for pub (atx_key tx) s"
    and "audit_append tx kind sref sdig payload s = Inr (row, t)"
  shows "verify_chain (atx_crypto tx) key_for None pub t = Inr () \<and> head t = Some row
    \<and> chain_verified (atx_crypto tx) key_for pub (atx_key tx) t"
  using assms by (rule audit_append_verified)

section \<open>An append to a chain with room succeeds\<close>

lemma no_surrogate_char [simp]: "\<not> list_ex is_surrogate (map of_char (s :: string))"
proof -
  have "\<not> is_surrogate (of_char c)" for c :: char
    unfolding is_surrogate_def using nat_of_char_less_256 [of c] by linarith
  then show ?thesis by (simp add: list_ex_iff)
qed

lemma event_json_dumps: "\<exists>b. jcs_dumps (event_json e) = Inr b"
  by (cases "ev_subject_ref e"; cases "ev_subject_digest e")
    (simp_all add: jcs_dumps_def event_json_def jopt_def)

text \<open>The digests and MACs are hexadecimal, as the \<open>hexdigest\<close> methods document.\<close>

definition hex_outputs :: "crypto \<Rightarrow> bool" where
  "hex_outputs cr \<longleftrightarrow> (\<forall>m. is_ok (fromhex (sha256_hex cr m))) \<and> (\<forall>k m. is_ok (fromhex (hmac_sha256_hex cr k m)))"

definition chain_room :: "comms_db \<Rightarrow> bool" where
  "chain_room s \<longleftrightarrow> (case head s of None \<Rightarrow> True
     | Some h \<Rightarrow> 1 \<le> aev_epoch h \<and> aev_epoch h < 2 ^ 64 \<and> aev_seq h + 1 < 2 ^ 64 \<and> is_ok (fromhex (aev_mac h)))"

lemma is_ok_Inr: "is_ok r \<longleftrightarrow> (\<exists>x. r = Inr x)"
  by (cases r) simp_all

lemma event_mac_returns:
  assumes "epoch < 2 ^ 64" "sq < 2 ^ 64" "is_ok (fromhex prev)"
  shows "\<exists>mac. event_mac cr key epoch sq prev e = Inr mac"
  using assms event_json_dumps [of e] by (auto simp: event_mac_def mac_message_def u64_def is_ok_Inr)

lemma past_head_fresh:
  assumes "head s = Some h"
  shows "(aev_epoch h, Suc (aev_seq h)) \<notin> (\<lambda>r. (aev_epoch r, aev_seq r)) ` set (audit_events s)"
  using head_SomeD(3) [OF assms] by (force simp: chain_pos_def)

lemma insert_event_returns:
  assumes "is_ok (check (ev_event_id e) ''audit_event'')" "ev_event_id e \<notin> aev_event_id ` set (audit_events s)"
    "1 \<le> epoch" "epoch < 2 ^ 64" "1 \<le> sq" "sq < 2 ^ 64" "is_ok (fromhex prev)"
    "(epoch, sq) \<notin> (\<lambda>r. (aev_epoch r, aev_seq r)) ` set (audit_events s)"
  shows "\<exists>row. insert_event cr key e epoch sq prev s = Inr (row, s\<lparr>audit_events := audit_events s @ [row]\<rparr>)"
  using event_mac_returns [OF assms(4,6,7), of cr key e] assms
  by (auto simp: insert_event_def validate_comms_event_def insert_audit_event_def tx_bind_def tx_then_def tx_lift_def Let_def)

lemma chain_append_returns:
  assumes "in_transaction s" "is_ok (check (ev_event_id e) ''audit_event'')"
    "ev_event_id e \<notin> aev_event_id ` set (audit_events s)" "hex_outputs cr" "chain_room s"
  shows "\<exists>row. chain_append cr key e s = Inr (row, s\<lparr>audit_events := audit_events s @ [row]\<rparr>)"
proof (cases "head s")
  case None
  then have "audit_events s = []" by (auto simp: head_last split: if_splits)
  moreover obtain g where "genesis_mac cr 1 = Inr g" "is_ok (fromhex g)"
    using assms(4) by (auto simp: genesis_mac_def u64_def hex_outputs_def)
  ultimately show ?thesis
    using None assms insert_event_returns [of e s 1 1 g cr key]
    by (simp add: chain_append_def require_chain_tx_def tx_bind_def tx_then_def tx_lift_def)
next
  case (Some h)
  then show ?thesis
    using assms insert_event_returns [of e s "aev_epoch h" "aev_seq h + 1" "aev_mac h" cr key] past_head_fresh [OF Some]
    by (simp add: chain_append_def require_chain_tx_def chain_room_def tx_bind_def tx_then_def)
qed

lemma mint_ref_returns:
  assumes "map_of CORE_PREFIXES kind = Some p"
  shows "\<exists>r. mint_ref kind s = Inr (r, s\<lparr>draws := Suc (draws s)\<rparr>)"
  using mint_known [OF assms] by (simp add: mint_ref_def)

text \<open>The event id the next draw gives is not in the table.\<close>

definition fresh_event_id :: "comms_db \<Rightarrow> bool" where
  "fresh_event_id s \<longleftrightarrow> (\<forall>r t. mint_ref ''audit_event'' s = Inr (r, t) \<longrightarrow> r \<notin> aev_event_id ` set (audit_events s))"

lemma audit_append_succeeds:
  assumes "in_transaction s" and "validate_audit_event kind sref sdig payload = Inr ()"
    and "is_ok (jcs_dumps (payload_json payload))" and "iso (atx_now tx) = Inr stamp"
    and "hex_outputs (atx_crypto tx)" and "chain_room s" and "fresh_event_id s"
  shows "\<exists>row t. audit_append tx kind sref sdig payload s = Inr (row, t) \<and> aev_kind row = kind \<and> aev_ts row = stamp
    \<and> audit_events t = audit_events s @ [row]"
proof -
  have known: "map_of CORE_PREFIXES ''audit_event'' = Some (the (map_of CORE_PREFIXES ''audit_event''))"
    by (simp add: CORE_PREFIXES_def)
  obtain ref where m: "mint_ref ''audit_event'' s = Inr (ref, s\<lparr>draws := Suc (draws s)\<rparr>)"
    using mint_ref_returns [OF known] by blast
  obtain body where body: "jcs_dumps (payload_json payload) = Inr body" using assms(3) by (auto simp: is_ok_Inr)
  define e where "e = \<lparr>ev_event_id = ref, ev_ts = stamp, ev_kind = kind, ev_subject_ref = sref,
    ev_subject_digest = sdig, ev_payload = body\<rparr>"
  have ev: "audit_event_of tx kind sref sdig payload s = Inr (e, s\<lparr>draws := Suc (draws s)\<rparr>)"
    by (simp add: audit_event_of_def tx_bind_def tx_then_def tx_lift_def assms m body e_def)
  have "is_ok (check (ev_event_id e) ''audit_event'')"
    using mint_ref_kind [OF m] by (simp add: e_def check_def)
  moreover have "ev_event_id e \<notin> aev_event_id ` set (audit_events s)"
    using assms(7) m by (simp add: fresh_event_id_def e_def)
  ultimately obtain row where ap: "chain_append (atx_crypto tx) (atx_key tx) e (s\<lparr>draws := Suc (draws s)\<rparr>)
      = Inr (row, s\<lparr>draws := Suc (draws s), audit_events := audit_events s @ [row]\<rparr>)"
    using chain_append_returns [of "s\<lparr>draws := Suc (draws s)\<rparr>" e "atx_crypto tx" "atx_key tx"] assms(1,5,6)
    by (auto simp: chain_room_def head_def chain_rows_def)
  then have "event_of_row row = e" using chain_append_run by blast
  then show ?thesis
    using ev ap by (auto simp: audit_append_def tx_bind_def tx_then_def event_of_row_def e_def)
qed


definition marker_tx :: audit_tx where
  "marker_tx = \<lparr>atx_crypto = demo_crypto, atx_key = ''k'', atx_now = demo_now\<rparr>"

definition append_marker :: "audit_event_row db_tx" where
  "append_marker = audit_append marker_tx ''system.test_marker'' None None [(''count'', JInt 1)]"

lemma demo_hex: "hex_outputs demo_crypto"
proof -
  have "is_ok (fromhex (zero_hex 64))" by code_simp
  then show ?thesis by (simp add: hex_outputs_def demo_crypto_def)
qed

lemma marker_premises:
  "validate_audit_event ''system.test_marker'' None None [(''count'', JInt 1)] = Inr ()"
  "is_ok (jcs_dumps (payload_json [(''count'', JInt 1)]))" "iso (atx_now marker_tx) = Inr demo_stamp"
  "hex_outputs (atx_crypto marker_tx)" "in_transaction (empty_db\<lparr>in_transaction := True\<rparr>)"
  "chain_room (empty_db\<lparr>in_transaction := True\<rparr>)" "fresh_event_id (empty_db\<lparr>in_transaction := True\<rparr>)"
proof -
  show "iso (atx_now marker_tx) = Inr demo_stamp" by code_simp
qed (code_simp, simp_all add: jcs_dumps_def payload_json_def res_bind_def marker_tx_def demo_hex empty_db_def chain_room_def head_def chain_rows_def fresh_event_id_def)

lemmas append_marker_runs =
  audit_append_succeeds [OF marker_premises(5,1,2,3,4,6,7), folded append_marker_def]


lemma empty_chain_verified: "key_for 1 = Some key \<Longrightarrow> chain_verified cr key_for pub key (empty_db\<lparr>in_transaction := b\<rparr>)"
  by (simp add: chain_verified_def verify_chain_def chain_rows_def chain_epoch_def head_def empty_db_def)

theorem audit_append_keeps_chain_witness:
  "\<exists>row t. append_marker (empty_db\<lparr>in_transaction := True\<rparr>) = Inr (row, t)
     \<and> verify_chain demo_crypto (\<lambda>_. Some ''k'') None None t = Inr () \<and> head t = Some row"
proof -
  obtain row t where run: "append_marker (empty_db\<lparr>in_transaction := True\<rparr>) = Inr (row, t)"
    using append_marker_runs by blast
  have tx: "atx_crypto marker_tx = demo_crypto" "atx_key marker_tx = ''k''" by (simp_all add: marker_tx_def)
  show ?thesis
    using audit_append_keeps_chain [of marker_tx "\<lambda>_. Some ''k''" None "empty_db\<lparr>in_transaction := True\<rparr>"]
      run empty_chain_verified by (simp add: append_marker_def tx)
qed

end
