(* ===== verification/Comms_Writer.thy ===== *)
theory Comms_Writer
  imports Comms_Providers Comms_Chain_Props Comms_Runs
begin

text \<open>
  The audit writer (\<open>AuditWriter\<close> of \<open>core/audit/writer.py\<close>) and the external head anchor
  (\<open>core/audit/anchor.py\<close>). A service runs over a world that holds the database, the provider calls
  made so far, the anchors that reached the disk and the number of clock reads. The chain keys, the
  clock and the disk are parameters; a write of the anchor is refused by the disk, is stored, or is
  stored and then reported as failed.
\<close>

section \<open>The world of a service\<close>

text \<open>A provider call, with the mutation and step it was made for.\<close>

record provider_call =
  pc_mutation :: nat
  pc_step :: nat
  pc_op :: semantic_operation
  pc_target :: provider_target
  pc_key :: string

record anchor =
  an_epoch :: nat
  an_seq :: nat
  an_event_id :: string
  an_event_mac :: string
  an_updated_at :: string
  an_mac :: string

record service_world =
  sw_db :: comms_db
  sw_calls :: "provider_call list"
  sw_anchors :: "anchor list"
  sw_ticks :: nat

type_synonym 'a sio = "(service_world, 'a) run"

text \<open>A query or one whole transaction.\<close>

definition sio_db :: "'a db_tx \<Rightarrow> 'a sio" where
  "sio_db m w = (case m (sw_db w) of Inl e \<Rightarrow> (Inl e, w) | Inr (x, t) \<Rightarrow> (Inr x, w\<lparr>sw_db := t\<rparr>))"

definition sio_res :: "'a res \<Rightarrow> 'a sio" where
  "sio_res r w = (r, w)"

section \<open>core/audit/anchor.py\<close>

definition ANCHOR_VERSION :: int where "ANCHOR_VERSION = 1"

text \<open>The body a MAC covers, and the MAC.\<close>

definition anchor_body :: "anchor \<Rightarrow> json" where
  "anchor_body a = JObj [
     (jstr ''version'', JInt ANCHOR_VERSION), (jstr ''chain_epoch'', JInt (int (an_epoch a))),
     (jstr ''chain_seq'', JInt (int (an_seq a))), (jstr ''event_id'', jstr (an_event_id a)),
     (jstr ''event_mac'', jstr (an_event_mac a)), (jstr ''updated_at'', jstr (an_updated_at a))]"

definition anchor_mac :: "crypto \<Rightarrow> bytes \<Rightarrow> anchor \<Rightarrow> string res" where
  "anchor_mac cr key a =
     res_bind (jcs_dumps (anchor_body a)) (\<lambda>b. Inr (hmac_sha256_hex cr key (AUDIT_HEAD_ANCHOR @ b)))"

datatype disk = Refused | Stored | StoredThenFailed

record writer =
  wr_crypto :: crypto
  wr_current :: "comms_db \<Rightarrow> bytes res"
  wr_for_epoch :: "comms_db \<Rightarrow> nat \<Rightarrow> bytes res"
  wr_clock :: "nat \<Rightarrow> datetime"
  wr_disk :: "nat \<Rightarrow> disk"

text \<open>The temp file, its sync, the rename and the directory sync: only a failed directory sync leaves
  the new anchor in place. The disk is asked by the number of anchors and clock reads before.\<close>

definition store_anchor :: "writer \<Rightarrow> anchor \<Rightarrow> unit sio" where
  "store_anchor wr a w =
     (case wr_disk wr (length (sw_anchors w) + sw_ticks w) of
        Refused \<Rightarrow> (Inl (AnchorError ''disk''), w)
      | Stored \<Rightarrow> (Inr (), w\<lparr>sw_anchors := sw_anchors w @ [a]\<rparr>)
      | StoredThenFailed \<Rightarrow> (Inl (AnchorError ''disk''), w\<lparr>sw_anchors := sw_anchors w @ [a]\<rparr>))"

definition write_anchor :: "writer \<Rightarrow> bytes \<Rightarrow> audit_event_row \<Rightarrow> string \<Rightarrow> unit sio" where
  "write_anchor wr key committed now =
     io_then (sio_db io_guard)
     (let bare = \<lparr>an_epoch = aev_epoch committed, an_seq = aev_seq committed,
            an_event_id = aev_event_id committed, an_event_mac = aev_mac committed,
            an_updated_at = now, an_mac = []\<rparr>
      in io_bind (sio_res (anchor_mac (wr_crypto wr) key bare)) (\<lambda>mac.
         store_anchor wr (bare\<lparr>an_mac := mac\<rparr>)))"

section \<open>AuditWriter\<close>

definition writer_now :: "writer \<Rightarrow> datetime sio" where
  "writer_now wr w =
     (case utc (wr_clock wr (sw_ticks w)) of
        Inl e \<Rightarrow> (Inl e, w\<lparr>sw_ticks := Suc (sw_ticks w)\<rparr>)
      | Inr t \<Rightarrow> (Inr (Aware t), w\<lparr>sw_ticks := Suc (sw_ticks w)\<rparr>))"

text \<open>The body of the \<open>try\<close> of \<open>_refresh\<close>.\<close>

definition anchor_committed :: "writer \<Rightarrow> audit_event_row \<Rightarrow> datetime \<Rightarrow> unit sio" where
  "anchor_committed wr committed now w =
     io_bind (sio_res (wr_for_epoch wr (sw_db w) (aev_epoch committed))) (\<lambda>key.
     io_bind (sio_res (iso now)) (\<lambda>stamp. write_anchor wr key committed stamp)) w"

text \<open>\<open>True\<close> when the anchor was refreshed; \<open>False\<close> where the code raises \<open>AnchorFailed\<close>, with the latch
  set.\<close>

definition refresh :: "writer \<Rightarrow> audit_event_row \<Rightarrow> datetime \<Rightarrow> bool sio" where
  "refresh wr committed now w =
     (case anchor_committed wr committed now w of
        (Inr _, w') \<Rightarrow> (Inr True, w')
      | (Inl _, w') \<Rightarrow> io_then (sio_db (latch_degraded ''ANCHOR_REFRESH_FAILED'' now)) (io_return False) w')"

text \<open>The transaction proper, with the head it committed when it appended.\<close>

definition audited_tx :: "audit_tx \<Rightarrow> (audit_tx \<Rightarrow> 'a db_tx) \<Rightarrow> ('a \<times> audit_event_row option) db_tx" where
  "audited_tx tx body =
     write_tx (tx_then (tx_modify (\<lambda>s. s\<lparr>audit_appended := False\<rparr>))
       (tx_bind (body tx) (\<lambda>x.
        tx_bind (tx_reads (\<lambda>s. if audit_appended s then head s else None)) (\<lambda>committed.
        tx_return (x, committed)))))"

text \<open>\<open>with writer.transaction() as tx: body\<close>. The second component is \<open>False\<close> where leaving the block
  raises \<open>AnchorFailed\<close>: the transaction has committed, and the value is what the body left in the
  caller's variables.\<close>

definition transaction :: "writer \<Rightarrow> (audit_tx \<Rightarrow> 'a db_tx) \<Rightarrow> ('a \<times> bool) sio" where
  "transaction wr body =
     io_bind (writer_now wr) (\<lambda>now w.
     io_bind (sio_res (wr_current wr (sw_db w))) (\<lambda>key.
     io_bind (sio_db (audited_tx \<lparr>atx_crypto = wr_crypto wr, atx_key = key, atx_now = now\<rparr> body)) (\<lambda>(x, committed).
     case committed of
       None \<Rightarrow> io_return (x, True)
     | Some h \<Rightarrow> io_bind (refresh wr h now) (\<lambda>ok. io_return (x, ok)))) w)"

text \<open>The same where nothing catches \<open>AnchorFailed\<close>.\<close>

definition audited :: "writer \<Rightarrow> (audit_tx \<Rightarrow> 'a db_tx) \<Rightarrow> 'a sio" where
  "audited wr body =
     io_bind (transaction wr body) (\<lambda>(x, ok). if ok then io_return x else io_raise AnchorFailed)"

definition refresh_anchor :: "writer \<Rightarrow> unit sio" where
  "refresh_anchor wr =
     io_bind (sio_db (tx_reads head)) (\<lambda>committed.
     case committed of
       None \<Rightarrow> io_raise (ValueError ''cannot anchor an empty comms chain'')
     | Some h \<Rightarrow>
         io_bind (writer_now wr) (\<lambda>now.
         io_bind (refresh wr h now) (\<lambda>ok. if ok then io_return () else io_raise AnchorFailed)))"

section \<open>Reading the anchor\<close>

text \<open>What \<open>lstat\<close> and \<open>stat\<close> say of the anchor file and its directory, and its parsed content.\<close>

record anchor_file =
  af_link :: bool
  af_regular :: bool
  af_mode :: nat
  af_uid :: nat
  af_dir_mode :: nat
  af_dir_uid :: nat
  af_anchor :: "anchor option"

definition read_anchor :: "crypto \<Rightarrow> nat \<Rightarrow> anchor_file option \<Rightarrow> bytes \<Rightarrow> anchor res" where
  "read_anchor cr euid file key =
     (case file of
        None \<Rightarrow> Inl (AnchorError ''anchor is unreadable'')
      | Some f \<Rightarrow>
          if af_link f then Inl (AnchorError ''anchor must not be a symlink'')
          else if \<not> af_regular f then Inl (AnchorError ''anchor must be a regular file'')
          else if af_mode f \<noteq> 384 then Inl (AnchorError ''anchor permissions must be 0600'')
          else if af_uid f \<noteq> euid then Inl (AnchorError ''anchor must be owned by the runtime account'')
          else if af_dir_mode f \<noteq> 448 \<or> af_dir_uid f \<noteq> euid
          then Inl (AnchorError ''anchor directory must be 0700 and owned by the runtime account'')
          else case af_anchor f of
                 None \<Rightarrow> Inl (AnchorError ''anchor is not valid JSON or of another version'')
               | Some a \<Rightarrow> res_bind (anchor_mac cr key a) (\<lambda>mac.
                   if mac = an_mac a then Inr a else Inl (AnchorError ''anchor MAC does not verify'')))"

datatype integrity = CLEAN | RECOVERY_REQUIRED | FAIL_CLOSED

fun is_AnchorError :: "exn \<Rightarrow> bool" where
  "is_AnchorError (AnchorError _) = True"
| "is_AnchorError _ = False"

fun is_ChainError :: "exn \<Rightarrow> bool" where
  "is_ChainError (ChainError _) = True"
| "is_ChainError _ = False"

definition derive_integrity ::
  "crypto \<Rightarrow> (nat \<Rightarrow> bytes option) \<Rightarrow> (string \<Rightarrow> bytes option) option \<Rightarrow> nat \<Rightarrow> anchor_file option \<Rightarrow> comms_db
     \<Rightarrow> integrity res" where
  "derive_integrity cr key_for public_for euid file s =
     (let current = head s; epoch = (case current of None \<Rightarrow> 1 | Some h \<Rightarrow> aev_epoch h)
      in case key_for epoch of
        None \<Rightarrow> Inl (KeyError ''epoch'')
      | Some key \<Rightarrow>
          (case read_anchor cr euid file key of
             Inl e \<Rightarrow> (if is_AnchorError e then Inr FAIL_CLOSED else Inl e)
           | Inr a \<Rightarrow>
               (case current of
                  None \<Rightarrow> Inr (if 0 < an_seq a then FAIL_CLOSED else CLEAN)
                | Some h \<Rightarrow>
                    if chain_pos h < (an_epoch a, an_seq a) then Inr FAIL_CLOSED
                    else case verify_chain cr key_for None public_for s of
                           Inl e \<Rightarrow> (if is_ChainError e then Inr FAIL_CLOSED else Inl e)
                         | Inr _ \<Rightarrow>
                             if an_epoch a \<noteq> aev_epoch h then Inr FAIL_CLOSED
                             else if aev_seq h = an_seq a
                             then Inr (if an_event_mac a = aev_mac h then CLEAN else FAIL_CLOSED)
                             else Inr (if aev_seq h = an_seq a + 1 then RECOVERY_REQUIRED else FAIL_CLOSED))))"

section \<open>What the writer promises\<close>

text \<open>The anchor names a chain row, with a MAC under the key.\<close>

definition anchors :: "crypto \<Rightarrow> bytes \<Rightarrow> anchor \<Rightarrow> audit_event_row \<Rightarrow> bool" where
  "anchors cr key a h \<longleftrightarrow> an_epoch a = aev_epoch h \<and> an_seq a = aev_seq h \<and> an_event_id a = aev_event_id h
     \<and> an_event_mac a = aev_mac h \<and> anchor_mac cr key a = Inr (an_mac a)"

lemma anchor_mac_ignores [simp]: "anchor_mac cr key (a\<lparr>an_mac := m\<rparr>) = anchor_mac cr key a"
  by (simp add: anchor_mac_def anchor_body_def)

named_theorems sio_run \<open>how the steps of a service run\<close>

lemma sio_db_run [sio_run]:
  "m (sw_db w) = Inr (x, t) \<Longrightarrow> sio_db m w = (Inr x, w\<lparr>sw_db := t\<rparr>)"
  "m (sw_db w) = Inl e \<Longrightarrow> sio_db m w = (Inl e, w)"
  by (simp_all add: sio_db_def)

lemma io_bind_cases:
  assumes "io_bind m f w = (r, w')"
  obtains e where "m w = (Inl e, w')" "r = Inl e" | x w1 where "m w = (Inr x, w1)" "f x w1 = (r, w')"
  using assms by (auto simp: io_bind_def split: prod.splits sum.splits)

lemma io_bind_Inr:
  "io_bind m f w = (Inr y, w') \<longleftrightarrow> (\<exists>x w1. m w = (Inr x, w1) \<and> f x w1 = (Inr y, w'))"
  by (auto simp: io_bind_def split: prod.splits sum.splits)

lemma io_then_Inr:
  "io_then m k w = (Inr y, w') \<longleftrightarrow> (\<exists>x w1. m w = (Inr x, w1) \<and> k w1 = (Inr y, w'))"
  by (simp add: io_then_def io_bind_Inr)

lemma sio_db_Inr: "sio_db m w = (Inr x, w') \<longleftrightarrow> (\<exists>t. m (sw_db w) = Inr (x, t) \<and> w' = w\<lparr>sw_db := t\<rparr>)"
  by (auto simp: sio_db_def split: sum.splits)

lemma sio_res_Inr: "sio_res r w = (Inr x, w') \<longleftrightarrow> r = Inr x \<and> w' = w"
  by (auto simp: sio_res_def)

lemma io_return_Inr: "io_return x w = (Inr y, w') \<longleftrightarrow> y = x \<and> w' = w"
  by (auto simp: io_return_def)

lemma io_raise_Inr: "io_raise e w \<noteq> (Inr y, w')"
  by (simp add: io_raise_def)

lemmas sio_inr = io_bind_Inr io_then_Inr sio_db_Inr sio_res_Inr io_return_Inr io_raise_Inr

lemma io_guard_Inr: "io_guard s = Inr (x, t) \<longleftrightarrow> \<not> in_transaction s \<and> t = s"
  by (auto simp: io_guard_def split: if_splits)

text \<open>Writing the anchor touches nothing but the anchors.\<close>

lemma write_anchor_frame:
  "write_anchor wr key h now w = (r, w') \<Longrightarrow> \<exists>as. w' = w\<lparr>sw_anchors := as\<rparr>"
  by (force simp: write_anchor_def store_anchor_def io_bind_def io_then_def sio_db_def sio_res_def io_guard_def Let_def
      intro: exI [of _ "sw_anchors w"] split: sum.splits prod.splits disk.splits if_splits)

lemma anchor_committed_frame:
  "anchor_committed wr h now w = (r, w') \<Longrightarrow> \<exists>as. w' = w\<lparr>sw_anchors := as\<rparr>"
  by (auto simp: anchor_committed_def io_bind_def sio_res_def dest: write_anchor_frame split: sum.splits prod.splits)
    (metis service_world.surjective service_world.update_convs(3))+

lemma store_anchor_Inr: "store_anchor wr a w = (Inr u, w') \<Longrightarrow> w' = w\<lparr>sw_anchors := sw_anchors w @ [a]\<rparr>"
  by (cases "wr_disk wr (length (sw_anchors w) + sw_ticks w)") (simp_all add: store_anchor_def)

lemma write_anchor_Inr:
  assumes "write_anchor wr key h now w = (Inr u, w')"
  shows "\<exists>a. w' = w\<lparr>sw_anchors := sw_anchors w @ [a]\<rparr> \<and> anchors (wr_crypto wr) key a h"
proof -
  define bare where "bare = \<lparr>an_epoch = aev_epoch h, an_seq = aev_seq h, an_event_id = aev_event_id h,
    an_event_mac = aev_mac h, an_updated_at = now, an_mac = []\<rparr>"
  from assms obtain mac w1 where "w1 = w" and mac: "anchor_mac (wr_crypto wr) key bare = Inr mac"
    and "store_anchor wr (bare\<lparr>an_mac := mac\<rparr>) w1 = (Inr u, w')"
    unfolding write_anchor_def bare_def [symmetric] Let_def by (auto simp: sio_inr io_guard_Inr)
  then have "w' = w\<lparr>sw_anchors := sw_anchors w @ [bare\<lparr>an_mac := mac\<rparr>]\<rparr>" using store_anchor_Inr by blast
  moreover have "anchors (wr_crypto wr) key (bare\<lparr>an_mac := mac\<rparr>) h"
    unfolding anchors_def anchor_mac_ignores using mac by (simp add: bare_def)
  ultimately show ?thesis by blast
qed

lemma anchor_committed_Inr:
  assumes "anchor_committed wr h now w = (Inr u, w')"
  shows "\<exists>a key. wr_for_epoch wr (sw_db w) (aev_epoch h) = Inr key \<and> w' = w\<lparr>sw_anchors := sw_anchors w @ [a]\<rparr>
    \<and> anchors (wr_crypto wr) key a h"
  using assms by (auto simp: anchor_committed_def sio_inr dest: write_anchor_Inr)

lemma latch_degraded_run:
  assumes "latch_degraded reason now s = Inr (x, t)"
  shows "is_degraded t \<and> t = s\<lparr>audit_integrity := audit_integrity t\<rparr>"
proof (cases "int_degraded (audit_integrity s)")
  case True
  with assms show ?thesis
    by (auto simp: latch_degraded_def write_tx_def tx_bind_def tx_lift_def is_degraded_def split: sum.splits if_splits)
next
  case False
  with assms show ?thesis
    by (auto simp: latch_degraded_def write_tx_def tx_bind_def tx_lift_def is_degraded_def Let_def
        split: sum.splits if_splits)
qed

lemma refresh_Inr:
  assumes "refresh wr h now w = (Inr ok, w')"
  shows "sw_calls w' = sw_calls w \<and> sw_ticks w' = sw_ticks w
    \<and> (ok \<longrightarrow> sw_db w' = sw_db w \<and> (\<exists>a key. wr_for_epoch wr (sw_db w) (aev_epoch h) = Inr key
          \<and> sw_anchors w' = sw_anchors w @ [a] \<and> anchors (wr_crypto wr) key a h))
    \<and> (\<not> ok \<longrightarrow> is_degraded (sw_db w') \<and> sw_db w' = (sw_db w)\<lparr>audit_integrity := audit_integrity (sw_db w')\<rparr>)"
proof (cases "anchor_committed wr h now w")
  case (Pair r w1)
  show ?thesis
  proof (cases r)
    case (Inl e)
    then obtain as where "w1 = w\<lparr>sw_anchors := as\<rparr>" using anchor_committed_frame Pair by blast
    then show ?thesis
      using assms Pair Inl by (auto simp: refresh_def sio_inr dest: latch_degraded_run)
  next
    case (Inr u)
    with assms Pair anchor_committed_Inr [of wr h now w u w1] show ?thesis by (auto simp: refresh_def)
  qed
qed

lemma writer_now_frame: "writer_now wr w = (r, w') \<Longrightarrow> w' = w\<lparr>sw_ticks := Suc (sw_ticks w)\<rparr>"
  by (auto simp: writer_now_def split: sum.splits)

definition open_tx :: "writer \<Rightarrow> bytes \<Rightarrow> datetime \<Rightarrow> audit_tx" where
  "open_tx wr key now = \<lparr>atx_crypto = wr_crypto wr, atx_key = key, atx_now = now\<rparr>"

text \<open>The transaction that committed, and the world before the anchor was refreshed.\<close>

lemma transaction_run:
  assumes "transaction wr body w = (Inr (x, ok), w')"
  obtains now key u committed where "wr_current wr (sw_db w) = Inr key"
    and "audited_tx (open_tx wr key now) body (sw_db w) = Inr ((x, committed), u)"
    and "case committed of None \<Rightarrow> ok \<and> w' = w\<lparr>sw_ticks := Suc (sw_ticks w), sw_db := u\<rparr>
      | Some h \<Rightarrow> refresh wr h now (w\<lparr>sw_ticks := Suc (sw_ticks w), sw_db := u\<rparr>) = (Inr ok, w')"
proof -
  from assms obtain now w1 key y committed u where now: "writer_now wr w = (Inr now, w1)"
    and key: "wr_current wr (sw_db w1) = Inr key"
    and tx: "audited_tx (open_tx wr key now) body (sw_db w1) = Inr ((y, committed), u)"
    and rest: "(case committed of None \<Rightarrow> io_return (y, True)
      | Some h \<Rightarrow> io_bind (refresh wr h now) (\<lambda>ok. io_return (y, ok))) (w1\<lparr>sw_db := u\<rparr>) = (Inr (x, ok), w')"
    unfolding transaction_def open_tx_def by (auto simp: io_bind_Inr sio_db_Inr sio_res_Inr split: prod.splits)
  from writer_now_frame [OF now] have "sw_db w1 = sw_db w" "w1\<lparr>sw_db := u\<rparr> = w\<lparr>sw_ticks := Suc (sw_ticks w), sw_db := u\<rparr>"
    by simp_all
  moreover have "y = x" using rest by (cases committed) (auto simp: sio_inr)
  ultimately show ?thesis using key tx rest that by (cases committed) (auto simp: sio_inr)
qed

lemma audited_tx_run:
  assumes "audited_tx tx body s = Inr ((x, committed), u)"
  obtains v where "\<not> in_transaction s"
    and "body tx (s\<lparr>in_transaction := True, audit_appended := False\<rparr>) = Inr (x, v)" and "u = v\<lparr>in_transaction := False\<rparr>"
    and "committed = (if audit_appended v then head v else None)"
  using assms by (auto simp: audited_tx_def write_tx_def tx_inr split: sum.splits if_splits)

lemma head_flag [simp]: "head (s\<lparr>in_transaction := b\<rparr>) = head s"
  by (simp add: head_def chain_rows_def)


section \<open>What the anchor says at the next start\<close>

definition private_file :: "nat \<Rightarrow> anchor \<Rightarrow> anchor_file" where
  "private_file euid a = \<lparr>af_link = False, af_regular = True, af_mode = 384, af_uid = euid, af_dir_mode = 448,
     af_dir_uid = euid, af_anchor = Some a\<rparr>"

lemma read_private [simp]:
  "anchor_mac cr key a = Inr (an_mac a) \<Longrightarrow> read_anchor cr euid (Some (private_file euid a)) key = Inr a"
  by (simp add: read_anchor_def private_file_def res_bind_def)

text \<open>On a chain that verifies, the verdict is a function of how far the head is past the anchor.\<close>

lemma derive_integrity_gap:
  assumes "chain_verified cr key_for pub key s" and "head s = Some h"
    and "read_anchor cr euid file key = Inr a" and "an_epoch a = aev_epoch h" and "an_seq a + n = aev_seq h"
  shows "derive_integrity cr key_for pub euid file s = Inr
    (if n = 0 then (if an_event_mac a = aev_mac h then CLEAN else FAIL_CLOSED)
     else if n = 1 then RECOVERY_REQUIRED else FAIL_CLOSED)"
proof -
  have "key_for (aev_epoch h) = Some key" "verify_chain cr key_for None pub s = Inr ()"
    using assms(1,2) by (simp_all add: chain_verified_def chain_epoch_def)
  then show ?thesis using assms(2-) by (auto simp: derive_integrity_def chain_pos_def less_prod_def)
qed

text \<open>C27: after an anchored transaction the next start finds the state clean. When the body keeps the chain
  verifiable under the writer's key and appended an event, and the anchor was refreshed, then reading
  the newest anchor back under the key of its epoch and comparing it with the database gives CLEAN.\<close>

theorem anchored_transaction_is_clean:
  assumes run: "transaction wr body w = (Inr (x, True), w')"
    and appended: "audit_appended (sw_db w')" "audit_events (sw_db w') \<noteq> []"
    and key: "wr_current wr (sw_db w) = Inr key" "\<And>s e k. wr_for_epoch wr s e = Inr k \<Longrightarrow> key_for e = Some k"
    and chain: "chain_verified (wr_crypto wr) key_for pub key (sw_db w)"
    and body: "\<And>now. tx_within (kept (chain_verified (wr_crypto wr) key_for pub key)) (body (open_tx wr key now))"
  shows "derive_integrity (wr_crypto wr) key_for pub euid (Some (private_file euid (last (sw_anchors w')))) (sw_db w')
    = Inr CLEAN"
  using run
proof (rule transaction_run)
  fix now key' u committed
  assume key': "wr_current wr (sw_db w) = Inr key'"
    and tx: "audited_tx (open_tx wr key' now) body (sw_db w) = Inr ((x, committed), u)"
    and rest: "case committed of None \<Rightarrow> True \<and> w' = w\<lparr>sw_ticks := Suc (sw_ticks w), sw_db := u\<rparr>
      | Some h \<Rightarrow> refresh wr h now (w\<lparr>sw_ticks := Suc (sw_ticks w), sw_db := u\<rparr>) = (Inr True, w')"
  have same_key: "key' = key" using key key' by simp
  have db: "sw_db w' = u" using rest refresh_Inr by (cases committed) fastforce+
  from tx obtain v where v: "body (open_tx wr key' now) ((sw_db w)\<lparr>in_transaction := True, audit_appended := False\<rparr>) = Inr (x, v)"
    and u: "u = v\<lparr>in_transaction := False\<rparr>" and com: "committed = (if audit_appended v then head v else None)"
    by (rule audited_tx_run)
  have verified: "chain_verified (wr_crypto wr) key_for pub key u"
    using tx_withinD [OF body v [unfolded same_key]] chain by (simp add: kept_def u)
  obtain h where h: "head u = Some h" "committed = Some h"
    using com appended db by (auto simp: u head_last chain_rows_def)
  with rest obtain a k where a: "wr_for_epoch wr u (aev_epoch h) = Inr k" "last (sw_anchors w') = a"
    "anchors (wr_crypto wr) k a h"
    using refresh_Inr [of wr h now "w\<lparr>sw_ticks := Suc (sw_ticks w), sw_db := u\<rparr>" True w'] by auto
  have "k = key" using key(2) [OF a(1)] verified h(1) by (simp add: chain_verified_def chain_epoch_def)
  with a have "read_anchor (wr_crypto wr) euid (Some (private_file euid a)) key = Inr a"
    by (simp add: anchors_def)
  with derive_integrity_gap [OF verified h(1), of euid _ a 0] a show ?thesis by (simp add: db anchors_def)
qed

text \<open>C28: the start after a truncation always fails closed. Once retention has removed the beginning of the
  chain, so that its first row is not event 1 of epoch 1, the verdict is never CLEAN and never
  RECOVERY_REQUIRED, whatever the anchor, even where the chain verifies from its signed root.\<close>

theorem truncated_chain_fails_closed:
  assumes "chain_rows s = r # rs" and "chain_pos r \<noteq> (1, 1)"
    and "derive_integrity cr key_for pub euid file s = Inr verdict"
  shows "verdict = FAIL_CLOSED"
proof -
  have "verify_chain cr key_for None pub s \<noteq> Inr ()"
    using assms(1,2) by (auto simp: verify_chain_nonempty verify_rows_Cons expected_link_def chain_pos_def
        simp del: verify_rows.simps(2))
  moreover obtain h where "head s = Some h"
    using assms(1) by (cases "audit_events s") (auto simp: head_last chain_rows_def)
  ultimately show ?thesis
    using assms(3) by (auto simp: derive_integrity_def Let_def split: option.splits sum.splits if_splits)
qed

lemma anchor_body_dumps: "\<exists>b. jcs_dumps (anchor_body a) = Inr b"
  by (simp add: jcs_dumps_def anchor_body_def)

lemma anchor_mac_returns: "\<exists>m. anchor_mac cr key a = Inr m"
  using anchor_body_dumps [of a] by (auto simp: anchor_mac_def)

lemma demo_anchor_mac: "anchor_mac demo_crypto key a = Inr (zero_hex 64)"
  using anchor_body_dumps [of a] by (auto simp: anchor_mac_def demo_crypto_def)

lemma demo_event_mac:
  assumes "epoch < 2 ^ 64" "sq < 2 ^ 64"
  shows "event_mac demo_crypto key epoch sq (zero_hex 64) e = Inr (zero_hex 64)"
proof -
  have "is_ok (fromhex (zero_hex 64))" using demo_hex by (simp add: hex_outputs_def demo_crypto_def)
  from event_mac_returns [OF assms this] show ?thesis by (auto simp: event_mac_def demo_crypto_def)
qed

definition kept_row :: audit_event_row where
  "kept_row = \<lparr>aev_event_id = ''x'', aev_ts = demo_stamp, aev_kind = ''k'', aev_subject_ref = None, aev_subject_digest = None,
     aev_payload = [], aev_epoch = 1, aev_seq = 2, aev_prev_mac = zero_hex 64, aev_mac = zero_hex 64\<rparr>"

definition kept_root :: checkpoint_row where
  "kept_root = \<lparr>ack_ref = ''c'', ack_epoch = 1, ack_seq = 2, ack_last_event_id = ''x'', ack_last_event_mac = zero_hex 64,
     ack_created_at = demo_stamp, ack_reason = ''RETENTION'', ack_signing_key_id = [], ack_signature = []\<rparr>"

definition kept_db :: comms_db where
  "kept_db = empty_db\<lparr>audit_events := [kept_row], audit_checkpoints := [kept_root]\<rparr>"

definition kept_anchor :: anchor where
  "kept_anchor = \<lparr>an_epoch = 1, an_seq = 2, an_event_id = ''x'', an_event_mac = zero_hex 64, an_updated_at = demo_stamp,
     an_mac = zero_hex 64\<rparr>"

lemma kept_chain: "chain_rows kept_db = [kept_row]" "head kept_db = Some kept_row"
  by (simp_all add: kept_db_def chain_rows_def head_def)

theorem truncated_chain_fails_closed_witness:
  "verify_chain demo_crypto (\<lambda>_. Some ''k'') (Some kept_root) None kept_db = Inr ()
   \<and> anchors demo_crypto ''k'' kept_anchor kept_row \<and> head kept_db = Some kept_row
   \<and> derive_integrity demo_crypto (\<lambda>_. Some ''k'') None 0 (Some (private_file 0 kept_anchor)) kept_db = Inr FAIL_CLOSED"
proof -
  have pos: "chain_pos kept_row \<noteq> (1, 1)" by (simp add: chain_pos_def kept_row_def)
  have mac: "anchor_mac demo_crypto ''k'' kept_anchor = Inr (an_mac kept_anchor)"
    by (simp add: demo_anchor_mac kept_anchor_def)
  have anchored: "anchors demo_crypto ''k'' kept_anchor kept_row"
    using mac by (simp add: anchors_def) (simp add: kept_anchor_def kept_row_def)
  have "event_mac demo_crypto ''k'' 1 2 (zero_hex 64) (event_of_row kept_row) = Inr (zero_hex 64)"
    by (rule demo_event_mac) simp_all
  then have root: "verify_chain demo_crypto (\<lambda>_. Some ''k'') (Some kept_root) None kept_db = Inr ()"
    unfolding verify_chain_nonempty [OF kept_chain(1)] verify_rows_Cons
    by (simp add: check_root_def expected_link_def checkpoint_rows_def EPOCH_SEAL_def kept_db_def)
      (simp add: kept_row_def kept_root_def)
  have refused: "verify_chain demo_crypto (\<lambda>_. Some ''k'') None None kept_db
      = Inl (ChainError ''chain sequence is not continuous'')"
    unfolding verify_chain_def kept_chain list.case Let_def
    by (simp add: expected_link_def genesis_mac_def u64_def res_bind_def checkpoint_rows_def EPOCH_SEAL_def kept_db_def)
      (auto simp: kept_row_def kept_root_def)
  have "\<exists>v. derive_integrity demo_crypto (\<lambda>_. Some ''k'') None 0 (Some (private_file 0 kept_anchor)) kept_db = Inr v"
    using mac by (simp add: derive_integrity_def kept_chain refused)
  with truncated_chain_fails_closed [OF kept_chain(1) pos] root anchored kept_chain(2) show ?thesis by blast
qed

section \<open>A run of the writer\<close>

lemma transaction_returns:
  assumes "utc (wr_clock wr (sw_ticks w)) = Inr dt" "iso (Aware dt) = Inr stamp" "wr_current wr (sw_db w) = Inr key"
    "\<not> in_transaction (sw_db w)" "\<And>n. wr_disk wr n = Stored" "\<And>s e. \<exists>k. wr_for_epoch wr s e = Inr k"
    "body (open_tx wr key (Aware dt)) ((sw_db w)\<lparr>in_transaction := True, audit_appended := False\<rparr>) = Inr (x, v)"
  shows "\<exists>w'. transaction wr body w = (Inr (x, True), w') \<and> sw_db w' = v\<lparr>in_transaction := False\<rparr> \<and> sw_calls w' = sw_calls w"
proof -
  define w1 where "w1 = w\<lparr>sw_ticks := Suc (sw_ticks w)\<rparr>"
  define u where "u = v\<lparr>in_transaction := False\<rparr>"
  have now: "writer_now wr w = (Inr (Aware dt), w1)" by (simp add: writer_now_def assms(1) w1_def)
  have tx: "audited_tx (open_tx wr key (Aware dt)) body (sw_db w) = Inr ((x, if audit_appended v then head v else None), u)"
    using assms(4,7) by (simp add: audited_tx_def write_tx_def tx_bind_def tx_then_def u_def)
  have ref: "\<exists>w2. refresh wr h (Aware dt) (w1\<lparr>sw_db := u\<rparr>) = (Inr True, w2) \<and> sw_db w2 = u \<and> sw_calls w2 = sw_calls w" for h
  proof -
    obtain k where k: "wr_for_epoch wr u (aev_epoch h) = Inr k" using assms(6) by blast
    obtain m where "anchor_mac (wr_crypto wr) k \<lparr>an_epoch = aev_epoch h, an_seq = aev_seq h, an_event_id = aev_event_id h,
        an_event_mac = aev_mac h, an_updated_at = stamp, an_mac = []\<rparr> = Inr m"
      using anchor_mac_returns by blast
    then show ?thesis
      using k assms(2,5)
      by (simp add: refresh_def anchor_committed_def write_anchor_def store_anchor_def io_bind_def io_then_def
          sio_db_def sio_res_def io_guard_def Let_def u_def w1_def)
  qed
  have "transaction wr body w = (case (if audit_appended v then head v else None) of
      None \<Rightarrow> io_return (x, True) | Some h \<Rightarrow> io_bind (refresh wr h (Aware dt)) (\<lambda>ok. io_return (x, ok))) (w1\<lparr>sw_db := u\<rparr>)"
    using tx assms(3) by (simp add: transaction_def io_bind_def now sio_res_def sio_db_def open_tx_def w1_def)
  moreover obtain w2 where "refresh wr (the (head v)) (Aware dt) (w1\<lparr>sw_db := u\<rparr>) = (Inr True, w2)"
    "sw_db w2 = u" "sw_calls w2 = sw_calls w" using ref by blast
  ultimately show ?thesis
    by (cases "audit_appended v"; cases "head v") (simp_all add: io_bind_def io_return_def w1_def u_def)
qed

definition demo_writer :: writer where
  "demo_writer = \<lparr>wr_crypto = demo_crypto, wr_current = (\<lambda>_. Inr ''k''), wr_for_epoch = (\<lambda>_ _. Inr ''k''),
     wr_clock = (\<lambda>_. demo_now), wr_disk = (\<lambda>_. Stored)\<rparr>"

definition demo_world :: service_world where
  "demo_world = \<lparr>sw_db = empty_db, sw_calls = [], sw_anchors = [], sw_ticks = 0\<rparr>"

definition marker_body :: "audit_tx \<Rightarrow> audit_event_row db_tx" where
  "marker_body tx = audit_append tx ''system.test_marker'' None None [(''count'', JInt 1)]"

lemma demo_utc: "utc demo_now = Inr (2026, 1, 2, 3, 4, 5, 6)" "iso (Aware (2026, 1, 2, 3, 4, 5, 6)) = Inr demo_stamp"
  by code_simp+

lemma marker_body_runs:
  "\<exists>row w'. transaction demo_writer marker_body demo_world = (Inr (row, True), w')
     \<and> audit_events (sw_db w') = [row] \<and> audit_appended (sw_db w')"
proof -
  have tx: "open_tx demo_writer ''k'' (Aware (2026, 1, 2, 3, 4, 5, 6)) = marker_tx"
    by (simp add: open_tx_def demo_writer_def marker_tx_def demo_now_def)
  obtain row t where run: "append_marker (empty_db\<lparr>in_transaction := True\<rparr>) = Inr (row, t)"
    and rows: "audit_events t = audit_events (empty_db\<lparr>in_transaction := True\<rparr>) @ [row]"
    using append_marker_runs by blast
  then have app: "audit_appended t" by (auto simp: append_marker_def audit_append_def tx_inr)
  have start: "(sw_db demo_world)\<lparr>in_transaction := True, audit_appended := False\<rparr> = empty_db\<lparr>in_transaction := True\<rparr>"
    by (simp add: demo_world_def empty_db_def)
  have "marker_body marker_tx (empty_db\<lparr>in_transaction := True\<rparr>) = Inr (row, t)"
    using run by (simp add: marker_body_def append_marker_def)
  then have body: "marker_body (open_tx demo_writer ''k'' (Aware (2026, 1, 2, 3, 4, 5, 6)))
      ((sw_db demo_world)\<lparr>in_transaction := True, audit_appended := False\<rparr>) = Inr (row, t)"
    unfolding tx start .
  have "\<exists>w'. transaction demo_writer marker_body demo_world = (Inr (row, True), w')
      \<and> sw_db w' = t\<lparr>in_transaction := False\<rparr> \<and> sw_calls w' = sw_calls demo_world"
    by (rule transaction_returns [where body = marker_body, OF _ demo_utc(2) _ _ _ _ body])
      (simp_all add: demo_writer_def demo_utc demo_world_def empty_db_def)
  then show ?thesis using rows app by (auto simp: empty_db_def)
qed


theorem anchored_transaction_is_clean_witness:
  "\<exists>row w'. transaction demo_writer marker_body demo_world = (Inr (row, True), w')
     \<and> derive_integrity demo_crypto (\<lambda>_. Some ''k'') None 0 (Some (private_file 0 (last (sw_anchors w')))) (sw_db w') = Inr CLEAN"
proof -
  from marker_body_runs obtain row w' where run: "transaction demo_writer marker_body demo_world = (Inr (row, True), w')"
    and after: "audit_events (sw_db w') = [row]" "audit_appended (sw_db w')" by blast
  have wr: "wr_crypto demo_writer = demo_crypto" "wr_current demo_writer s = Inr ''k''" "wr_for_epoch demo_writer s e = Inr ''k''"
    for s e by (simp_all add: demo_writer_def)
  have chain: "chain_verified demo_crypto (\<lambda>_. Some ''k'') None ''k'' (sw_db demo_world)"
    using empty_chain_verified [of "\<lambda>_. Some ''k''" "''k''" demo_crypto None False]
    by (simp add: demo_world_def empty_db_def)
  have body: "tx_within (kept (chain_verified demo_crypto (\<lambda>_. Some ''k'') None ''k'')) (marker_body (open_tx demo_writer ''k'' now))" for now
    unfolding marker_body_def by (rule audit_append_chain) (simp_all add: open_tx_def wr)
  from anchored_transaction_is_clean [OF run, where key = "''k''" and key_for = "\<lambda>_. Some ''k''" and pub = None and euid = 0]
    after chain body wr run show ?thesis by auto
qed

end
