(* ===== verification/Comms_Mutations.thy ===== *)
theory Comms_Mutations
  imports Comms_Writer Comms_Objects Comms_Directory
begin

text \<open>
  The records of write requests (\<open>core/mutations.py\<close>) with the constraints and triggers of their tables:
  one row per request of a client, born in flight, and one row per step of its saga. States are the
  strings the columns hold.
\<close>

section \<open>The tables\<close>

definition request_shape :: "string \<Rightarrow> bool" where
  "request_shape r \<longleftrightarrow> length r = 30 \<and> take 4 r = ''req_'' \<and> list_all is_body_char (drop 4 r)"

definition MUTATION_STATES :: "string list" where
  "MUTATION_STATES = [''IN_FLIGHT'', ''SUCCEEDED'', ''FAILED'', ''OUTCOME_UNKNOWN'']"

definition insert_mutation_row :: "mutation_row \<Rightarrow> unit db_tx" where
  "insert_mutation_row m s =
     (if mut_op_ref m \<in> mut_op_ref ` set (mutations s) \<or> \<not> request_shape (mut_request_id m)
         \<or> length (mut_request_digest m) \<noteq> 64 \<or> mut_scope m \<notin> {''local'', ''provider''}
         \<or> mut_ambiguity_policy m \<notin> {''retry_same_key'', ''resolve_only''} \<or> mut_state m \<noteq> ''IN_FLIGHT''
         \<or> (mut_client m, mut_request_id m) \<in> (\<lambda>r. (mut_client r, mut_request_id r)) ` set (mutations s)
      then violates s
      else Inr ((), s\<lparr>mutations := mutations s @ [m]\<rparr>))"

text \<open>\<open>mutations_state_forward\<close> and \<open>mutations_retried_once\<close>.\<close>

definition mutation_forward :: "string \<Rightarrow> string \<Rightarrow> bool" where
  "mutation_forward old new \<longleftrightarrow> new = old
     \<or> old = ''IN_FLIGHT'' \<and> new \<in> {''SUCCEEDED'', ''FAILED'', ''OUTCOME_UNKNOWN''}
     \<or> old = ''OUTCOME_UNKNOWN'' \<and> new \<in> {''SUCCEEDED'', ''FAILED''}"

definition update_mutations :: "(mutation_row \<Rightarrow> bool) \<Rightarrow> (mutation_row \<Rightarrow> mutation_row) \<Rightarrow> unit db_tx" where
  "update_mutations p f s =
     (if list_all (\<lambda>r. p r \<longrightarrow> mut_state (f r) \<in> set MUTATION_STATES \<and> mutation_forward (mut_state r) (mut_state (f r))
            \<and> (mut_retried r \<longrightarrow> mut_retried (f r))) (mutations s)
      then Inr ((), s\<lparr>mutations := update_where p f (mutations s)\<rparr>)
      else violates s)"

definition insert_step_row :: "step_row \<Rightarrow> unit db_tx" where
  "insert_step_row r s =
     (if stp_mutation_id r \<notin> mut_id ` set (mutations s) \<or> stp_no r < 1
         \<or> (stp_mutation_id r, stp_no r) \<in> (\<lambda>x. (stp_mutation_id x, stp_no x)) ` set (mutation_steps s)
      then violates s
      else Inr ((), s\<lparr>mutation_steps := mutation_steps s @ [r]\<rparr>))"

text \<open>\<open>mutation_steps_state_forward\<close> and \<open>mutation_steps_request_key_set_once\<close>.\<close>

definition step_forward :: "string \<Rightarrow> string \<Rightarrow> bool" where
  "step_forward old new \<longleftrightarrow> new = old
     \<or> old = ''PENDING'' \<and> new \<in> {''IN_FLIGHT'', ''FAILED''}
     \<or> old = ''IN_FLIGHT'' \<and> new \<in> {''SUCCEEDED'', ''FAILED'', ''OUTCOME_UNKNOWN''}
     \<or> old = ''OUTCOME_UNKNOWN'' \<and> new \<in> {''SUCCEEDED'', ''FAILED''}"

definition update_steps :: "(step_row \<Rightarrow> bool) \<Rightarrow> (step_row \<Rightarrow> step_row) \<Rightarrow> unit db_tx" where
  "update_steps p f s =
     (if list_all (\<lambda>r. p r \<longrightarrow> stp_state (f r) \<in> set (''PENDING'' # MUTATION_STATES)
            \<and> step_forward (stp_state r) (stp_state (f r))
            \<and> (stp_request_key r \<noteq> None \<longrightarrow> stp_request_key (f r) = stp_request_key r)) (mutation_steps s)
      then Inr ((), s\<lparr>mutation_steps := update_where p f (mutation_steps s)\<rparr>)
      else violates s)"

section \<open>core/mutations.py\<close>

definition need_tx :: "unit db_tx" where
  "need_tx s = (if in_transaction s then Inr ((), s)
     else Inl (RuntimeError ''mutation records are written inside a transaction''))"

definition find_mutation :: "string \<Rightarrow> string \<Rightarrow> comms_db \<Rightarrow> mutation_row option" where
  "find_mutation client request_id s =
     find (\<lambda>m. mut_client m = client \<and> mut_request_id m = request_id) (mutations s)"

definition insert_mutation ::
  "string \<Rightarrow> string \<Rightarrow> string \<Rightarrow> string \<Rightarrow> string \<Rightarrow> string \<Rightarrow> string list \<Rightarrow> string option \<Rightarrow> string \<Rightarrow> string \<Rightarrow> string
     \<Rightarrow> nat db_tx" where
  "insert_mutation op_ref client request_id digest tool scope target_refs actor retry_class policy stamp =
     tx_then need_tx
     (tx_bind (tx_reads (\<lambda>s. next_id mut_id (mutations s))) (\<lambda>mid.
      tx_then (insert_mutation_row
        \<lparr>mut_id = mid, mut_op_ref = op_ref, mut_client = client, mut_request_id = request_id,
         mut_request_digest = digest, mut_tool = tool, mut_scope = scope, mut_target_refs = sort target_refs,
         mut_actor = actor, mut_retry_class = retry_class, mut_ambiguity_policy = policy, mut_state = ''IN_FLIGHT'',
         mut_audit_status = ''ANCHORED'', mut_provider_code = None, mut_result = None, mut_result_digest = None,
         mut_retried = False, mut_created_at = stamp, mut_finished_at = None\<rparr>)
      (tx_return mid)))"

definition add_steps :: "nat \<Rightarrow> string list \<Rightarrow> unit db_tx" where
  "add_steps mid capabilities =
     tx_then need_tx
     (tx_then (tx_each (\<lambda>(n, c). insert_step_row
         \<lparr>stp_mutation_id = mid, stp_no = n, stp_capability = c, stp_state = ''PENDING'', stp_request_key = None,
          stp_provider_code = None\<rparr>) (enumerate 1 capabilities))
      (tx_return ()))"

definition steps :: "nat \<Rightarrow> comms_db \<Rightarrow> step_row list" where
  "steps mid s = sort_key stp_no (filter (\<lambda>r. stp_mutation_id r = mid) (mutation_steps s))"

definition is_step :: "nat \<Rightarrow> nat \<Rightarrow> step_row \<Rightarrow> bool" where
  "is_step mid n r \<longleftrightarrow> stp_mutation_id r = mid \<and> stp_no r = n"

definition start_step :: "nat \<Rightarrow> nat \<Rightarrow> string \<Rightarrow> unit db_tx" where
  "start_step mid n request_key =
     tx_then need_tx (update_steps (is_step mid n)
       (\<lambda>r. r\<lparr>stp_state := (if stp_state r = ''PENDING'' then ''IN_FLIGHT'' else stp_state r),
              stp_request_key := (case stp_request_key r of None \<Rightarrow> Some request_key | k \<Rightarrow> k)\<rparr>))"

definition finish_step :: "nat \<Rightarrow> nat \<Rightarrow> string \<Rightarrow> string option \<Rightarrow> unit db_tx" where
  "finish_step mid n state code =
     tx_then need_tx (update_steps (is_step mid n) (\<lambda>r. r\<lparr>stp_state := state, stp_provider_code := code\<rparr>))"

definition finish ::
  "crypto \<Rightarrow> nat \<Rightarrow> string \<Rightarrow> string option \<Rightarrow> (string \<times> json) list \<Rightarrow> string \<Rightarrow> string db_tx" where
  "finish cr mid state code result stamp =
     tx_then need_tx
     (tx_bind (tx_lift (jcs_dumps (payload_json result))) (\<lambda>encoded.
      let digest = sha256_hex cr encoded
      in tx_then (update_mutations (\<lambda>r. mut_id r = mid)
           (\<lambda>r. r\<lparr>mut_state := state, mut_provider_code := code, mut_result := Some result,
                  mut_result_digest := Some digest, mut_finished_at := Some stamp\<rparr>))
         (tx_return digest)))"

definition mark_retried :: "nat \<Rightarrow> unit db_tx" where
  "mark_retried mid = tx_then need_tx (update_mutations (\<lambda>r. mut_id r = mid) (\<lambda>r. r\<lparr>mut_retried := True\<rparr>))"

definition mark_degraded :: "nat \<Rightarrow> unit db_tx" where
  "mark_degraded mid =
     tx_then need_tx (update_mutations (\<lambda>r. mut_id r = mid) (\<lambda>r. r\<lparr>mut_audit_status := ''DEGRADED''\<rparr>))"

definition before_call :: "unit db_tx" where
  "before_call = io_guard"

definition interrupted :: "comms_db \<Rightarrow> (nat \<times> string) list" where
  "interrupted s = map (\<lambda>r. (mut_id r, mut_op_ref r))
     (sort_key mut_id (filter (\<lambda>r. mut_state r = ''IN_FLIGHT'') (mutations s)))"

end
