(* ===== verification/Comms_Executor.thy ===== *)
theory Comms_Executor
  imports Comms_Mutations
begin

text \<open>
  The mutation executor (\<open>services/mutations.py\<close>): the replay contract of every write. A run is a
  sequence of audited transactions and provider calls; an exception, a simulated crash included, leaves
  the world as the steps before it made it. The adapters, the directory hook of a creation and the
  change a local write applies are parameters.
\<close>

section \<open>Digests and keys\<close>

definition REQUEST_DIGEST :: bytes where "REQUEST_DIGEST = domain_tag ''comms-request-digest/v1''"
definition ADMIN_OP :: bytes where "ADMIN_OP = domain_tag ''comms-admin-op/v1''"

definition EXECUTOR_CRASH_POINTS :: "string list" where
  "EXECUTOR_CRASH_POINTS = [''before_call'', ''after_call'', ''after_record'', ''between_steps'']"

record mutation_outcome =
  mo_op_ref :: string
  mo_state :: string
  mo_code :: "string option"
  mo_result :: "(string \<times> json) list"
  mo_replayed :: bool

text \<open>A dict update keeps the place of a key it replaces.\<close>

fun dict_set :: "string \<Rightarrow> 'v \<Rightarrow> (string \<times> 'v) list \<Rightarrow> (string \<times> 'v) list" where
  "dict_set k v [] = [(k, v)]"
| "dict_set k v ((k', v') # d) = (if k = k' then (k, v) # d else (k', v') # dict_set k v d)"

definition dict_update :: "(string \<times> 'v) list \<Rightarrow> (string \<times> 'v) list \<Rightarrow> (string \<times> 'v) list" where
  "dict_update d extra = foldl (\<lambda>d (k, v). dict_set k v d) d extra"

definition request_digest ::
  "crypto \<Rightarrow> string \<Rightarrow> (string \<times> json) list \<Rightarrow> (string \<times> json) list \<Rightarrow> string res" where
  "request_digest cr tool args targets =
     res_bind (jcs_dumps (JObj [(jstr ''args'', payload_json args), (jstr ''targets'', payload_json targets),
       (jstr ''tool'', jstr tool)]))
     (\<lambda>body. Inr (sha256_hex cr (REQUEST_DIGEST @ body)))"

definition digestible :: "crypto \<Rightarrow> (string \<times> arg) list \<Rightarrow> (string \<times> json) list" where
  "digestible cr args = map (\<lambda>(k, a). (k, case a of
       AVal v \<Rightarrow> v
     | ABytes b \<Rightarrow> JObj [(jstr ''sha256'', jstr (sha256_hex cr b)), (jstr ''size'', JInt (int (length b)))])) args"

definition op_key :: "crypto \<Rightarrow> string \<Rightarrow> string \<Rightarrow> string res" where
  "op_key cr client_ref request_id =
     res_bind (jcs_dumps (JObj [(jstr ''client'', jstr client_ref), (jstr ''request'', jstr request_id)]))
     (\<lambda>body. Inr (sha256_hex cr (ADMIN_OP @ body)))"

definition reported :: "provider_result \<Rightarrow> (string \<times> json) list" where
  "reported r =
     (case map_of (pr_detail r) ''scope'' of
        None \<Rightarrow> []
      | Some v \<Rightarrow> if v \<in> {jstr ''local'', jstr ''everyone'', jstr ''provider_defined''} then [(''scope'', v)] else [])"

definition check_request :: "string \<Rightarrow> unit res" where
  "check_request request_id =
     (case check request_id ''request'' of
        Inl e \<Rightarrow> Inl (if is_ValueError e then CommsError ''INVALID_ARGUMENT'' else e)
      | Inr _ \<Rightarrow> Inr ())"

definition outcome_of :: "mutation_row \<Rightarrow> bool \<Rightarrow> mutation_outcome" where
  "outcome_of row replayed = \<lparr>mo_op_ref = mut_op_ref row, mo_state = mut_state row, mo_code = mut_provider_code row,
     mo_result = (case mut_result row of None \<Rightarrow> [] | Some r \<Rightarrow> r), mo_replayed = replayed\<rparr>"

section \<open>The executor\<close>

record executor =
  ex_writer :: writer
  ex_admin :: "string \<Rightarrow> admin_operations option"
  ex_crash_at :: "string option"

definition new_executor :: "writer \<Rightarrow> (string \<Rightarrow> admin_operations option) \<Rightarrow> string option \<Rightarrow> executor res" where
  "new_executor wr admin crash_at =
     (if (\<exists>p. crash_at = Some p \<and> p \<notin> set EXECUTOR_CRASH_POINTS) then Inl (ValueError ''unknown crash point'')
      else Inr \<lparr>ex_writer = wr, ex_admin = admin, ex_crash_at = crash_at\<rparr>)"

lemma new_executor_code [code]:
  "new_executor wr admin crash_at =
     (if (case crash_at of None \<Rightarrow> False | Some p \<Rightarrow> p \<notin> set EXECUTOR_CRASH_POINTS)
      then Inl (ValueError ''unknown crash point'')
      else Inr \<lparr>ex_writer = wr, ex_admin = admin, ex_crash_at = crash_at\<rparr>)"
  by (cases crash_at) (simp_all add: new_executor_def)

definition crash :: "executor \<Rightarrow> string \<Rightarrow> unit sio" where
  "crash ex point = (if ex_crash_at ex = Some point then io_raise (MutationCrash point) else io_return ())"

definition require_healthy :: "unit db_tx" where
  "require_healthy s =
     (case require_not_degraded s of
        Inl AuditIntegrityDegraded \<Rightarrow> Inl (CommsError ''AUDIT_INTEGRITY_DEGRADED'')
      | Inl e \<Rightarrow> Inl e
      | Inr r \<Rightarrow> Inr r)"

definition tx_stamp :: "audit_tx \<Rightarrow> string db_tx" where
  "tx_stamp tx = tx_lift (iso (atx_now tx))"

subsection \<open>Local writes\<close>

text \<open>\<open>str(v)\<close> of a target: a reference, a number or \<open>None\<close>. Callers pass no nested values here.\<close>

definition target_text :: "json \<Rightarrow> string" where
  "target_text v = (case v of JStr cs \<Rightarrow> map char_of cs | JInt i \<Rightarrow> dump_int i | JNull \<Rightarrow> ''None''
     | JBool b \<Rightarrow> (if b then ''True'' else ''False'') | _ \<Rightarrow> [])"

definition local_new ::
  "string \<Rightarrow> string \<Rightarrow> (string \<times> json) list \<Rightarrow> string \<Rightarrow> string \<Rightarrow> (audit_tx \<Rightarrow> (string \<times> json) list db_tx) \<Rightarrow> audit_tx
     \<Rightarrow> mutation_outcome db_tx" where
  "local_new client tool targets digest request_id apply tx =
     tx_then require_healthy
     (tx_bind (mint_ref ''operation'') (\<lambda>op_ref.
      tx_bind (tx_stamp tx) (\<lambda>stamp.
      tx_bind (insert_mutation op_ref client request_id digest tool ''local'' (map (target_text \<circ> snd) targets) None
         ''LOCAL'' ''resolve_only'' stamp) (\<lambda>mid.
      tx_then (audit_append tx ''admin.mutation_started'' (Some op_ref) (Some digest)
         [(''tool'', jstr tool), (''scope'', jstr ''local''), (''actor'', JNull)])
      (tx_bind (apply tx) (\<lambda>result.
       tx_bind (finish (atx_crypto tx) mid ''SUCCEEDED'' None result stamp) (\<lambda>result_digest.
       tx_then (audit_append tx ''admin.mutation_finished'' (Some op_ref) (Some result_digest)
          [(''state'', jstr ''SUCCEEDED''), (''provider_code'', JNull)])
       (tx_return \<lparr>mo_op_ref = op_ref, mo_state = ''SUCCEEDED'', mo_code = None, mo_result = result,
                   mo_replayed = False\<rparr>))))))))"

definition local_body ::
  "string \<Rightarrow> string \<Rightarrow> (string \<times> json) list \<Rightarrow> string \<Rightarrow> string \<Rightarrow> (audit_tx \<Rightarrow> (string \<times> json) list db_tx) \<Rightarrow> audit_tx
     \<Rightarrow> mutation_outcome db_tx" where
  "local_body client tool targets digest request_id apply tx =
     tx_bind (tx_reads (find_mutation client request_id)) (\<lambda>existing.
     case existing of
       Some row \<Rightarrow>
         tx_then (tx_guard (mut_request_digest row = digest) (CommsError ''REQUEST_ID_REUSE''))
         (tx_return (outcome_of row True))
     | None \<Rightarrow> local_new client tool targets digest request_id apply tx)"

definition local ::
  "executor \<Rightarrow> string \<Rightarrow> string \<Rightarrow> (string \<times> json) list \<Rightarrow> (string \<times> json) list \<Rightarrow> string
     \<Rightarrow> (audit_tx \<Rightarrow> (string \<times> json) list db_tx) \<Rightarrow> mutation_outcome sio" where
  "local ex client tool targets args request_id apply =
     io_then (sio_res (check_request request_id))
     (io_bind (sio_res (request_digest (wr_crypto (ex_writer ex)) tool args targets)) (\<lambda>digest.
      audited (ex_writer ex) (local_body client tool targets digest request_id apply)))"

subsection \<open>Provider writes\<close>

text \<open>What a run of a saga is about: the mutation, the operation and its target, who asked, and what a
  success creates. The hook runs its own transactions on the database.\<close>

record saga =
  sg_mutation :: nat
  sg_op_ref :: string
  sg_target :: provider_target
  sg_op :: semantic_operation
  sg_step_args :: "(string \<times> json) list list"
  sg_client :: string
  sg_request :: string
  sg_adapter :: admin_operations
  sg_replayed :: bool
  sg_object_kind :: "string option"
  sg_on_created :: "(string \<Rightarrow> (comms_db, (string \<times> json) list) run) option"

definition degraded :: "executor \<Rightarrow> nat \<Rightarrow> string \<Rightarrow> string \<Rightarrow> bool \<Rightarrow> mutation_outcome sio" where
  "degraded ex mid op_ref state replayed =
     io_then (audited (ex_writer ex) (\<lambda>_. mark_degraded mid))
     (io_return \<lparr>mo_op_ref = op_ref, mo_state = state, mo_code = Some ''AUDIT_INTEGRITY_DEGRADED'', mo_result = [],
        mo_replayed = replayed\<rparr>)"

definition record_step_body ::
  "nat \<Rightarrow> string \<Rightarrow> nat \<Rightarrow> string \<Rightarrow> string \<Rightarrow> string \<Rightarrow> string option \<Rightarrow> audit_tx \<Rightarrow> unit db_tx" where
  "record_step_body mid op_ref n capability current state code tx =
     tx_then (if current \<noteq> state then finish_step mid n state code else tx_return ())
     (tx_then (audit_append tx ''admin.mutation_step'' (Some op_ref) None
        [(''step_no'', JInt (int n)), (''capability'', jstr capability), (''state'', jstr state),
         (''provider_code'', jopt code)])
      (tx_return ()))"

definition finish_body ::
  "nat \<Rightarrow> string \<Rightarrow> string \<Rightarrow> string option \<Rightarrow> (string \<times> json) list \<Rightarrow> audit_tx \<Rightarrow> unit db_tx" where
  "finish_body mid op_ref state code result tx =
     tx_bind (tx_stamp tx) (\<lambda>stamp.
     tx_bind (finish (atx_crypto tx) mid state code result stamp) (\<lambda>digest.
     tx_then (audit_append tx ''admin.mutation_finished'' (Some op_ref) (Some digest)
        [(''state'', jstr state), (''provider_code'', jopt code)])
     (tx_return ())))"

definition finish_io ::
  "executor \<Rightarrow> saga \<Rightarrow> string \<Rightarrow> string option \<Rightarrow> (string \<times> json) list \<Rightarrow> mutation_outcome sio" where
  "finish_io ex sg state code extra =
     (let result = dict_update [(''state'', jstr state), (''code'', jopt code)] extra
      in io_bind (transaction (ex_writer ex) (finish_body (sg_mutation sg) (sg_op_ref sg) state code result)) (\<lambda>(_, ok).
         if ok then io_return \<lparr>mo_op_ref = sg_op_ref sg, mo_state = state, mo_code = code, mo_result = result,
                       mo_replayed = sg_replayed sg\<rparr>
         else degraded ex (sg_mutation sg) (sg_op_ref sg) state (sg_replayed sg)))"

text \<open>\<open>adapter.invoke\<close> behind the one boundary where an exception is an outcome.\<close>

definition invoke_io :: "saga \<Rightarrow> nat \<Rightarrow> semantic_operation \<Rightarrow> string \<Rightarrow> provider_result sio" where
  "invoke_io sg n operation key w =
     (let result = (case ao_invoke (sg_adapter sg) (length (sw_calls w)) operation (sg_target sg) key of
            Inl _ \<Rightarrow> \<lparr>pr_outcome = ''OUTCOME_UNKNOWN'', pr_code = None, pr_provider_ref = None, pr_detail = []\<rparr>
          | Inr r \<Rightarrow> r)
      in (Inr result, w\<lparr>sw_calls := sw_calls w @ [\<lparr>pc_mutation = sg_mutation sg, pc_step = n, pc_op = operation,
             pc_target = sg_target sg, pc_key = key\<rparr>]\<rparr>))"

text \<open>What the last step's success created: the object reference, then the directory hook. The first
  component is the state the step ends in.\<close>

definition name_object ::
  "executor \<Rightarrow> saga \<Rightarrow> string \<Rightarrow> provider_result \<Rightarrow> (string \<times> json) list \<Rightarrow> (string \<times> (string \<times> json) list) sio" where
  "name_object ex sg kind r created =
     (let tg = sg_target sg
      in case pr_provider_ref r of
           Some (c # cs) \<Rightarrow>
             io_bind (sio_db (tx_reads (\<lambda>s. destination_id s (pt_destination_ref tg)))) (\<lambda>d.
             io_bind (writer_now (ex_writer ex)) (\<lambda>now.
             io_bind (sio_db (object_ref kind (pt_transport tg) (pt_actor tg) d
               (if kind = ''message'' then message_identity (pt_identity tg) (c # cs) else c # cs) now)) (\<lambda>ref.
             io_return (''SUCCEEDED'', dict_set ''object_ref'' (jstr ref) created))))
         | _ \<Rightarrow>
             (case SEMANTICS (so_capability (sg_op sg)) (pt_actor tg) of
                None \<Rightarrow> io_raise (KeyError (so_capability (sg_op sg)))
              | Some sem \<Rightarrow> io_return (if os_retry_class sem = ''CREATE'' then ''OUTCOME_UNKNOWN'' else ''SUCCEEDED'', created)))"

definition hook_io :: "(string \<Rightarrow> (comms_db, 'a) run) \<Rightarrow> string \<Rightarrow> 'a sio" where
  "hook_io hook ref w = (case hook ref (sw_db w) of (r, t) \<Rightarrow> (r, w\<lparr>sw_db := t\<rparr>))"

definition run_hook ::
  "saga \<Rightarrow> provider_result \<Rightarrow> (string \<times> json) list \<Rightarrow> (string \<times> (string \<times> json) list) sio" where
  "run_hook sg r created =
     (case sg_on_created sg of
        None \<Rightarrow> io_return (''SUCCEEDED'', created)
      | Some hook \<Rightarrow>
          (case pr_provider_ref r of
             Some (c # cs) \<Rightarrow> io_bind (hook_io hook (c # cs)) (\<lambda>made. io_return (''SUCCEEDED'', dict_update created made))
           | _ \<Rightarrow> io_return (''OUTCOME_UNKNOWN'', created)))"

definition settle_result ::
  "executor \<Rightarrow> saga \<Rightarrow> bool \<Rightarrow> provider_result \<Rightarrow> (string \<times> json) list \<Rightarrow> (string \<times> (string \<times> json) list) sio" where
  "settle_result ex sg is_last r created =
     (if \<not> (is_last \<and> pr_outcome r = ''SUCCEEDED'') then io_return (pr_outcome r, created)
      else let made = dict_update created (reported r)
           in io_bind (case sg_object_kind sg of
                None \<Rightarrow> io_return (''SUCCEEDED'', made)
              | Some kind \<Rightarrow> name_object ex sg kind r made) (\<lambda>(state, made').
              if state = ''SUCCEEDED'' then run_hook sg r made' else io_return (state, made')))"

definition step_extra :: "(string \<times> json) list list \<Rightarrow> nat \<Rightarrow> (string \<times> json) list res" where
  "step_extra step_args index =
     (if step_args = [] then Inr []
      else if index < length step_args then Inr (step_args ! index) else Inl IndexError)"

definition step_operation :: "semantic_operation \<Rightarrow> string \<Rightarrow> (string \<times> json) list \<Rightarrow> semantic_operation" where
  "step_operation op capability extra =
     \<lparr>so_capability = capability, so_args = dict_update (so_args op) (map (\<lambda>(k, v). (k, AVal v)) extra)\<rparr>"

definition request_key :: "string \<Rightarrow> nat \<Rightarrow> string" where
  "request_key key n = key @ '':'' @ dump_nat n"

text \<open>The call of one step and the record of its outcome; \<open>k\<close> is the rest of the loop.\<close>

definition call_step ::
  "executor \<Rightarrow> saga \<Rightarrow> string \<Rightarrow> nat \<Rightarrow> nat \<Rightarrow> step_row \<Rightarrow> (string \<times> json) list
     \<Rightarrow> ((string \<times> json) list \<Rightarrow> mutation_outcome sio) \<Rightarrow> mutation_outcome sio" where
  "call_step ex sg key nsteps index st created k =
     io_bind (sio_res (step_extra (sg_step_args sg) index)) (\<lambda>extra.
     io_then (sio_db before_call)
     (io_bind (invoke_io sg (stp_no st) (step_operation (sg_op sg) (stp_capability st) extra) key) (\<lambda>r.
      io_then (crash ex ''after_call'')
      (io_bind (settle_result ex sg (Suc index = nsteps) r created) (\<lambda>(state, created').
       io_bind (transaction (ex_writer ex) (record_step_body (sg_mutation sg) (sg_op_ref sg) (stp_no st)
           (stp_capability st) ''IN_FLIGHT'' state (pr_code r))) (\<lambda>(_, ok).
       if \<not> ok then degraded ex (sg_mutation sg) (sg_op_ref sg) state (sg_replayed sg)
       else io_then (crash ex ''after_record'')
            (if state \<noteq> ''SUCCEEDED'' then finish_io ex sg state (pr_code r) [] else k created')))))))"

definition start_io ::
  "executor \<Rightarrow> saga \<Rightarrow> string \<Rightarrow> step_row \<Rightarrow> mutation_outcome sio \<Rightarrow> mutation_outcome sio" where
  "start_io ex sg key st k =
     io_bind (transaction (ex_writer ex) (\<lambda>_. start_step (sg_mutation sg) (stp_no st) (request_key key (stp_no st))))
     (\<lambda>(_, ok). if ok then k else degraded ex (sg_mutation sg) (sg_op_ref sg) ''IN_FLIGHT'' (sg_replayed sg))"

definition run_step ::
  "executor \<Rightarrow> saga \<Rightarrow> string \<Rightarrow> nat \<Rightarrow> nat \<Rightarrow> step_row \<Rightarrow> (string \<times> json) list
     \<Rightarrow> ((string \<times> json) list \<Rightarrow> mutation_outcome sio) \<Rightarrow> mutation_outcome sio" where
  "run_step ex sg key nsteps index st created k =
     (if stp_state st = ''SUCCEEDED'' then k created
      else if stp_capability st \<notin> set CAPABILITIES then io_raise (ValueError (stp_capability st))
      else case SEMANTICS (stp_capability st) (pt_actor (sg_target sg)) of
        None \<Rightarrow> io_raise (KeyError (stp_capability st))
      | Some sem \<Rightarrow>
          if stp_state st = ''FAILED'' then finish_io ex sg ''FAILED'' None []
          else if stp_state st \<in> {''IN_FLIGHT'', ''OUTCOME_UNKNOWN''} \<and> os_policy sem \<noteq> ''retry_same_key''
          then io_then (audited (ex_writer ex) (record_step_body (sg_mutation sg) (sg_op_ref sg) (stp_no st)
                 (stp_capability st) (stp_state st) ''OUTCOME_UNKNOWN'' None))
               (finish_io ex sg ''OUTCOME_UNKNOWN'' None [])
          else
            io_then (if 0 < index then crash ex ''between_steps'' else io_return ())
            (\<lambda>w. if is_degraded (sw_db w)
                 then io_return \<lparr>mo_op_ref = sg_op_ref sg, mo_state = ''IN_FLIGHT'',
                        mo_code = Some ''AUDIT_INTEGRITY_DEGRADED'', mo_result = [], mo_replayed = sg_replayed sg\<rparr> w
                 else io_then (crash ex ''before_call'')
                      (start_io ex sg key st (call_step ex sg key nsteps index st created k)) w))"

fun run_steps ::
  "executor \<Rightarrow> saga \<Rightarrow> string \<Rightarrow> nat \<Rightarrow> nat \<Rightarrow> step_row list \<Rightarrow> (string \<times> json) list \<Rightarrow> mutation_outcome sio" where
  "run_steps ex sg key nsteps index [] created = finish_io ex sg ''SUCCEEDED'' None created"
| "run_steps ex sg key nsteps index (st # sts) created =
     run_step ex sg key nsteps index st created (run_steps ex sg key nsteps (Suc index) sts)"

definition run_saga :: "executor \<Rightarrow> saga \<Rightarrow> mutation_outcome sio" where
  "run_saga ex sg =
     io_bind (sio_res (op_key (wr_crypto (ex_writer ex)) (sg_client sg) (sg_request sg))) (\<lambda>key.
     io_bind (sio_db (tx_reads (steps (sg_mutation sg)))) (\<lambda>sts.
     run_steps ex sg key (length sts) 0 sts []))"

text \<open>The arguments of every step are checked before anything is recorded.\<close>

definition validate_steps :: "admin_operations \<Rightarrow> op_semantics \<Rightarrow> semantic_operation \<Rightarrow> provider_target \<Rightarrow> unit res" where
  "validate_steps adapter sem op target =
     res_bind (res_each (\<lambda>(index, capability).
       res_bind (step_extra (os_step_args sem) index) (\<lambda>extra.
       case ao_validate adapter (step_operation op capability extra) target of
         Inl NotImplementedError \<Rightarrow> Inl (CommsError ''PROVIDER_UNSUPPORTED'')
       | Inl e \<Rightarrow> Inl (if is_ValueError e then CommsError ''INVALID_ARGUMENT'' else e)
       | Inr _ \<Rightarrow> Inr ())) (enumerate 0 (steps_of sem (so_capability op)))) (\<lambda>_. Inr ())"

text \<open>The first transaction: the record found, or the new mutation and its steps.\<close>

definition provider_new ::
  "string \<Rightarrow> string \<Rightarrow> provider_target \<Rightarrow> semantic_operation \<Rightarrow> op_semantics \<Rightarrow> string \<Rightarrow> string \<Rightarrow> audit_tx
     \<Rightarrow> (nat \<times> string) db_tx" where
  "provider_new client tool target op sem digest request_id tx =
     tx_then require_healthy
     (tx_bind (mint_ref ''operation'') (\<lambda>op_ref.
      tx_bind (tx_stamp tx) (\<lambda>stamp.
      tx_bind (insert_mutation op_ref client request_id digest tool ''provider'' [pt_destination_ref target]
         (Some (pt_actor target)) (os_retry_class sem) (os_policy sem) stamp) (\<lambda>mid.
      tx_then (add_steps mid (steps_of sem (so_capability op)))
      (tx_then (audit_append tx ''admin.mutation_started'' (Some op_ref) (Some digest)
         [(''tool'', jstr tool), (''scope'', jstr ''provider''), (''actor'', jstr (pt_actor target))])
       (tx_return (mid, op_ref)))))))"

definition provider_body ::
  "string \<Rightarrow> string \<Rightarrow> provider_target \<Rightarrow> semantic_operation \<Rightarrow> op_semantics \<Rightarrow> string \<Rightarrow> string \<Rightarrow> audit_tx
     \<Rightarrow> (mutation_row + nat \<times> string) db_tx" where
  "provider_body client tool target op sem digest request_id tx =
     tx_bind (tx_reads (find_mutation client request_id)) (\<lambda>row.
     case row of
       Some r \<Rightarrow> tx_then (tx_guard (mut_request_digest r = digest) (CommsError ''REQUEST_ID_REUSE'')) (tx_return (Inl r))
     | None \<Rightarrow> tx_bind (provider_new client tool target op sem digest request_id tx) (\<lambda>made. tx_return (Inr made)))"

definition provider_targets :: "provider_target \<Rightarrow> semantic_operation \<Rightarrow> (string \<times> json) list" where
  "provider_targets target op = [(''actor'', jstr (pt_actor target)), (''capability'', jstr (so_capability op)),
     (''destination'', jstr (pt_destination_ref target))]"

text \<open>After the first transaction: a replay answers or resumes, a new mutation runs.\<close>

definition resume :: "executor \<Rightarrow> (nat \<Rightarrow> string \<Rightarrow> bool \<Rightarrow> saga) \<Rightarrow> mutation_row \<Rightarrow> mutation_outcome sio" where
  "resume ex mk row =
     (if mut_state row \<in> {''SUCCEEDED'', ''FAILED''} then io_return (outcome_of row True)
      else if mut_state row = ''OUTCOME_UNKNOWN'' \<and> (mut_retried row \<or> mut_ambiguity_policy row \<noteq> ''retry_same_key'')
      then io_return (outcome_of row True)
      else io_then (if mut_state row = ''OUTCOME_UNKNOWN''
             then audited (ex_writer ex) (\<lambda>_. mark_retried (mut_id row)) else io_return ())
           (run_saga ex (mk (mut_id row) (mut_op_ref row) True)))"

definition provider ::
  "executor \<Rightarrow> string \<Rightarrow> string \<Rightarrow> provider_target \<Rightarrow> semantic_operation \<Rightarrow> string \<Rightarrow> string option
     \<Rightarrow> (string \<Rightarrow> (comms_db, (string \<times> json) list) run) option \<Rightarrow> mutation_outcome sio" where
  "provider ex client tool target op request_id object_kind on_created =
     io_then (sio_res (check_request request_id))
     (io_then (sio_res (case object_kind of
          None \<Rightarrow> Inr ()
        | Some k \<Rightarrow> if k \<in> set OBJECT_KINDS then Inr () else Inl (CommsError ''INVALID_ARGUMENT'')))
     (case (SEMANTICS (so_capability op) (pt_actor target), ex_admin ex (pt_actor target)) of
        (Some sem, Some adapter) \<Rightarrow>
          if os_retry_class sem = ''READ'' then io_raise (CommsError ''PROVIDER_UNSUPPORTED'')
          else
            io_then (sio_res (validate_steps adapter sem op target))
            (io_bind (sio_res (request_digest (wr_crypto (ex_writer ex)) tool
                (digestible (wr_crypto (ex_writer ex)) (so_args op)) (provider_targets target op))) (\<lambda>digest.
             io_bind (transaction (ex_writer ex) (provider_body client tool target op sem digest request_id)) (\<lambda>(found, ok).
             let mk = (\<lambda>mid op_ref replayed. \<lparr>sg_mutation = mid, sg_op_ref = op_ref, sg_target = target, sg_op = op,
                   sg_step_args = os_step_args sem, sg_client = client, sg_request = request_id, sg_adapter = adapter,
                   sg_replayed = replayed, sg_object_kind = object_kind, sg_on_created = on_created\<rparr>)
             in case found of
                  Inl row \<Rightarrow> if ok then resume ex mk row else degraded ex 0 [] ''IN_FLIGHT'' False
                | Inr (mid, op_ref) \<Rightarrow>
                    if ok then run_saga ex (mk mid op_ref False)
                    else degraded ex mid op_ref ''IN_FLIGHT'' False)))
      | _ \<Rightarrow> io_raise (CommsError ''PROVIDER_UNSUPPORTED'')))"

end
