(* ===== verification/Comms_Service_Logic.thy ===== *)
theory Comms_Service_Logic
  imports Comms_Mutations
begin

text \<open>
  Triples for runs of a service. A predicate speaks of the view of a world: the mutation tables and the
  provider calls made. \<open>triple I P m Q\<close> says that a run of \<open>m\<close> from a view in \<open>P\<close> ends in \<open>I\<close> however it
  ends, and in \<open>Q\<close> of its value when it returns.
\<close>

section \<open>Views\<close>

type_synonym tables = "mutation_row list \<times> step_row list"
type_synonym view = "tables \<times> provider_call list"

definition tables :: "comms_db \<Rightarrow> tables" where
  "tables s = (mutations s, mutation_steps s)"

definition view :: "service_world \<Rightarrow> view" where
  "view w = (tables (sw_db w), sw_calls w)"

definition same_records :: "comms_db \<Rightarrow> comms_db \<Rightarrow> bool" where
  "same_records s t \<longleftrightarrow> tables t = tables s"

interpretation same_records: audit_client same_records
  by unfold_locales (simp_all add: same_records_def tables_def)

lemma tables_fields [simp]:
  "tables (s\<lparr>in_transaction := b\<rparr>) = tables s" "tables (s\<lparr>audit_appended := b\<rparr>) = tables s"
  "tables (s\<lparr>audit_integrity := i\<rparr>) = tables s" "tables (s\<lparr>provider_objects := os\<rparr>) = tables s"
  "tables (s\<lparr>draws := n\<rparr>) = tables s"
  by (simp_all add: tables_def)

lemma view_fields [simp]:
  "view (w\<lparr>sw_ticks := n\<rparr>) = view w" "view (w\<lparr>sw_anchors := as\<rparr>) = view w"
  "view (w\<lparr>sw_db := t\<rparr>) = (tables t, sw_calls w)" "view (w\<lparr>sw_calls := cs\<rparr>) = (tables (sw_db w), cs)"
  by (simp_all add: view_def)

section \<open>Triples\<close>

definition triple :: "(view \<Rightarrow> bool) \<Rightarrow> (view \<Rightarrow> bool) \<Rightarrow> 'a sio \<Rightarrow> ('a \<Rightarrow> view \<Rightarrow> bool) \<Rightarrow> bool" where
  "triple I P m Q \<longleftrightarrow> (\<forall>w r w'. P (view w) \<longrightarrow> m w = (r, w') \<longrightarrow> I (view w') \<and> (\<forall>x. r = Inr x \<longrightarrow> Q x (view w')))"

lemma tripleI:
  "(\<And>w r w'. P (view w) \<Longrightarrow> m w = (r, w') \<Longrightarrow> I (view w') \<and> (\<forall>x. r = Inr x \<longrightarrow> Q x (view w'))) \<Longrightarrow> triple I P m Q"
  by (simp add: triple_def)

lemma tripleD:
  assumes "triple I P m Q" and "P (view w)" and "m w = (r, w')"
  shows "I (view w')" and "\<And>x. r = Inr x \<Longrightarrow> Q x (view w')"
  using assms by (auto simp: triple_def)

lemma triple_conseq:
  assumes "triple I P' m Q'" and "\<And>v. P v \<Longrightarrow> P' v" and "\<And>x v. Q' x v \<Longrightarrow> Q x v"
  shows "triple I P m Q"
  using assms unfolding triple_def by blast

lemma triple_pre: "triple I P' m Q \<Longrightarrow> (\<And>v. P v \<Longrightarrow> P' v) \<Longrightarrow> triple I P m Q"
  by (erule triple_conseq) simp_all

lemma triple_return: "(\<And>v. P v \<Longrightarrow> I v \<and> Q x v) \<Longrightarrow> triple I P (io_return x) Q"
  unfolding triple_def io_return_def prod.inject by (intro allI impI, elim conjE) (metis sum.inject(2))

lemma triple_raise: "(\<And>v. P v \<Longrightarrow> I v) \<Longrightarrow> triple I P (io_raise e) Q"
  by (rule tripleI) (auto simp: io_raise_def)

lemma triple_bind:
  assumes "triple I P m Q" and "\<And>x. triple I (Q x) (f x) S"
  shows "triple I P (io_bind m f) S"
proof (rule tripleI)
  fix w r w'
  assume pre: "P (view w)" and run: "io_bind m f w = (r, w')"
  from run show "I (view w') \<and> (\<forall>x. r = Inr x \<longrightarrow> S x (view w'))"
  proof (rule io_bind_cases)
    fix e assume "m w = (Inl e, w')" "r = Inl e"
    with tripleD(1) [OF assms(1) pre] show ?thesis by blast
  next
    fix x w1 assume m: "m w = (Inr x, w1)" and f: "f x w1 = (r, w')"
    from tripleD(2) [OF assms(1) pre m] have "Q x (view w1)" by simp
    from tripleD [OF assms(2) this f] show ?thesis by blast
  qed
qed

lemma triple_then: "triple I P m (\<lambda>_. Q) \<Longrightarrow> triple I Q k S \<Longrightarrow> triple I P (io_then m k) S"
  unfolding io_then_def by (rule triple_bind)

lemma triple_if:
  "(b \<Longrightarrow> triple I P m Q) \<Longrightarrow> (\<not> b \<Longrightarrow> triple I P k Q) \<Longrightarrow> triple I P (if b then m else k) Q"
  by simp

lemma triple_case_prod: "(\<And>x y. p = (x, y) \<Longrightarrow> triple I P (f x y) Q) \<Longrightarrow> triple I P (case p of (x, y) \<Rightarrow> f x y) Q"
  by (cases p) simp

lemma triple_case_option:
  "(v = None \<Longrightarrow> triple I P m Q) \<Longrightarrow> (\<And>x. v = Some x \<Longrightarrow> triple I P (f x) Q) \<Longrightarrow>
     triple I P (case v of None \<Rightarrow> m | Some x \<Rightarrow> f x) Q"
  by (cases v) simp_all

lemma triple_res: "(\<And>v. P v \<Longrightarrow> I v) \<Longrightarrow> triple I P (sio_res r) (\<lambda>x v. P v \<and> r = Inr x)"
  by (rule tripleI) (auto simp: sio_res_def)

text \<open>A step that leaves the view alone.\<close>

definition quiet :: "'a sio \<Rightarrow> bool" where
  "quiet m \<longleftrightarrow> (\<forall>w r w'. m w = (r, w') \<longrightarrow> view w' = view w)"

lemma triple_quiet: "quiet m \<Longrightarrow> (\<And>v. P v \<Longrightarrow> I v) \<Longrightarrow> triple I P m (\<lambda>_. P)"
  by (rule tripleI) (auto simp: quiet_def)

lemma quiet_now: "quiet (writer_now wr)"
  by (auto simp: quiet_def dest: writer_now_frame)

lemma quiet_db: "tx_within same_records m \<Longrightarrow> quiet (sio_db m)"
  by (auto simp: quiet_def sio_db_def same_records_def view_def dest: tx_withinD split: sum.splits)

text \<open>One query or transaction, by its effect on the tables.\<close>

definition db_triple :: "(tables \<Rightarrow> bool) \<Rightarrow> 'a db_tx \<Rightarrow> ('a \<Rightarrow> tables \<Rightarrow> bool) \<Rightarrow> bool" where
  "db_triple P m Q \<longleftrightarrow> (\<forall>s x t. P (tables s) \<longrightarrow> m s = Inr (x, t) \<longrightarrow> Q x (tables t))"

lemma db_tripleI: "(\<And>s x t. P (tables s) \<Longrightarrow> m s = Inr (x, t) \<Longrightarrow> Q x (tables t)) \<Longrightarrow> db_triple P m Q"
  by (simp add: db_triple_def)

lemma db_tripleD: "db_triple P m Q \<Longrightarrow> P (tables s) \<Longrightarrow> m s = Inr (x, t) \<Longrightarrow> Q x (tables t)"
  by (simp add: db_triple_def)

lemma db_triple_bind:
  assumes "db_triple P m Q" and "\<And>x. db_triple (Q x) (f x) S"
  shows "db_triple P (tx_bind m f) S"
  using assms by (fastforce simp: db_triple_def tx_bind_Inr)

lemma db_triple_then: "db_triple P m (\<lambda>_. Q) \<Longrightarrow> db_triple Q k S \<Longrightarrow> db_triple P (tx_then m k) S"
  unfolding tx_then_def by (rule db_triple_bind)

lemma db_triple_return: "(\<And>v. P v \<Longrightarrow> Q x v) \<Longrightarrow> db_triple P (tx_return x) Q"
  by (simp add: db_triple_def)

lemma db_triple_quiet: "tx_within same_records m \<Longrightarrow> db_triple P m (\<lambda>_. P)"
  by (auto simp: db_triple_def same_records_def dest: tx_withinD)

lemma db_triple_conseq:
  "db_triple P' m Q' \<Longrightarrow> (\<And>v. P v \<Longrightarrow> P' v) \<Longrightarrow> (\<And>x v. Q' x v \<Longrightarrow> Q x v) \<Longrightarrow> db_triple P m Q"
  unfolding db_triple_def by blast

section \<open>The writer's transaction\<close>

lemma refresh_quiet: "refresh wr h now w = (r, w') \<Longrightarrow> view w' = view w"
proof -
  assume run: "refresh wr h now w = (r, w')"
  obtain q w1 where a: "anchor_committed wr h now w = (q, w1)" by fastforce
  then obtain as where w1: "w1 = w\<lparr>sw_anchors := as\<rparr>" using anchor_committed_frame by blast
  have "tx_within same_records (latch_degraded ''ANCHOR_REFRESH_FAILED'' now)"
  proof (rule tx_withinI)
    fix s x t assume "latch_degraded ''ANCHOR_REFRESH_FAILED'' now s = Inr (x, t)"
    then have "t = s\<lparr>audit_integrity := audit_integrity t\<rparr>" using latch_degraded_run by blast
    then show "same_records s t" by (metis same_records_def tables_fields(3))
  qed
  from quiet_db [OF this] have "view w2 = view w1"
    if "sio_db (latch_degraded ''ANCHOR_REFRESH_FAILED'' now) w1 = (q', w2)" for q' w2 using that by (simp add: quiet_def)
  with run a w1 show ?thesis
    by (cases q) (auto simp: refresh_def io_then_def io_bind_def io_return_def split: sum.splits prod.splits)
qed

lemma triple_transaction:
  assumes "\<And>v. P v \<Longrightarrow> I v"
    and body: "\<And>tx cs. db_triple (\<lambda>t. P (t, cs)) (body tx) (\<lambda>x t. Q x (t, cs) \<and> I (t, cs))"
  shows "triple I P (transaction wr body) (\<lambda>(x, ok). Q x)"
proof -
  have tx: "triple I P (sio_db (audited_tx tx body)) (\<lambda>(x, committed) v. Q x v \<and> I v)" for tx
  proof (rule tripleI)
    fix w r w'
    assume pre: "P (view w)" and run: "sio_db (audited_tx tx body) w = (r, w')"
    show "I (view w') \<and> (\<forall>p. r = Inr p \<longrightarrow> (case p of (x, committed) \<Rightarrow> \<lambda>v. Q x v \<and> I v) (view w'))"
    proof (cases "audited_tx tx body (sw_db w)")
      case (Inl e)
      with run pre assms(1) show ?thesis by (auto simp: sio_db_def)
    next
      case (Inr p)
      obtain x committed u where p: "p = ((x, committed), u)" by (metis prod.exhaust)
      with Inr have t: "audited_tx tx body (sw_db w) = Inr ((x, committed), u)" by simp
      show ?thesis
        using t
      proof (rule audited_tx_run)
        fix v assume "body tx ((sw_db w)\<lparr>in_transaction := True, audit_appended := False\<rparr>) = Inr (x, v)"
          and "u = v\<lparr>in_transaction := False\<rparr>"
        then have "Q x (tables u, sw_calls w) \<and> I (tables u, sw_calls w)"
          using db_tripleD [OF body [of "sw_calls w" tx], of "(sw_db w)\<lparr>in_transaction := True, audit_appended := False\<rparr>"]
            pre by (simp add: view_def)
        with run t show ?thesis by (auto simp: sio_db_def)
      qed
    qed
  qed
  have fin: "triple I (\<lambda>v. Q x v \<and> I v) (case committed of None \<Rightarrow> io_return (x, True)
      | Some h \<Rightarrow> io_bind (refresh wr h now) (\<lambda>ok. io_return (x, ok))) (\<lambda>(x, ok). Q x)" for x committed now
    by (intro triple_case_option triple_bind [OF triple_quiet] triple_return) (auto simp: quiet_def dest: refresh_quiet)
  have key: "triple I P (\<lambda>w. io_bind (sio_res (wr_current wr (sw_db w))) f w) S" if "\<And>key. triple I P (f key) S" for f :: "_ \<Rightarrow> ('a \<times> bool) sio" and S
  proof (rule tripleI)
    fix w r w'
    assume pre: "P (view w)" and run: "io_bind (sio_res (wr_current wr (sw_db w))) f w = (r, w')"
    show "I (view w') \<and> (\<forall>x. r = Inr x \<longrightarrow> S x (view w'))"
    proof (cases "wr_current wr (sw_db w)")
      case (Inl e)
      with run pre assms(1) show ?thesis by (auto simp: io_bind_def sio_res_def)
    next
      case (Inr key)
      with run have "f key w = (r, w')" by (simp add: io_bind_def sio_res_def)
      from tripleD [OF that pre this] show ?thesis by blast
    qed
  qed
  show ?thesis
    unfolding transaction_def
    by (rule triple_bind [OF triple_quiet [OF quiet_now assms(1)]], assumption, rule key, rule triple_bind [OF tx])
      (auto intro!: triple_case_prod intro: fin)
qed

end
