(* ===== verification/Comms_Executor_Props.thy ===== *)
theory Comms_Executor_Props
  imports Comms_Executor Comms_Service_Logic
begin

text \<open>
  What the executor promises over any sequence of requests, replays and crashes: the records stay well
  formed, every provider call belongs to a step recorded as started before it, a step is called again
  only under the policy that allows it, and a finished request keeps its outcome.
\<close>

section \<open>The invariant\<close>

definition finished :: "mutation_row \<Rightarrow> bool" where
  "finished r \<longleftrightarrow> mut_state r \<in> {''SUCCEEDED'', ''FAILED''}"

text \<open>The same record, up to the audit status a failed anchor leaves on it.\<close>

definition same_record :: "mutation_row \<Rightarrow> mutation_row \<Rightarrow> bool" where
  "same_record r r' \<longleftrightarrow> (\<exists>status. r' = r\<lparr>mut_audit_status := status\<rparr>)"

definition step_key :: "step_row \<Rightarrow> nat \<times> nat" where
  "step_key r = (stp_mutation_id r, stp_no r)"

definition call_key :: "provider_call \<Rightarrow> nat \<times> nat" where
  "call_key c = (pc_mutation c, pc_step c)"

definition request_of :: "mutation_row \<Rightarrow> string \<times> string" where
  "request_of m = (mut_client m, mut_request_id m)"

definition records_inv :: "tables \<Rightarrow> bool" where
  "records_inv t \<longleftrightarrow> distinct (map mut_id (fst t)) \<and> distinct (map request_of (fst t))
     \<and> distinct (map step_key (snd t))
     \<and> (\<forall>r\<in>set (snd t). stp_mutation_id r \<in> mut_id ` set (fst t) \<and> stp_state r \<in> set (''PENDING'' # MUTATION_STATES))"

definition calls_recorded :: "view \<Rightarrow> bool" where
  "calls_recorded v \<longleftrightarrow> (\<forall>c\<in>set (snd v). \<exists>r\<in>set (snd (fst v)). step_key r = call_key c \<and> stp_state r \<noteq> ''PENDING'')"

definition retryable :: "string \<Rightarrow> string \<Rightarrow> bool" where
  "retryable capability actor \<longleftrightarrow> (case SEMANTICS capability actor of None \<Rightarrow> False
     | Some sem \<Rightarrow> os_policy sem = ''retry_same_key'')"

definition repeats_allowed :: "provider_call list \<Rightarrow> bool" where
  "repeats_allowed cs \<longleftrightarrow> (\<forall>i j. i < j \<longrightarrow> j < length cs \<longrightarrow> call_key (cs ! i) = call_key (cs ! j) \<longrightarrow>
     retryable (so_capability (pc_op (cs ! j))) (pt_actor (pc_target (cs ! j))))"

text \<open>What the request \<open>rq\<close> may make of a row: nothing of a finished one or of another request's, and
  never another id, request or digest.\<close>

definition follows :: "string \<times> string \<Rightarrow> mutation_row \<Rightarrow> mutation_row \<Rightarrow> bool" where
  "follows rq r r' \<longleftrightarrow> mut_id r' = mut_id r \<and> request_of r' = request_of r \<and> mut_request_digest r' = mut_request_digest r
     \<and> (finished r \<or> request_of r \<noteq> rq \<longrightarrow> same_record r r')"

definition final_from :: "string \<times> string \<Rightarrow> mutation_row list \<Rightarrow> mutation_row list \<Rightarrow> bool" where
  "final_from rq base ms \<longleftrightarrow> (\<forall>r\<in>set base. \<exists>r'\<in>set ms. follows rq r r')
     \<and> (\<forall>r'\<in>set ms. request_of r' = rq \<or> request_of r' \<in> request_of ` set base)"

definition exec_inv :: "string \<times> string \<Rightarrow> mutation_row list \<Rightarrow> view \<Rightarrow> bool" where
  "exec_inv rq base v \<longleftrightarrow> records_inv (fst v) \<and> calls_recorded v \<and> repeats_allowed (snd v) \<and> final_from rq base (fst (fst v))"

text \<open>The mutation is not finished, and the steps still to run are as they were read.\<close>

definition running :: "string \<times> string \<Rightarrow> mutation_row list \<Rightarrow> string \<Rightarrow> nat \<Rightarrow> step_row list \<Rightarrow> view \<Rightarrow> bool" where
  "running rq base opr mid sts v \<longleftrightarrow> exec_inv rq base v \<and> (\<forall>r\<in>set (fst (fst v)). mut_id r = mid \<longrightarrow> \<not> finished r \<and> request_of r = rq \<and> mut_op_ref r = opr)
     \<and> mid \<in> mut_id ` set (fst (fst v)) \<and> set sts \<subseteq> set (snd (fst v))"

text \<open>An answer in a final state, unless it only says that the audit trail is degraded, is the one recorded.\<close>

definition answered :: "string \<times> string \<Rightarrow> mutation_row list \<Rightarrow> mutation_outcome \<Rightarrow> view \<Rightarrow> bool" where
  "answered rq base x v \<longleftrightarrow> exec_inv rq base v
     \<and> (mo_state x \<in> {''SUCCEEDED'', ''FAILED''} \<and> mo_code x \<noteq> Some ''AUDIT_INTEGRITY_DEGRADED'' \<longrightarrow>
          (\<exists>r\<in>set (fst (fst v)). request_of r = rq \<and> finished r \<and> outcome_of r True = x\<lparr>mo_replayed := True\<rparr>))"

definition recorded :: "string \<times> string \<Rightarrow> string \<Rightarrow> string \<Rightarrow> string option \<Rightarrow> (string \<times> json) list \<Rightarrow> view \<Rightarrow> bool" where
  "recorded rq opr state code result v \<longleftrightarrow> (\<exists>r\<in>set (fst (fst v)). request_of r = rq \<and> mut_op_ref r = opr
     \<and> mut_state r = state \<and> mut_provider_code r = code \<and> mut_result r = Some result)"

lemma answered_unsettled:
  "exec_inv rq base v \<Longrightarrow> mo_state x \<notin> {''SUCCEEDED'', ''FAILED''} \<or> mo_code x = Some ''AUDIT_INTEGRITY_DEGRADED'' \<Longrightarrow> answered rq base x v"
  by (auto simp: answered_def)

lemma answered_recorded:
  "exec_inv rq base v \<Longrightarrow> recorded rq (mo_op_ref x) (mo_state x) (mo_code x) (mo_result x) v \<Longrightarrow> answered rq base x v"
  by (fastforce simp: answered_def recorded_def finished_def outcome_of_def)

lemma answered_row:
  "exec_inv rq base v \<Longrightarrow> r \<in> set (fst (fst v)) \<Longrightarrow> request_of r = rq \<Longrightarrow> answered rq base (outcome_of r b) v"
  by (fastforce simp: answered_def finished_def outcome_of_def)

lemma running_inv: "running rq base opr mid sts v \<Longrightarrow> exec_inv rq base v"
  by (simp add: running_def)

lemma repeats_snoc:
  assumes "repeats_allowed cs" and "call_key c \<in> call_key ` set cs \<Longrightarrow> retryable (so_capability (pc_op c)) (pt_actor (pc_target c))"
  shows "repeats_allowed (cs @ [c])"
proof -
  have "retryable (so_capability (pc_op ((cs @ [c]) ! j))) (pt_actor (pc_target ((cs @ [c]) ! j)))"
    if "i < j" "j < length (cs @ [c])" "call_key ((cs @ [c]) ! i) = call_key ((cs @ [c]) ! j)" for i j
  proof (cases "j < length cs")
    case True
    with that assms(1) show ?thesis by (auto simp: repeats_allowed_def nth_append)
  next
    case False
    with that have "j = length cs" and "i < length cs" by simp_all
    moreover from this that(3) have "call_key c \<in> call_key ` set cs" by (auto simp: nth_append intro!: image_eqI [of _ _ "cs ! i"])
    ultimately show ?thesis using assms(2) by simp
  qed
  then show ?thesis by (simp add: repeats_allowed_def)
qed

lemma same_record_refl [simp]: "same_record r r"
  unfolding same_record_def by (rule exI [of _ "mut_audit_status r"]) simp

lemma same_record_trans: "same_record r r' \<Longrightarrow> same_record r' r'' \<Longrightarrow> same_record r r''"
  unfolding same_record_def by auto

lemma same_record_fields:
  "same_record r r' \<Longrightarrow> mut_state r' = mut_state r \<and> mut_id r' = mut_id r \<and> request_of r' = request_of r
     \<and> mut_request_digest r' = mut_request_digest r \<and> outcome_of r' b = outcome_of r b"
  unfolding same_record_def request_of_def outcome_of_def by auto

section \<open>Writes to the records\<close>

lemma distinct_key: "distinct (map f xs) \<Longrightarrow> x \<in> set xs \<Longrightarrow> y \<in> set xs \<Longrightarrow> f x = f y \<Longrightarrow> x = y"
  by (auto simp: distinct_map inj_on_def)

lemma follows_refl [simp]: "follows rq r r"
  by (simp add: follows_def)

lemma follows_trans: "follows rq r r' \<Longrightarrow> follows rq r' r'' \<Longrightarrow> follows rq r r''"
  unfolding follows_def using same_record_trans [of r r' r''] same_record_fields [of r r'] by (simp add: finished_def)

text \<open>Every update of a mutation row keeps its id, request and digest.\<close>

lemma update_mutations_triple:
  assumes "\<And>r. mut_id (f r) = mut_id r" "\<And>r. request_of (f r) = request_of r"
    "\<And>r. mut_request_digest (f r) = mut_request_digest r"
    and "\<And>r. p r \<Longrightarrow> \<not> idle \<Longrightarrow> same_record r (f r)"
  shows "db_triple (\<lambda>t. exec_inv rq base (t, cs) \<and> (idle \<longrightarrow> (\<forall>r\<in>set (fst t). p r \<longrightarrow> \<not> finished r \<and> request_of r = rq)))
    (update_mutations p f) (\<lambda>_ t. exec_inv rq base (t, cs))"
proof (rule db_tripleI)
  fix s x t
  assume pre: "exec_inv rq base (tables s, cs) \<and> (idle \<longrightarrow> (\<forall>r\<in>set (fst (tables s)). p r \<longrightarrow> \<not> finished r \<and> request_of r = rq))"
    and run: "update_mutations p f s = Inr (x, t)"
  then have t: "t = s\<lparr>mutations := update_where p f (mutations s)\<rparr>"
    by (auto simp: update_mutations_def violates_def split: if_splits)
  define upd where "upd r = (if p r then f r else r)" for r
  have ms: "update_where p f (mutations s) = map upd (mutations s)" by (simp add: update_where_def upd_def [abs_def])
  have fields: "mut_id (upd r) = mut_id r" "request_of (upd r) = request_of r" for r using assms(1,2) by (simp_all add: upd_def)
  have step: "follows rq r (upd r)" if "r \<in> set (mutations s)" for r
    using assms(1-3) assms(4) [of r] pre that by (cases idle) (auto simp: follows_def upd_def tables_def)
  have "\<exists>r''\<in>set (map upd (mutations s)). follows rq r r''" if r: "r \<in> set base" for r
  proof -
    from r pre obtain r' where r': "r' \<in> set (mutations s)" "follows rq r r'"
      by (auto simp: exec_inv_def final_from_def tables_def)
    moreover from r' have "upd r' \<in> set (map upd (mutations s))" unfolding set_map by (intro imageI)
    ultimately show ?thesis using follows_trans [OF _ step] by blast
  qed
  moreover have "\<forall>r\<in>set (map upd (mutations s)). request_of r = rq \<or> request_of r \<in> request_of ` set base"
    using pre by (auto simp: exec_inv_def final_from_def tables_def fields)
  ultimately have "final_from rq base (map upd (mutations s))" unfolding final_from_def by blast
  moreover have maps: "map mut_id (map upd (mutations s)) = map mut_id (mutations s)"
    "map request_of (map upd (mutations s)) = map request_of (mutations s)" by (simp_all add: fields)
  moreover from maps(1) have "mut_id ` set (map upd (mutations s)) = mut_id ` set (mutations s)"
    by (metis list.set_map)
  ultimately show "exec_inv rq base (tables t, cs)"
    using pre unfolding exec_inv_def records_inv_def calls_recorded_def tables_def t ms by (simp del: map_map)
qed

lemma need_tx_records: "tx_within same_records need_tx"
  by (rule tx_withinI) (auto simp: need_tx_def same_records_def split: if_splits)

lemma mark_degraded_triple:
  "db_triple (\<lambda>t. exec_inv rq base (t, cs)) (mark_degraded mid) (\<lambda>_ t. exec_inv rq base (t, cs))"
  unfolding mark_degraded_def
  by (rule db_triple_then [OF db_triple_quiet [OF need_tx_records]])
    (rule db_triple_conseq [OF update_mutations_triple [where idle = False]], auto simp: same_record_def request_of_def)

lemma finish_triple:
  "db_triple (\<lambda>t. running rq base opr mid sts (t, cs)) (finish cr mid state code result stamp)
    (\<lambda>_ t. exec_inv rq base (t, cs) \<and> recorded rq opr state code result (t, cs))"
proof (rule db_tripleI)
  fix s x t
  assume pre: "running rq base opr mid sts (tables s, cs)" and run: "finish cr mid state code result stamp s = Inr (x, t)"
  define upd where "upd r = r\<lparr>mut_state := state, mut_provider_code := code, mut_result := Some result, mut_result_digest := Some x,
    mut_finished_at := Some stamp\<rparr>" for r :: mutation_row
  have upd: "update_mutations (\<lambda>r. mut_id r = mid) upd s = Inr ((), t)"
    using run by (auto simp: finish_def Let_def need_tx_def tx_inr upd_def [abs_def] split: if_splits)
  have "exec_inv rq base (tables t, cs)"
    by (rule db_tripleD [OF update_mutations_triple [where idle = True and base = base and cs = cs and rq = rq] _ upd])
      (use pre in \<open>auto simp: upd_def request_of_def running_def\<close>)
  moreover obtain r where r: "r \<in> set (mutations s)" "mut_id r = mid" "request_of r = rq" "mut_op_ref r = opr"
    using pre by (auto simp: running_def tables_def)
  moreover from upd have "mutations t = update_where (\<lambda>r. mut_id r = mid) upd (mutations s)"
    by (auto simp: update_mutations_def violates_def split: if_splits)
  ultimately show "exec_inv rq base (tables t, cs) \<and> recorded rq opr state code result (tables t, cs)"
    by (fastforce simp: recorded_def tables_def update_where_def upd_def request_of_def intro!: bexI [of _ "upd r"] image_eqI [of _ _ r])
qed

lemma mark_retried_triple:
  "db_triple (\<lambda>t. running rq base opr mid sts (t, cs)) (mark_retried mid) (\<lambda>_ t. running rq base opr mid sts (t, cs))"
proof (rule db_tripleI)
  fix s x t
  assume pre: "running rq base opr mid sts (tables s, cs)" and run: "mark_retried mid s = Inr (x, t)"
  then have t: "t = s\<lparr>mutations := update_where (\<lambda>r. mut_id r = mid) (\<lambda>r. r\<lparr>mut_retried := True\<rparr>) (mutations s)\<rparr>"
    and upd: "update_mutations (\<lambda>r. mut_id r = mid) (\<lambda>r. r\<lparr>mut_retried := True\<rparr>) s = Inr (x, t)"
    by (auto simp: mark_retried_def need_tx_def update_mutations_def violates_def tx_inr split: if_splits)
  have "exec_inv rq base (tables t, cs)"
    by (rule db_tripleD [OF update_mutations_triple [where idle = True and base = base and cs = cs and rq = rq] _ upd])
      (use pre in \<open>auto simp: request_of_def running_def\<close>)
  moreover have "\<not> finished r' \<and> request_of r' = rq \<and> mut_op_ref r' = opr" if "r' \<in> set (mutations t)" "mut_id r' = mid" for r'
  proof -
    from that(1) obtain r where "r \<in> set (mutations s)" "r' = (if mut_id r = mid then r\<lparr>mut_retried := True\<rparr> else r)"
      unfolding t by (auto simp: update_where_def)
    with that(2) pre show ?thesis by (simp add: running_def tables_def finished_def request_of_def split: if_splits)
  qed
  ultimately show "running rq base opr mid sts (tables t, cs)"
    using pre by (simp add: running_def tables_def) (simp add: t)
qed

lemma step_forward_started: "step_forward old new \<Longrightarrow> old \<noteq> ''PENDING'' \<Longrightarrow> new \<noteq> ''PENDING''"
  by (auto simp: step_forward_def)

lemma update_steps_triple:
  assumes "\<And>r. step_key (f r) = step_key r" and "\<And>r. r \<in> set sts \<Longrightarrow> step_key r \<noteq> (mid, n)"
  shows "db_triple (\<lambda>t. running rq base opr m sts (t, cs) \<and> (\<exists>r\<in>set (snd t). step_key r = (mid, n) \<and> P (f r)))
    (update_steps (is_step mid n) f)
    (\<lambda>_ t. running rq base opr m sts (t, cs) \<and> (\<exists>r\<in>set (snd t). step_key r = (mid, n) \<and> P r))"
proof (rule db_tripleI)
  fix s x t
  assume pre: "running rq base opr m sts (tables s, cs) \<and> (\<exists>r\<in>set (snd (tables s)). step_key r = (mid, n) \<and> P (f r))"
    and run: "update_steps (is_step mid n) f s = Inr (x, t)"
  define upd where "upd r = (if is_step mid n r then f r else r)" for r
  from run have t: "t = s\<lparr>mutation_steps := map upd (mutation_steps s)\<rparr>"
    and ok: "\<And>r. r \<in> set (mutation_steps s) \<Longrightarrow> is_step mid n r \<Longrightarrow>
      stp_state (f r) \<in> set (''PENDING'' # MUTATION_STATES) \<and> step_forward (stp_state r) (stp_state (f r))"
    by (auto simp: update_steps_def violates_def update_where_def list_all_iff upd_def [abs_def] split: if_splits)
  have tabs: "tables t = (mutations s, map upd (mutation_steps s))" "tables s = (mutations s, mutation_steps s)"
    by (simp_all add: t tables_def)
  have key: "step_key (upd r) = step_key r" for r using assms(1) by (simp add: upd_def)
  have keys: "map step_key (map upd (mutation_steps s)) = map step_key (mutation_steps s)"
    unfolding map_map comp_def key by simp
  have mids: "stp_mutation_id (upd r) = stp_mutation_id r" for r using key [of r] by (simp add: step_key_def)
  have inv: "records_inv (mutations s, mutation_steps s)" and rec: "calls_recorded ((mutations s, mutation_steps s), cs)"
    and rep: "repeats_allowed cs" and fin: "final_from rq base (mutations s)"
    using pre by (simp_all add: running_def exec_inv_def tables_def)
  have "\<forall>r\<in>set (mutation_steps s). stp_mutation_id (upd r) \<in> mut_id ` set (mutations s)
      \<and> stp_state (upd r) \<in> set (''PENDING'' # MUTATION_STATES)"
  proof
    fix r assume r: "r \<in> set (mutation_steps s)"
    with inv have "stp_mutation_id r \<in> mut_id ` set (mutations s)" "stp_state r \<in> set (''PENDING'' # MUTATION_STATES)"
      by (simp_all add: records_inv_def)
    with ok [OF r] show "stp_mutation_id (upd r) \<in> mut_id ` set (mutations s)
        \<and> stp_state (upd r) \<in> set (''PENDING'' # MUTATION_STATES)" unfolding mids by (simp add: upd_def)
  qed
  then have "\<forall>r\<in>set (map upd (mutation_steps s)). stp_mutation_id r \<in> mut_id ` set (mutations s)
      \<and> stp_state r \<in> set (''PENDING'' # MUTATION_STATES)" by (simp only: set_map ball_simps)
  then have "records_inv (mutations s, map upd (mutation_steps s))"
    using inv unfolding records_inv_def fst_conv snd_conv keys by blast
  moreover have "calls_recorded ((mutations s, map upd (mutation_steps s)), cs)"
    unfolding calls_recorded_def fst_conv snd_conv
  proof
    fix c assume "c \<in> set cs"
    with rec obtain r where r: "r \<in> set (mutation_steps s)" "step_key r = call_key c" "stp_state r \<noteq> ''PENDING''"
      by (auto simp: calls_recorded_def)
    then have "stp_state (upd r) \<noteq> ''PENDING''" using ok step_forward_started by (auto simp: upd_def)
    moreover have "upd r \<in> set (map upd (mutation_steps s))" unfolding set_map by (rule imageI [OF r(1)])
    ultimately show "\<exists>r\<in>set (map upd (mutation_steps s)). step_key r = call_key c \<and> stp_state r \<noteq> ''PENDING''"
      using r(2) key [of r] by metis
  qed
  moreover have "set sts \<subseteq> set (map upd (mutation_steps s))"
  proof
    fix r assume r: "r \<in> set sts"
    then have "upd r = r" using assms(2) by (auto simp: upd_def is_step_def step_key_def)
    moreover have "r \<in> set (mutation_steps s)" using pre r by (auto simp: running_def tables_def)
    ultimately show "r \<in> set (map upd (mutation_steps s))" by (metis (no_types, lifting) image_eqI list.set_map)
  qed
  moreover obtain r where r: "r \<in> set (mutation_steps s)" "step_key r = (mid, n)" "P (f r)"
    using pre by (auto simp: tables_def)
  moreover from r have "f r \<in> set (map upd (mutation_steps s))" "step_key (f r) = (mid, n)"
    using image_eqI [of "f r" upd r "set (mutation_steps s)"] assms(1) by (simp_all add: upd_def is_step_def step_key_def)
  ultimately show "running rq base opr m sts (tables t, cs) \<and> (\<exists>r\<in>set (snd (tables t)). step_key r = (mid, n) \<and> P r)"
    using pre rep fin unfolding running_def exec_inv_def tabs fst_conv snd_conv by blast
qed

section \<open>Steps that leave the records alone\<close>

definition same_view :: "service_world \<Rightarrow> service_world \<Rightarrow> bool" where
  "same_view w w' \<longleftrightarrow> view w' = view w"

interpretation same_view: io_preorder same_view
  by unfold_locales (simp_all add: same_view_def)

lemma quiet_within: "quiet m \<longleftrightarrow> io_within same_view m"
  by (simp add: quiet_def io_within_def same_view_def)

lemmas quiet_intros = same_view.run_intros [folded quiet_within]

lemma quiet_crash: "quiet (crash ex point)"
  unfolding crash_def by (intro quiet_intros)

lemma quiet_reads: "quiet (sio_db (tx_reads q))"
  by (rule quiet_db) (rule same_records.within_reads)

lemma object_ref_records: "tx_within same_records (object_ref kind tr actor d identity now)"
proof -
  have ins: "tx_within same_records (insert_object r)" for r
    by (rule tx_withinI) (auto simp: insert_object_def violates_def same_records_def split: if_splits)
  have upd: "tx_within same_records (tx_modify (\<lambda>s. s\<lparr>provider_objects := f s\<rparr>))" for f
    by (rule tx_withinI) (auto simp: same_records_def)
  have body: "tx_within same_records (object_ref_body kind tr actor d identity stamp)" for stamp
    unfolding object_ref_body_def Let_def by (intro same_records.within_intros same_records.mint_within ins upd)
  have "tx_within same_records (write_tx (object_ref_body kind tr actor d identity stamp))" for stamp
    using tx_withinD [OF body [of stamp]]
    by (fastforce intro!: tx_withinI simp: write_tx_def same_records_def split: if_splits sum.splits)
  then show ?thesis unfolding object_ref_def by (intro same_records.within_intros)
qed

text \<open>The directory hook of a creation leaves the mutation tables alone.\<close>

definition hook_keeps :: "(string \<Rightarrow> (comms_db, 'a) run) option \<Rightarrow> bool" where
  "hook_keeps hook \<longleftrightarrow> (case hook of None \<Rightarrow> True
     | Some h \<Rightarrow> \<forall>ref s r t. h ref s = (r, t) \<longrightarrow> tables t = tables s)"

lemma quiet_hook: "hook_keeps (Some h) \<Longrightarrow> quiet (hook_io h ref)"
  by (auto simp: quiet_def hook_io_def hook_keeps_def view_def split: prod.splits)

lemma quiet_settle:
  assumes "hook_keeps (sg_on_created sg)"
  shows "quiet (settle_result ex sg is_last r created)"
proof -
  have name: "quiet (name_object ex sg kind r c)" for kind c
    unfolding name_object_def Let_def
    by (cases "pr_provider_ref r"; (simp split: list.split option.split)?)
      (intro allI impI conjI quiet_intros quiet_reads quiet_now quiet_db [OF object_ref_records])+
  have hook: "quiet (run_hook sg r c)" for c
    using assms unfolding run_hook_def
    by (cases "sg_on_created sg"; cases "pr_provider_ref r"; (simp split: list.split)?)
      (intro allI impI conjI quiet_intros quiet_hook; simp)+
  show ?thesis
    unfolding settle_result_def Let_def by (intro quiet_intros name hook)
qed

section \<open>One step of a saga\<close>

definition present :: "nat \<Rightarrow> nat \<Rightarrow> view \<Rightarrow> bool" where
  "present mid n v \<longleftrightarrow> (\<exists>r\<in>set (snd (fst v)). step_key r = (mid, n))"

text \<open>A call of step \<open>n\<close> would be a first one, or a repetition its policy allows.\<close>

definition callable :: "nat \<Rightarrow> nat \<Rightarrow> string \<Rightarrow> string \<Rightarrow> view \<Rightarrow> bool" where
  "callable mid n capability actor v \<longleftrightarrow> ((mid, n) \<in> call_key ` set (snd v) \<longrightarrow> retryable capability actor)"

definition started :: "nat \<Rightarrow> nat \<Rightarrow> view \<Rightarrow> bool" where
  "started mid n v \<longleftrightarrow> (\<exists>r\<in>set (snd (fst v)). step_key r = (mid, n) \<and> stp_state r \<noteq> ''PENDING'')"

lemma start_step_triple:
  assumes "\<And>r. r \<in> set sts \<Longrightarrow> step_key r \<noteq> (mid, n)" and "step_key st = (mid, n)"
  shows "db_triple (\<lambda>t. running rq base opr mid (st # sts) (t, cs)) (start_step mid n key)
    (\<lambda>_ t. running rq base opr mid sts (t, cs) \<and> started mid n (t, cs))"
  unfolding start_step_def started_def fst_conv snd_conv
  by (rule db_triple_then [OF db_triple_quiet [OF need_tx_records]],
      rule db_triple_conseq [OF update_steps_triple [where P = "\<lambda>r. stp_state r \<noteq> ''PENDING''" and sts = sts]])
    (use assms in \<open>auto simp: running_def step_key_def\<close>)

lemma finish_step_triple:
  assumes "\<And>r. r \<in> set sts \<Longrightarrow> step_key r \<noteq> (mid, n)"
  shows "db_triple (\<lambda>t. running rq base opr mid sts (t, cs) \<and> present mid n (t, cs)) (finish_step mid n state code)
    (\<lambda>_ t. running rq base opr mid sts (t, cs) \<and> present mid n (t, cs))"
  unfolding finish_step_def present_def fst_conv snd_conv
  by (rule db_triple_then [OF db_triple_quiet [OF need_tx_records]],
      rule db_triple_conseq [OF update_steps_triple [where P = "\<lambda>_. True" and sts = sts]])
    (use assms in \<open>auto simp: step_key_def\<close>)

lemma invoke_triple:
  "triple (exec_inv rq base)
     (\<lambda>v. (running rq base (sg_op_ref sg) (sg_mutation sg) sts v \<and> started (sg_mutation sg) n v)
        \<and> callable (sg_mutation sg) n (so_capability op) (pt_actor (sg_target sg)) v)
     (invoke_io sg n op key)
     (\<lambda>_ v. running rq base (sg_op_ref sg) (sg_mutation sg) sts v \<and> present (sg_mutation sg) n v)"
proof (rule tripleI)
  fix w r w'
  assume pre: "(running rq base (sg_op_ref sg) (sg_mutation sg) sts (view w) \<and> started (sg_mutation sg) n (view w))
    \<and> callable (sg_mutation sg) n (so_capability op) (pt_actor (sg_target sg)) (view w)"
    and run: "invoke_io sg n op key w = (r, w')"
  define c where "c = \<lparr>pc_mutation = sg_mutation sg, pc_step = n, pc_op = op, pc_target = sg_target sg, pc_key = key\<rparr>"
  have w': "view w' = (fst (view w), snd (view w) @ [c])"
    using run by (auto simp: invoke_io_def Let_def c_def view_def)
  have key: "call_key c = (sg_mutation sg, n)" by (simp add: c_def call_key_def)
  have "repeats_allowed (snd (view w) @ [c])"
    by (rule repeats_snoc) (use pre key in \<open>auto simp: running_def exec_inv_def callable_def c_def\<close>)
  then have "exec_inv rq base (view w')"
    using pre key unfolding w' by (auto simp: running_def exec_inv_def calls_recorded_def started_def)
  with pre show "exec_inv rq base (view w') \<and> (\<forall>x. r = Inr x \<longrightarrow> running rq base (sg_op_ref sg) (sg_mutation sg) sts (view w')
      \<and> present (sg_mutation sg) n (view w'))"
    unfolding w' by (auto simp: running_def present_def started_def)
qed

lemma audit_append_records: "tx_within same_records (audit_append tx kind sref sdig payload)"
  by (rule same_records.audit_append_within)

lemma record_step_body_triple:
  assumes "\<And>r. r \<in> set sts \<Longrightarrow> step_key r \<noteq> (mid, n)"
  shows "db_triple (\<lambda>t. running rq base opr mid sts (t, cs) \<and> present mid n (t, cs))
    (record_step_body mid op_ref n capability current state code tx)
    (\<lambda>_ t. running rq base opr mid sts (t, cs) \<and> present mid n (t, cs))"
proof -
  have "db_triple (\<lambda>t. running rq base opr mid sts (t, cs) \<and> present mid n (t, cs))
      (if current \<noteq> state then finish_step mid n state code else tx_return ())
      (\<lambda>_ t. running rq base opr mid sts (t, cs) \<and> present mid n (t, cs))"
    using finish_step_triple [OF assms, where cs = cs] by (auto intro: db_triple_return)
  then show ?thesis
    unfolding record_step_body_def
    by (rule db_triple_then) (rule db_triple_quiet, intro same_records.within_intros audit_append_records)
qed

lemma finish_body_triple:
  "db_triple (\<lambda>t. running rq base opr mid sts (t, cs)) (finish_body mid op_ref state code result tx)
     (\<lambda>_ t. exec_inv rq base (t, cs) \<and> recorded rq opr state code result (t, cs))"
  unfolding finish_body_def tx_stamp_def
  by (rule db_triple_bind [OF db_triple_quiet [OF same_records.within_lift]], rule db_triple_bind [OF finish_triple])
    (rule db_triple_quiet, intro same_records.within_intros audit_append_records)

section \<open>Runs\<close>

lemma triple_audited:
  assumes "\<And>v. P v \<Longrightarrow> I v" and "\<And>x v. Q x v \<Longrightarrow> I v"
    and "\<And>tx cs. db_triple (\<lambda>t. P (t, cs)) (body tx) (\<lambda>x t. Q x (t, cs))"
  shows "triple I P (audited wr body) Q"
  unfolding audited_def
proof (rule triple_bind)
  show "triple I P (transaction wr body) (\<lambda>(x, ok). Q x)"
    by (rule triple_transaction) (auto intro: assms db_triple_conseq [OF assms(3)])
qed (auto intro!: triple_if triple_return triple_raise intro: assms)

lemma degraded_triple: "triple (exec_inv rq base) (exec_inv rq base) (degraded ex mid op_ref state replayed) (answered rq base)"
  unfolding degraded_def
  by (rule triple_then [OF triple_audited [where Q = "\<lambda>_. exec_inv rq base"] triple_return])
    (auto intro: mark_degraded_triple answered_unsettled)

lemma finish_io_triple:
  "triple (exec_inv rq base) (running rq base (sg_op_ref sg) (sg_mutation sg) sts) (finish_io ex sg state code extra) (answered rq base)"
  unfolding finish_io_def Let_def
proof (rule triple_bind)
  show "triple (exec_inv rq base) (running rq base (sg_op_ref sg) (sg_mutation sg) sts) (transaction (ex_writer ex)
      (finish_body (sg_mutation sg) (sg_op_ref sg) state code result))
      (\<lambda>(x, ok) v. exec_inv rq base v \<and> recorded rq (sg_op_ref sg) state code result v)" for result
    by (rule triple_transaction) (auto intro: running_inv db_triple_conseq [OF finish_body_triple])
qed (auto intro!: triple_if triple_return triple_pre [OF degraded_triple] answered_recorded)

lemma call_step_triple:
  assumes hook: "hook_keeps (sg_on_created sg)"
    and sts: "\<And>r. r \<in> set sts \<Longrightarrow> step_key r \<noteq> (sg_mutation sg, stp_no st)"
    and rest: "\<And>c. triple (exec_inv rq base) (running rq base (sg_op_ref sg) (sg_mutation sg) sts) (k c) (answered rq base)"
  shows "triple (exec_inv rq base)
    (\<lambda>v. (running rq base (sg_op_ref sg) (sg_mutation sg) sts v \<and> started (sg_mutation sg) (stp_no st) v)
       \<and> callable (sg_mutation sg) (stp_no st) (stp_capability st) (pt_actor (sg_target sg)) v)
    (call_step ex sg key nsteps index st created k) (answered rq base)"
proof -
  let ?mid = "sg_mutation sg"
  have op: "so_capability (step_operation op (stp_capability st) extra) = stp_capability st" for op extra
    by (simp add: step_operation_def)
  have rec_step: "triple (exec_inv rq base) (\<lambda>v. running rq base (sg_op_ref sg) ?mid sts v \<and> present ?mid (stp_no st) v)
      (transaction (ex_writer ex) (record_step_body ?mid (sg_op_ref sg) (stp_no st) (stp_capability st) current state code))
      (\<lambda>(x, ok) v. running rq base (sg_op_ref sg) ?mid sts v)" for current state code
    by (rule triple_conseq [OF triple_transaction [where P = "\<lambda>v. running rq base (sg_op_ref sg) ?mid sts v \<and> present ?mid (stp_no st) v"
          and Q = "\<lambda>_ v. running rq base (sg_op_ref sg) ?mid sts v \<and> present ?mid (stp_no st) v"]])
      (auto intro: running_inv db_triple_conseq [OF record_step_body_triple [OF sts]])
  have after: "triple (exec_inv rq base) (\<lambda>v. running rq base (sg_op_ref sg) ?mid sts v \<and> present ?mid (stp_no st) v)
      (io_then (crash ex ''after_call'')
        (io_bind (settle_result ex sg (Suc index = nsteps) r created) (\<lambda>(state, created').
         io_bind (transaction (ex_writer ex) (record_step_body ?mid (sg_op_ref sg) (stp_no st)
             (stp_capability st) ''IN_FLIGHT'' state (pr_code r))) (\<lambda>(_, ok).
         if \<not> ok then degraded ex ?mid (sg_op_ref sg) state (sg_replayed sg)
         else io_then (crash ex ''after_record'')
              (if state \<noteq> ''SUCCEEDED'' then finish_io ex sg state (pr_code r) [] else k created')))))
      (answered rq base)" for r
    by (rule triple_then [OF triple_quiet [OF quiet_crash]], blast intro: running_inv,
        rule triple_bind [OF triple_quiet [OF quiet_settle [OF hook]]], blast intro: running_inv,
        rule triple_case_prod, rule triple_bind [OF rec_step], rule triple_case_prod)
      (auto intro!: triple_if triple_then [OF triple_quiet [OF quiet_crash]] rest finish_io_triple
        triple_pre [OF degraded_triple] intro: running_inv)
  have res: "quiet (sio_res x)" for x :: "'x res" by (simp add: quiet_def sio_res_def)
  have guard: "quiet (sio_db before_call)"
    by (rule quiet_db) (auto intro!: tx_withinI simp: before_call_def io_guard_Inr same_records_def)
  show ?thesis
    unfolding call_step_def
    by (rule triple_bind [OF triple_quiet [OF res]], blast intro: running_inv,
        rule triple_then [OF triple_quiet [OF guard]], blast intro: running_inv,
        rule triple_bind [OF triple_pre [OF invoke_triple [where sts = sts]] after], simp add: op)
qed

text \<open>A step that was called is not pending any more, so its next call is a repetition.\<close>

lemma called_step_started:
  assumes "running rq base opr mid (st # sts) v" and "step_key st \<in> call_key ` set (snd v)"
  shows "stp_state st \<noteq> ''PENDING''"
proof -
  from assms obtain r where r: "r \<in> set (snd (fst v))" "step_key r = step_key st" "stp_state r \<noteq> ''PENDING''"
    by (fastforce simp: running_def exec_inv_def calls_recorded_def)
  moreover have "st \<in> set (snd (fst v))" "distinct (map step_key (snd (fst v)))"
    using assms(1) by (auto simp: running_def exec_inv_def records_inv_def)
  ultimately show ?thesis using distinct_key [of step_key "snd (fst v)" r st] by simp
qed

lemma step_states:
  assumes "running rq base opr mid (st # sts) v"
  shows "stp_state st \<in> {''PENDING'', ''IN_FLIGHT'', ''SUCCEEDED'', ''FAILED'', ''OUTCOME_UNKNOWN''}"
proof -
  have "st \<in> set (snd (fst v))" "records_inv (fst v)" using assms by (simp_all add: running_def exec_inv_def)
  then have "stp_state st \<in> set (''PENDING'' # MUTATION_STATES)" by (simp add: records_inv_def)
  then show ?thesis unfolding MUTATION_STATES_def by simp
qed

lemma triple_world_if: "triple I P m Q \<Longrightarrow> triple I P k Q \<Longrightarrow> triple I P (\<lambda>w. if b w then m w else k w) Q"
  by (auto simp: triple_def)

lemma start_io_triple:
  assumes sts: "\<And>r. r \<in> set sts \<Longrightarrow> step_key r \<noteq> step_key st" and st: "stp_mutation_id st = sg_mutation sg"
    and k: "triple (exec_inv rq base) (\<lambda>v. (running rq base (sg_op_ref sg) (sg_mutation sg) sts v \<and> started (sg_mutation sg) (stp_no st) v) \<and> C (snd v))
      k (answered rq base)"
  shows "triple (exec_inv rq base) (\<lambda>v. running rq base (sg_op_ref sg) (sg_mutation sg) (st # sts) v \<and> C (snd v))
    (start_io ex sg key st k) (answered rq base)"
  unfolding start_io_def
proof (rule triple_bind)
  let ?mid = "sg_mutation sg"
  have key: "step_key st = (?mid, stp_no st)" by (simp add: step_key_def st)
  have "db_triple (\<lambda>t. running rq base (sg_op_ref sg) ?mid (st # sts) (t, cs) \<and> C cs) (start_step ?mid (stp_no st) rk)
      (\<lambda>x t. ((running rq base (sg_op_ref sg) ?mid sts (t, cs) \<and> started ?mid (stp_no st) (t, cs)) \<and> C cs) \<and> exec_inv rq base (t, cs))" for rk cs
  proof (rule db_tripleI)
    fix s x t
    assume pre: "running rq base (sg_op_ref sg) ?mid (st # sts) (tables s, cs) \<and> C cs" and run: "start_step ?mid (stp_no st) rk s = Inr (x, t)"
    have "running rq base (sg_op_ref sg) ?mid sts (tables t, cs) \<and> started ?mid (stp_no st) (tables t, cs)"
      by (rule db_tripleD [OF start_step_triple [where st = st] _ run]) (use sts key pre in auto)
    with pre running_inv show "((running rq base (sg_op_ref sg) ?mid sts (tables t, cs) \<and> started ?mid (stp_no st) (tables t, cs)) \<and> C cs)
        \<and> exec_inv rq base (tables t, cs)" by blast
  qed
  then show "triple (exec_inv rq base) (\<lambda>v. running rq base (sg_op_ref sg) ?mid (st # sts) v \<and> C (snd v))
      (transaction (ex_writer ex) (\<lambda>_. start_step ?mid (stp_no st) rk))
      (\<lambda>(x, ok) v. (running rq base (sg_op_ref sg) ?mid sts v \<and> started ?mid (stp_no st) v) \<and> C (snd v))" for rk
    by (intro triple_conseq [OF triple_transaction [where P = "\<lambda>v. running rq base (sg_op_ref sg) ?mid (st # sts) v \<and> C (snd v)"
        and Q = "\<lambda>_ v. (running rq base (sg_op_ref sg) ?mid sts v \<and> started ?mid (stp_no st) v) \<and> C (snd v)"]]) (auto intro: running_inv)
qed (auto intro!: triple_if triple_pre [OF k] triple_pre [OF degraded_triple] intro: running_inv)

lemma run_step_triple:
  assumes hook: "hook_keeps (sg_on_created sg)" and st: "stp_mutation_id st = sg_mutation sg"
    and sts: "\<And>r. r \<in> set sts \<Longrightarrow> step_key r \<noteq> step_key st"
    and rest: "\<And>c. triple (exec_inv rq base) (running rq base (sg_op_ref sg) (sg_mutation sg) sts) (k c) (answered rq base)"
  shows "triple (exec_inv rq base) (running rq base (sg_op_ref sg) (sg_mutation sg) (st # sts))
    (run_step ex sg key nsteps index st created k) (answered rq base)"
proof -
  let ?mid = "sg_mutation sg"
  have skey: "step_key st = (?mid, stp_no st)" by (simp add: step_key_def st)
  have tail: "running rq base (sg_op_ref sg) ?mid (st # sts) v \<Longrightarrow> running rq base (sg_op_ref sg) ?mid sts v \<and> present ?mid (stp_no st) v" for v
    using skey by (auto simp: running_def present_def)
  have ambiguous: "triple (exec_inv rq base) (running rq base (sg_op_ref sg) ?mid (st # sts))
      (io_then (audited (ex_writer ex) (record_step_body ?mid (sg_op_ref sg) (stp_no st) (stp_capability st) (stp_state st) state None))
         (finish_io ex sg state None [])) (answered rq base)" for state
    by (rule triple_then [OF triple_pre [OF triple_audited [where Q = "\<lambda>_ v. running rq base (sg_op_ref sg) ?mid sts v \<and> present ?mid (stp_no st) v"]]
          triple_pre [OF finish_io_triple]], rule running_inv, erule conjunct1, rule running_inv, erule conjunct1,
        rule record_step_body_triple) (use sts skey tail in auto)
  have call: "triple (exec_inv rq base) (\<lambda>v. running rq base (sg_op_ref sg) ?mid (st # sts) v \<and> callable ?mid (stp_no st) (stp_capability st) (pt_actor (sg_target sg)) v)
      (start_io ex sg key st (call_step ex sg key nsteps index st created k)) (answered rq base)"
  proof -
    have "triple (exec_inv rq base) (\<lambda>v. (running rq base (sg_op_ref sg) ?mid sts v \<and> started ?mid (stp_no st) v)
        \<and> ((?mid, stp_no st) \<in> call_key ` set (snd v) \<longrightarrow> retryable (stp_capability st) (pt_actor (sg_target sg))))
        (call_step ex sg key nsteps index st created k) (answered rq base)"
      by (rule triple_pre [OF call_step_triple [OF hook _ rest]]) (use sts skey in \<open>simp_all add: callable_def\<close>)
    from start_io_triple [OF sts st, where C = "\<lambda>cs. (?mid, stp_no st) \<in> call_key ` set cs
        \<longrightarrow> retryable (stp_capability st) (pt_actor (sg_target sg))", OF _ this]
    show ?thesis by (simp add: callable_def)
  qed
  have calls: "callable ?mid (stp_no st) (stp_capability st) (pt_actor (sg_target sg)) v"
    if "running rq base (sg_op_ref sg) ?mid (st # sts) v" "SEMANTICS (stp_capability st) (pt_actor (sg_target sg)) = Some sem"
      "stp_state st \<noteq> ''SUCCEEDED''" "stp_state st \<noteq> ''FAILED''"
      "\<not> (stp_state st \<in> {''IN_FLIGHT'', ''OUTCOME_UNKNOWN''} \<and> os_policy sem \<noteq> ''retry_same_key'')" for v sem
    using called_step_started [OF that(1)] step_states [OF that(1)] that(2-) skey
    by (auto simp: callable_def retryable_def)
  have crash: "quiet (if 0 < index then crash ex ''between_steps'' else io_return ())"
    by (intro quiet_intros quiet_crash)
  show ?thesis
    unfolding run_step_def
    apply (intro triple_if triple_case_option)
    subgoal by (rule triple_pre [OF rest]) (simp add: tail)
    subgoal by (rule triple_raise) (rule running_inv)
    subgoal by (rule triple_raise) (rule running_inv)
    subgoal by (rule finish_io_triple)
    subgoal by (rule ambiguous)
    subgoal for sem
      by (rule triple_then [OF triple_quiet [OF crash]], rule running_inv, assumption,
          rule triple_world_if, rule triple_return, simp add: running_inv answered_unsettled,
          rule triple_then [OF triple_quiet [OF quiet_crash]], rule running_inv, assumption,
          rule triple_pre [OF call], use calls in blast)
    done
qed

section \<open>A whole request\<close>

lemma triple_pure: "(\<phi> \<Longrightarrow> triple I P m Q) \<Longrightarrow> triple I (\<lambda>v. P v \<and> \<phi>) m Q"
  by (auto simp: triple_def)

lemma run_steps_triple:
  assumes "hook_keeps (sg_on_created sg)" and "\<And>st. st \<in> set sts \<Longrightarrow> stp_mutation_id st = sg_mutation sg"
    and "distinct (map step_key sts)"
  shows "triple (exec_inv rq base) (running rq base (sg_op_ref sg) (sg_mutation sg) sts) (run_steps ex sg key nsteps index sts created) (answered rq base)"
  using assms(2,3)
proof (induction sts arbitrary: index created)
  case Nil
  show ?case unfolding run_steps.simps by (rule finish_io_triple)
next
  case (Cons st sts)
  have other: "step_key r \<noteq> step_key st" if "r \<in> set sts" for r using Cons.prems(2) that by (force simp: image_iff)
  show ?case
    unfolding run_steps.simps
    by (rule run_step_triple [OF assms(1)]) (use Cons other in auto)
qed

lemma run_saga_triple:
  assumes "hook_keeps (sg_on_created sg)"
  shows "triple (exec_inv rq base) (running rq base (sg_op_ref sg) (sg_mutation sg) []) (run_saga ex sg) (answered rq base)"
proof -
  let ?mid = "sg_mutation sg"
  have res: "quiet (sio_res x)" for x :: "'x res" by (simp add: quiet_def sio_res_def)
  have read: "triple (exec_inv rq base) (running rq base (sg_op_ref sg) ?mid []) (sio_db (tx_reads (steps ?mid)))
      (\<lambda>sts v. running rq base (sg_op_ref sg) ?mid sts v \<and> ((\<forall>st\<in>set sts. stp_mutation_id st = ?mid) \<and> distinct (map step_key sts)))"
  proof (rule tripleI)
    fix w r w'
    assume pre: "running rq base (sg_op_ref sg) ?mid [] (view w)" and run: "sio_db (tx_reads (steps ?mid)) w = (r, w')"
    then have r: "r = Inr (steps ?mid (sw_db w))" and w': "view w' = view w" by (auto simp: sio_db_def)
    have "distinct (map step_key (mutation_steps (sw_db w)))"
      using pre by (simp add: running_def exec_inv_def records_inv_def view_def tables_def)
    then have "distinct (map step_key (steps ?mid (sw_db w)))"
      by (auto simp: steps_def distinct_map distinct_filter inj_on_def)
    moreover have "running rq base (sg_op_ref sg) ?mid (steps ?mid (sw_db w)) (view w)"
      using pre by (auto simp: running_def steps_def view_def tables_def)
    ultimately show "exec_inv rq base (view w') \<and> (\<forall>sts. r = Inr sts \<longrightarrow> running rq base (sg_op_ref sg) ?mid sts (view w')
        \<and> ((\<forall>st\<in>set sts. stp_mutation_id st = ?mid) \<and> distinct (map step_key sts)))"
      using pre by (auto simp: w' r steps_def intro: running_inv)
  qed
  show ?thesis
    unfolding run_saga_def
    by (rule triple_bind [OF triple_quiet [OF res]], rule running_inv, assumption, rule triple_bind [OF read],
        rule triple_pure, rule run_steps_triple [OF assms]) auto
qed

lemma exec_inv_insert:
  assumes inv: "exec_inv rq base (tables s, cs)" and row: "mut_id m \<notin> mut_id ` set (mutations s)"
    "request_of m \<notin> request_of ` set (mutations s)" and new: "mut_state m = ''IN_FLIGHT''" "request_of m = rq"
  shows "running rq base (mut_op_ref m) (mut_id m) [] (tables (s\<lparr>mutations := mutations s @ [m]\<rparr>), cs)"
proof -
  let ?ms = "mutations s @ [m]"
  have fin: "final_from rq base ?ms" using inv new(2) by (auto simp: exec_inv_def final_from_def tables_def)
  have own: "\<forall>r\<in>set ?ms. mut_id r = mut_id m \<longrightarrow> \<not> finished r \<and> request_of r = rq \<and> mut_op_ref r = mut_op_ref m"
  proof (intro ballI impI)
    fix r assume "r \<in> set ?ms" "mut_id r = mut_id m"
    then have "r = m" using row(1) by (auto simp: image_iff)
    then show "\<not> finished r \<and> request_of r = rq \<and> mut_op_ref r = mut_op_ref m" using new by (simp add: finished_def)
  qed
  have old: "records_inv (mutations s, mutation_steps s)" "calls_recorded ((mutations s, mutation_steps s), cs)"
    "repeats_allowed cs"
    using inv by (simp_all add: exec_inv_def tables_def)
  have "records_inv (?ms, mutation_steps s)" using old(1) row by (simp add: records_inv_def)
  moreover have "calls_recorded ((?ms, mutation_steps s), cs)" using old(2) by (simp add: calls_recorded_def)
  ultimately have "exec_inv rq base ((?ms, mutation_steps s), cs)"
    using fin old(3) unfolding exec_inv_def fst_conv snd_conv by blast
  moreover have "mut_id m \<in> mut_id ` set ?ms" by simp
  moreover have "tables (s\<lparr>mutations := ?ms\<rparr>) = (?ms, mutation_steps s)" by (simp add: tables_def)
  ultimately show ?thesis
    using own unfolding running_def by (simp only: fst_conv list.set empty_subsetI simp_thms)
qed

lemma insert_mutation_row_run:
  "insert_mutation_row m s = Inr (x, t) \<Longrightarrow> t = s\<lparr>mutations := mutations s @ [m]\<rparr> \<and> request_of m \<notin> request_of ` set (mutations s)
     \<and> mut_state m = ''IN_FLIGHT''"
  by (simp add: insert_mutation_row_def violates_def request_of_def [abs_def] split: if_splits)

lemma insert_mutation_triple:
  assumes "rq = (client, rid)"
  shows "db_triple (\<lambda>t. exec_inv rq base (t, cs)) (insert_mutation op_ref client rid digest tool scope targets actor cls policy stamp)
    (\<lambda>mid t. running rq base op_ref mid [] (t, cs))"
proof (rule db_tripleI)
  fix s mid t
  assume pre: "exec_inv rq base (tables s, cs)"
    and run: "insert_mutation op_ref client rid digest tool scope targets actor cls policy stamp s = Inr (mid, t)"
  from run obtain m where "mid = next_id mut_id (mutations s)" "mut_id m = mid" "request_of m = rq" "mut_op_ref m = op_ref" and "insert_mutation_row m s = Inr ((), t)"
  proof (rule_tac that)
    let ?m = "\<lparr>mut_id = next_id mut_id (mutations s), mut_op_ref = op_ref, mut_client = client, mut_request_id = rid,
      mut_request_digest = digest, mut_tool = tool, mut_scope = scope, mut_target_refs = sort targets, mut_actor = actor,
      mut_retry_class = cls, mut_ambiguity_policy = policy, mut_state = ''IN_FLIGHT'', mut_audit_status = ''ANCHORED'',
      mut_provider_code = None, mut_result = None, mut_result_digest = None, mut_retried = False,
      mut_created_at = stamp, mut_finished_at = None\<rparr>"
    from run show "mid = next_id mut_id (mutations s)" "mut_id ?m = mid" "request_of ?m = rq" "mut_op_ref ?m = op_ref" "insert_mutation_row ?m s = Inr ((), t)"
      using assms by (auto simp: insert_mutation_def need_tx_def tx_inr request_of_def split: if_splits)
  qed
  with insert_mutation_row_run exec_inv_insert [OF pre, of m] next_id_fresh [of mut_id "mutations s"] show "running rq base op_ref mid [] (tables t, cs)" by auto
qed

lemma insert_step_triple:
  assumes "stp_state r = ''PENDING''"
  shows "db_triple (\<lambda>t. running rq base opr mid [] (t, cs)) (insert_step_row r) (\<lambda>_ t. running rq base opr mid [] (t, cs))"
proof (rule db_tripleI)
  fix s x t
  assume pre: "running rq base opr mid [] (tables s, cs)" and run: "insert_step_row r s = Inr (x, t)"
  then have t: "t = s\<lparr>mutation_steps := mutation_steps s @ [r]\<rparr>" and fk: "stp_mutation_id r \<in> mut_id ` set (mutations s)"
    and key: "step_key r \<notin> step_key ` set (mutation_steps s)"
    by (auto simp: insert_step_row_def violates_def step_key_def split: if_splits)
  have "records_inv (mutations s, mutation_steps s @ [r])"
    using pre fk key assms by (auto simp: running_def exec_inv_def records_inv_def tables_def)
  with pre show "running rq base opr mid [] (tables t, cs)"
    unfolding t by (auto simp: running_def exec_inv_def calls_recorded_def tables_def)
qed

lemma db_triple_each: "(\<And>x. db_triple P (f x) (\<lambda>_. P)) \<Longrightarrow> db_triple P (tx_each f xs) (\<lambda>_. P)"
proof (induction xs)
  case Nil
  show ?case unfolding tx_each.simps by (rule db_triple_return)
next
  case (Cons x xs)
  then show ?case unfolding tx_each.simps by (intro db_triple_bind db_triple_return) auto
qed

lemma add_steps_triple:
  "db_triple (\<lambda>t. running rq base opr mid [] (t, cs)) (add_steps m caps) (\<lambda>_ t. running rq base opr mid [] (t, cs))"
  unfolding add_steps_def
  by (rule db_triple_then [OF db_triple_quiet [OF need_tx_records]],
      rule db_triple_then [OF db_triple_each db_triple_return], auto intro!: insert_step_triple split: prod.splits)

definition apply_keeps :: "(audit_tx \<Rightarrow> 'a db_tx) \<Rightarrow> bool" where
  "apply_keeps apply \<longleftrightarrow> (\<forall>tx s x t. apply tx s = Inr (x, t) \<longrightarrow> tables t = tables s)"

lemma require_healthy_records: "tx_within same_records require_healthy"
  by (rule tx_withinI) (auto simp: require_healthy_def require_not_degraded_def same_records_def split: if_splits)

lemma found_request:
  assumes "rq = (client, rid)"
  shows "db_triple (\<lambda>t. exec_inv rq base (t, cs)) (tx_reads (find_mutation client rid))
    (\<lambda>x t. exec_inv rq base (t, cs) \<and> (\<forall>r. x = Some r \<longrightarrow> r \<in> set (fst t) \<and> request_of r = rq))"
  using assms by (auto simp: db_triple_def find_mutation_def tables_def request_of_def find_Some_iff)

lemma local_body_triple:
  assumes "apply_keeps apply" and rq: "rq = (client, rid)"
  shows "db_triple (\<lambda>t. exec_inv rq base (t, cs)) (local_body client tool targets digest rid apply tx) (\<lambda>x t. answered rq base x (t, cs))"
proof -
  have app: "tx_within same_records (apply tx)"
    using assms(1) by (auto intro!: tx_withinI simp: apply_keeps_def same_records_def)
  have new: "db_triple (\<lambda>t. exec_inv rq base (t, cs)) (local_new client tool targets digest rid apply tx) (\<lambda>x t. answered rq base x (t, cs))"
    unfolding local_new_def tx_stamp_def
    by (rule db_triple_then [OF db_triple_quiet [OF require_healthy_records]],
        rule db_triple_bind [OF db_triple_quiet [OF same_records.mint_within]],
        rule db_triple_bind [OF db_triple_quiet [OF same_records.within_lift]], rule db_triple_bind [OF insert_mutation_triple [OF rq]],
        rule db_triple_then [OF db_triple_quiet [OF audit_append_records]], rule db_triple_bind [OF db_triple_quiet [OF app]],
        rule db_triple_bind [OF finish_triple], rule db_triple_then [OF db_triple_quiet [OF audit_append_records]],
        rule db_triple_return, rule answered_recorded) simp_all
  show ?thesis
    unfolding local_body_def
  proof (rule db_triple_bind [OF found_request [OF rq]])
    show "db_triple (\<lambda>t. exec_inv rq base (t, cs) \<and> (\<forall>r. x = Some r \<longrightarrow> r \<in> set (fst t) \<and> request_of r = rq))
        (case x of None \<Rightarrow> local_new client tool targets digest rid apply tx
         | Some row \<Rightarrow> tx_then (tx_guard (mut_request_digest row = digest) (CommsError ''REQUEST_ID_REUSE''))
             (tx_return (outcome_of row True)))
        (\<lambda>x t. answered rq base x (t, cs))" for x
      using new by (cases x) (auto simp: db_triple_def tx_then_Inr tx_guard_Inr intro!: answered_row)
  qed
qed

definition found_or_new :: "string \<times> string \<Rightarrow> mutation_row list \<Rightarrow> mutation_row + nat \<times> string \<Rightarrow> view \<Rightarrow> bool" where
  "found_or_new rq base x v \<longleftrightarrow> (case x of
     Inl r \<Rightarrow> exec_inv rq base v \<and> r \<in> set (fst (fst v)) \<and> request_of r = rq
   | Inr (mid, opr) \<Rightarrow> running rq base opr mid [] v)"

lemma found_or_new_inv: "found_or_new rq base x v \<Longrightarrow> exec_inv rq base v"
  by (auto simp: found_or_new_def intro: running_inv split: sum.splits)

lemma provider_body_triple:
  assumes rq: "rq = (client, rid)"
  shows "db_triple (\<lambda>t. exec_inv rq base (t, cs)) (provider_body client tool target op sem digest rid tx) (\<lambda>x t. found_or_new rq base x (t, cs))"
proof -
  have new: "db_triple (\<lambda>t. exec_inv rq base (t, cs)) (provider_new client tool target op sem digest rid tx)
      (\<lambda>x t. found_or_new rq base (Inr x) (t, cs))"
    unfolding provider_new_def tx_stamp_def
    by (rule db_triple_then [OF db_triple_quiet [OF require_healthy_records]],
        rule db_triple_bind [OF db_triple_quiet [OF same_records.mint_within]],
        rule db_triple_bind [OF db_triple_quiet [OF same_records.within_lift]], rule db_triple_bind [OF insert_mutation_triple [OF rq]],
        rule db_triple_then [OF add_steps_triple], rule db_triple_then [OF db_triple_quiet [OF audit_append_records]],
        rule db_triple_return) (simp add: found_or_new_def)
  show ?thesis
    unfolding provider_body_def
  proof (rule db_triple_bind [OF found_request [OF rq]])
    fix x
    show "db_triple (\<lambda>t. exec_inv rq base (t, cs) \<and> (\<forall>r. x = Some r \<longrightarrow> r \<in> set (fst t) \<and> request_of r = rq))
        (case x of None \<Rightarrow> tx_bind (provider_new client tool target op sem digest rid tx) (\<lambda>made. tx_return (Inr made))
         | Some r \<Rightarrow> tx_then (tx_guard (mut_request_digest r = digest) (CommsError ''REQUEST_ID_REUSE'')) (tx_return (Inl r)))
        (\<lambda>x t. found_or_new rq base x (t, cs))"
      using new by (cases x) (auto simp: db_triple_def tx_bind_Inr tx_then_Inr tx_guard_Inr found_or_new_def)
  qed
qed

lemma unfinished_row_runs:
  assumes "exec_inv rq base v" and "r \<in> set (fst (fst v))" and "\<not> finished r" "request_of r = rq"
  shows "running rq base (mut_op_ref r) (mut_id r) [] v"
  using assms distinct_key [of mut_id "fst (fst v)"] by (auto simp: running_def exec_inv_def records_inv_def)

lemma resume_triple:
  assumes "hook_keeps hook" and "\<And>mid op_ref b. sg_on_created (mk mid op_ref b) = hook" "\<And>mid op_ref b. sg_mutation (mk mid op_ref b) = mid"
    "\<And>mid op_ref b. sg_op_ref (mk mid op_ref b) = op_ref"
  shows "triple (exec_inv rq base) (\<lambda>v. exec_inv rq base v \<and> row \<in> set (fst (fst v)) \<and> request_of row = rq) (resume ex mk row) (answered rq base)"
proof -
  let ?found = "\<lambda>v. exec_inv rq base v \<and> row \<in> set (fst (fst v)) \<and> request_of row = rq"
  let ?run = "running rq base (mut_op_ref row) (mut_id row) []"
  have saga: "triple (exec_inv rq base) ?run (run_saga ex (mk (mut_id row) (mut_op_ref row) True)) (answered rq base)"
    using run_saga_triple [of "mk (mut_id row) (mut_op_ref row) True"] assms by simp
  have mark: "triple (exec_inv rq base) ?run (audited (ex_writer ex) (\<lambda>_. mark_retried (mut_id row))) (\<lambda>_. ?run)"
    by (rule triple_audited) (auto intro: running_inv mark_retried_triple)
  have same: "triple (exec_inv rq base) ?run (io_return ()) (\<lambda>_. ?run)"
    by (rule triple_return) (simp add: running_inv)
  have again: "triple (exec_inv rq base) ?found (io_then (if mut_state row = ''OUTCOME_UNKNOWN''
      then audited (ex_writer ex) (\<lambda>_. mark_retried (mut_id row)) else io_return ())
      (run_saga ex (mk (mut_id row) (mut_op_ref row) True))) (answered rq base)" if "\<not> finished row"
    by (rule triple_pre [OF triple_then [OF triple_if [OF mark same] saga]]) (use that unfinished_row_runs in blast)
  have recorded: "triple (exec_inv rq base) ?found (io_return (outcome_of row True)) (answered rq base)"
    by (rule triple_return) (simp add: answered_row)
  show ?thesis
    unfolding resume_def by (intro triple_if recorded again) (simp add: finished_def)
qed

lemma answer_triple:
  assumes "hook_keeps hook" and "\<And>mid op_ref b. sg_on_created (mk mid op_ref b) = hook" "\<And>mid op_ref b. sg_mutation (mk mid op_ref b) = mid"
    "\<And>mid op_ref b. sg_op_ref (mk mid op_ref b) = op_ref"
  shows "triple (exec_inv rq base) (found_or_new rq base x)
    (let f = mk in case x of
       Inl row \<Rightarrow> if ok then resume ex f row else degraded ex 0 [] ''IN_FLIGHT'' False
     | Inr (mid, op_ref) \<Rightarrow> if ok then run_saga ex (f mid op_ref False) else degraded ex mid op_ref ''IN_FLIGHT'' False)
    (answered rq base)"
proof (cases x)
  case (Inl row)
  have "triple (exec_inv rq base) (\<lambda>v. exec_inv rq base v \<and> row \<in> set (fst (fst v)) \<and> request_of row = rq) (resume ex mk row) (answered rq base)"
    by (rule resume_triple [where mk = mk, OF assms])
  moreover have "triple (exec_inv rq base) (\<lambda>v. exec_inv rq base v \<and> row \<in> set (fst (fst v)) \<and> request_of row = rq) (degraded ex 0 [] ''IN_FLIGHT'' False)
      (answered rq base)"
    by (rule triple_pre [OF degraded_triple]) simp
  moreover have "found_or_new rq base (Inl row) = (\<lambda>v. exec_inv rq base v \<and> row \<in> set (fst (fst v)) \<and> request_of row = rq)"
    by (simp add: fun_eq_iff found_or_new_def)
  ultimately show ?thesis
    by (simp add: Inl)
next
  case (Inr p)
  obtain mid op_ref where p: "p = (mid, op_ref)" by fastforce
  have "triple (exec_inv rq base) (running rq base op_ref mid []) (run_saga ex (mk mid op_ref False)) (answered rq base)"
    using run_saga_triple [of "mk mid op_ref False"] assms by simp
  moreover have "triple (exec_inv rq base) (running rq base op_ref mid []) (degraded ex mid op_ref ''IN_FLIGHT'' False) (answered rq base)"
    by (rule triple_pre [OF degraded_triple]) (rule running_inv)
  moreover have "found_or_new rq base (Inr (mid, op_ref)) = running rq base op_ref mid []"
    by (simp add: fun_eq_iff found_or_new_def)
  ultimately show ?thesis
    by (simp add: Inr p)
qed

lemma provider_triple:
  assumes hook: "hook_keeps hook" and rq: "rq = (client, rid)"
  shows "triple (exec_inv rq base) (exec_inv rq base) (provider ex client tool target op rid kind hook) (answered rq base)"
proof -
  have res: "triple (exec_inv rq base) (exec_inv rq base) (sio_res x) (\<lambda>_. exec_inv rq base)" for x :: "'x res"
    by (rule triple_quiet) (simp_all add: quiet_def sio_res_def)
  have found: "triple (exec_inv rq base) (exec_inv rq base) (transaction (ex_writer ex) (provider_body client tool target op sem digest rid))
      (\<lambda>(x, ok). found_or_new rq base x)" for sem digest
    by (rule triple_transaction [where P = "exec_inv rq base"]) (auto intro: db_triple_conseq [OF provider_body_triple [OF rq]] found_or_new_inv)
  have refused: "triple (exec_inv rq base) (exec_inv rq base) (io_raise e :: mutation_outcome sio) Q" for e Q by (rule triple_raise)
  show ?thesis
    unfolding provider_def
    by (rule triple_then [OF res], rule triple_then [OF res],
        cases "SEMANTICS (so_capability op) (pt_actor target)"; cases "ex_admin ex (pt_actor target)";
        simp only: prod.case option.case refused)
      (rule triple_if [OF refused], rule triple_then [OF res], rule triple_bind [OF res], rule triple_bind [OF found],
        rule triple_case_prod, simp only: prod.case, rule answer_triple [OF hook]; simp)
qed

lemma local_triple:
  assumes "apply_keeps apply" and rq: "rq = (client, rid)"
  shows "triple (exec_inv rq base) (exec_inv rq base) (local ex client tool targets args rid apply) (answered rq base)"
proof -
  have res: "quiet (sio_res x)" for x :: "'x res" by (simp add: quiet_def sio_res_def)
  have body: "triple (exec_inv rq base) (exec_inv rq base) (audited (ex_writer ex) (local_body client tool targets digest rid apply))
      (answered rq base)" for digest
    by (rule triple_audited [OF _ _ local_body_triple [OF assms]]) (simp_all add: answered_def)
  show ?thesis
    unfolding local_def by (rule triple_then [OF triple_quiet [OF res]], assumption, rule triple_bind [OF triple_quiet [OF res] body])
qed

end
