(* ===== verification/Comms_Requests.thy ===== *)
theory Comms_Requests
  imports Comms_Executor_Props
begin

text \<open>
  Requests over the life of the server: local and provider writes by any executor, in any order, each
  cut short anywhere by a crash or an error, between changes that leave the mutation tables alone. What
  the executor promises its clients, and the abstract machine it refines.
\<close>

section \<open>Requests\<close>

text \<open>One call of \<open>local\<close> or \<open>provider\<close>, named by the client and its request id.\<close>

inductive request :: "string \<times> string \<Rightarrow> service_world \<Rightarrow> mutation_outcome res \<Rightarrow> service_world \<Rightarrow> bool" where
  local_write: "apply_keeps apply \<Longrightarrow> local ex client tool targets args rid apply w = (q, w') \<Longrightarrow> request (client, rid) w q w'"
| provider_write: "hook_keeps hook \<Longrightarrow> provider ex client tool target op rid kind hook w = (q, w') \<Longrightarrow> request (client, rid) w q w'"

inductive served :: "service_world \<Rightarrow> service_world \<Rightarrow> bool" where
  served_none: "served w w"
| served_request: "served w w1 \<Longrightarrow> request rq w1 q w2 \<Longrightarrow> served w w2"
| served_other: "served w w1 \<Longrightarrow> view w2 = view w1 \<Longrightarrow> served w w2"

definition sound :: "service_world \<Rightarrow> bool" where
  "sound w \<longleftrightarrow> records_inv (fst (view w)) \<and> calls_recorded (view w) \<and> repeats_allowed (sw_calls w)"

definition unused :: "service_world \<Rightarrow> bool" where
  "unused w \<longleftrightarrow> mutations (sw_db w) = [] \<and> mutation_steps (sw_db w) = [] \<and> sw_calls w = []"

lemma view_parts: "fst (fst (view w)) = mutations (sw_db w)" "snd (fst (view w)) = mutation_steps (sw_db w)" "snd (view w) = sw_calls w"
  by (simp_all add: view_def tables_def)

lemma sound_exec_inv: "sound w \<Longrightarrow> exec_inv rq (mutations (sw_db w)) (view w)"
  by (simp add: sound_def exec_inv_def final_from_def view_parts) (blast intro: follows_refl)

lemma exec_inv_sound: "exec_inv rq base (view w) \<Longrightarrow> sound w"
  by (simp add: sound_def exec_inv_def view_parts)

lemma unused_sound: "unused w \<Longrightarrow> sound w"
  by (simp add: unused_def sound_def records_inv_def calls_recorded_def repeats_allowed_def view_parts)

lemma request_inv:
  assumes "request rq w q w'" and "exec_inv rq base (view w)"
  shows "exec_inv rq base (view w') \<and> (\<forall>x. q = Inr x \<longrightarrow> answered rq base x (view w'))"
  using assms(1)
proof cases
  case (local_write chg ex client tool targets args rid)
  with tripleD [OF local_triple [where rq = rq and client = client and rid = rid] assms(2)] show ?thesis by blast
next
  case (provider_write hook ex client tool target op rid kind)
  with tripleD [OF provider_triple [where rq = rq and client = client and rid = rid] assms(2)] show ?thesis by blast
qed

lemma request_sound:
  assumes "sound w" and "request rq w q w'"
  shows "sound w'" and "final_from rq (mutations (sw_db w)) (mutations (sw_db w'))"
proof -
  have inv: "exec_inv rq (mutations (sw_db w)) (view w')"
    using request_inv [OF assms(2) sound_exec_inv [OF assms(1)]] by blast
  then show "sound w'" by (rule exec_inv_sound)
  from inv show "final_from rq (mutations (sw_db w)) (mutations (sw_db w'))" by (simp add: exec_inv_def view_parts)
qed

lemma served_sound: "served w w' \<Longrightarrow> sound w \<Longrightarrow> sound w'"
  by (induction rule: served.induct) (auto simp: request_sound(1), simp add: sound_def view_parts [symmetric])

lemma served_keeps_finished:
  "served w w' \<Longrightarrow> sound w \<Longrightarrow> r \<in> set (mutations (sw_db w)) \<Longrightarrow> finished r \<Longrightarrow>
     \<exists>r'\<in>set (mutations (sw_db w')). same_record r r'"
proof (induction rule: served.induct)
  case (served_none w)
  then show ?case by (blast intro: same_record_refl)
next
  case (served_request w w1 rq q w2)
  then obtain r1 where r1: "r1 \<in> set (mutations (sw_db w1))" "same_record r r1" by blast
  moreover from this served_request.prems(3) have "finished r1" using same_record_fields [of r r1] by (simp add: finished_def)
  ultimately show ?case
    using request_sound(2) [OF served_sound [OF served_request.hyps(1)] served_request.hyps(2)] served_request.prems(1)
    unfolding final_from_def follows_def by (metis same_record_trans)
next
  case (served_other w w1 w2)
  then show ?case by (metis view_parts(1))
qed

section \<open>Replays\<close>

text \<open>A transaction whose body only reads commits nothing, so it cannot fail to be anchored.\<close>

lemma read_only_triple:
  assumes "\<And>tx s x t. tables s = tb \<Longrightarrow> body tx s = Inr (x, t) \<Longrightarrow> t = s \<and> R x"
  shows "triple (\<lambda>v. v = (tb, cs)) (\<lambda>v. v = (tb, cs)) (transaction wr body) (\<lambda>(x, ok) v. v = (tb, cs) \<and> ok \<and> R x)"
proof (rule tripleI)
  fix w q w'
  assume view: "view w = (tb, cs)" and run: "transaction wr body w = (q, w')"
  have "triple (\<lambda>v. v = (tb, cs)) (\<lambda>v. v = (tb, cs)) (transaction wr body) (\<lambda>(x, ok) v. v = (tb, cs))"
    by (rule triple_transaction) (simp_all add: db_triple_def, metis assms)
  from tripleD [OF this view run] have after: "view w' = (tb, cs)" by blast
  moreover have "ok \<and> R x" if q: "q = Inr (x, ok)" for x ok
    using run [unfolded q]
  proof (rule transaction_run)
    fix now key u committed
    assume "audited_tx (open_tx wr key now) body (sw_db w) = Inr ((x, committed), u)"
      and ok: "case committed of None \<Rightarrow> ok \<and> w' = w\<lparr>sw_ticks := Suc (sw_ticks w), sw_db := u\<rparr>
        | Some h \<Rightarrow> refresh wr h now (w\<lparr>sw_ticks := Suc (sw_ticks w), sw_db := u\<rparr>) = (Inr ok, w')"
    then show ?thesis
    proof (elim audited_tx_run)
      fix v assume body: "body (open_tx wr key now) ((sw_db w)\<lparr>in_transaction := True, audit_appended := False\<rparr>) = Inr (x, v)"
        and committed: "committed = (if audit_appended v then head v else None)"
      from assms [OF _ body] view have "R x" "\<not> audit_appended v" by (simp_all add: view_def)
      with ok committed show ?thesis by simp
    qed
  qed
  ultimately show "view w' = (tb, cs) \<and> (\<forall>p. q = Inr p \<longrightarrow> (case p of (x, ok) \<Rightarrow> \<lambda>v. v = (tb, cs) \<and> ok \<and> R x) (view w'))"
    by auto
qed

definition row_of :: "string \<times> string \<Rightarrow> tables \<Rightarrow> mutation_row option" where
  "row_of rq t = find (\<lambda>m. request_of m = rq) (fst t)"

lemma find_mutation_row: "find_mutation client rid s = row_of (client, rid) (tables s)"
  by (simp add: find_mutation_def row_of_def tables_def request_of_def)

lemma local_replay:
  assumes "row_of (client, rid) tb = Some r"
  shows "triple (\<lambda>v. v = (tb, cs)) (\<lambda>v. v = (tb, cs)) (local ex client tool targets args rid app) (\<lambda>x v. v = (tb, cs) \<and> x = outcome_of r True)"
proof -
  have res: "triple (\<lambda>v. v = (tb, cs)) (\<lambda>v. v = (tb, cs)) (sio_res x) (\<lambda>_ v. v = (tb, cs))" for x :: "'x res"
    by (rule triple_quiet) (simp_all add: quiet_def sio_res_def)
  have body: "triple (\<lambda>v. v = (tb, cs)) (\<lambda>v. v = (tb, cs)) (transaction wr (local_body client tool targets digest rid app))
      (\<lambda>(x, ok) v. v = (tb, cs) \<and> ok \<and> x = outcome_of r True)" for wr digest
    by (rule read_only_triple)
      (use assms in \<open>auto simp: local_body_def tx_bind_Inr tx_then_Inr tx_guard_Inr find_mutation_row\<close>)
  show ?thesis
    unfolding local_def audited_def
    by (rule triple_then [OF res], rule triple_bind [OF res], rule triple_bind [OF body])
      (auto intro!: triple_if triple_return triple_raise)
qed

lemma provider_replay:
  assumes "row_of (client, rid) tb = Some r" and "finished r"
  shows "triple (\<lambda>v. v = (tb, cs)) (\<lambda>v. v = (tb, cs)) (provider ex client tool target op rid kind hook) (\<lambda>x v. v = (tb, cs) \<and> x = outcome_of r True)"
proof -
  have res: "triple (\<lambda>v. v = (tb, cs)) (\<lambda>v. v = (tb, cs)) (sio_res x) (\<lambda>_ v. v = (tb, cs))" for x :: "'x res"
    by (rule triple_quiet) (simp_all add: quiet_def sio_res_def)
  have refused: "triple (\<lambda>v. v = (tb, cs)) (\<lambda>v. v = (tb, cs)) (io_raise e :: mutation_outcome sio) Q" for e Q by (rule triple_raise)
  have body: "triple (\<lambda>v. v = (tb, cs)) (\<lambda>v. v = (tb, cs)) (transaction wr (provider_body client tool target op sem digest rid))
      (\<lambda>(x, ok) v. v = (tb, cs) \<and> ok \<and> x = Inl r)" for wr sem digest
    by (rule read_only_triple)
      (use assms in \<open>auto simp: provider_body_def tx_bind_Inr tx_then_Inr tx_guard_Inr find_mutation_row\<close>)
  have answer: "triple (\<lambda>v. v = (tb, cs)) (\<lambda>v. v = (tb, cs) \<and> ok \<and> x = Inl r)
      (let f = mk in case x of
         Inl row \<Rightarrow> if ok then resume ex f row else degraded ex 0 [] ''IN_FLIGHT'' False
       | Inr (mid, op_ref) \<Rightarrow> if ok then run_saga ex (f mid op_ref False) else degraded ex mid op_ref ''IN_FLIGHT'' False)
      (\<lambda>x v. v = (tb, cs) \<and> x = outcome_of r True)" for x ok mk
    using assms(2) by (cases "ok \<and> x = Inl r") (auto simp: finished_def resume_def triple_def io_return_def)
  show ?thesis
    unfolding provider_def
    by (rule triple_then [OF res], rule triple_then [OF res],
        cases "SEMANTICS (so_capability op) (pt_actor target)"; cases "ex_admin ex (pt_actor target)";
        simp only: prod.case option.case refused)
      (rule triple_if [OF refused], rule triple_then [OF res], rule triple_bind [OF res], rule triple_bind [OF body],
        rule triple_case_prod, simp only: prod.case, rule answer)
qed

lemma request_replay:
  assumes "request rq w q w'" and "row_of rq (fst (view w)) = Some r" and "finished r"
  shows "view w' = view w \<and> (\<forall>x. q = Inr x \<longrightarrow> x = outcome_of r True)"
  using assms(1)
proof cases
  case (local_write chg ex client tool targets args rid)
  with assms tripleD [OF local_replay [where tb = "fst (view w)" and cs = "snd (view w)" and client = client and rid = rid and r = r] _ local_write(3)]
  show ?thesis by auto
next
  case (provider_write hook ex client tool target op rid kind)
  with assms tripleD [OF provider_replay [where tb = "fst (view w)" and cs = "snd (view w)" and client = client and rid = rid and r = r] _ provider_write(3)]
  show ?thesis by auto
qed

lemma row_of_unique:
  assumes "records_inv t" and "r \<in> set (fst t)"
  shows "row_of (request_of r) t = Some r"
proof -
  have "\<exists>r'. row_of (request_of r) t = Some r'"
    using assms(2) by (cases "row_of (request_of r) t") (auto simp: row_of_def find_None_iff)
  then obtain r' where r': "row_of (request_of r) t = Some r'" by blast
  then have "r' \<in> set (fst t)" "request_of r' = request_of r" by (auto simp: row_of_def find_Some_iff)
  then show ?thesis using r' distinct_key [of request_of "fst t" r' r] assms by (simp add: records_inv_def)
qed

text \<open>C5: no provider call is repeated unless the operation may be. Whatever requests, replays, crashes and
  restarts follow each other, two calls of the same step are only ever made when the policy of the
  operation is to retry with the same key, and every call belongs to a step recorded as started: a
  state with sound records, such as the empty one, stays sound.\<close>

theorem steps_are_repeated_only_when_allowed:
  assumes "sound w" and "served w w'"
  shows "(\<forall>i j. i < j \<longrightarrow> j < length (sw_calls w') \<longrightarrow> call_key (sw_calls w' ! i) = call_key (sw_calls w' ! j) \<longrightarrow>
      retryable (so_capability (pc_op (sw_calls w' ! j))) (pt_actor (pc_target (sw_calls w' ! j))))
    \<and> (\<forall>c\<in>set (sw_calls w'). \<exists>r\<in>set (mutation_steps (sw_db w')). step_key r = call_key c \<and> stp_state r \<noteq> ''PENDING'')
    \<and> sound w'"
  using served_sound [OF assms(2,1)] by (simp add: sound_def calls_recorded_def repeats_allowed_def view_parts)

text \<open>A request that has a final row answers from it, whatever served the server in between.\<close>

lemma replay_after:
  assumes "sound w" and "r \<in> set (mutations (sw_db w))" and "finished r" and "served w w1" and "request (request_of r) w1 q w2"
  shows "view w2 = view w1 \<and> (\<forall>y. q = Inr y \<longrightarrow> y = outcome_of r True)"
proof -
  obtain r1 where r1: "r1 \<in> set (mutations (sw_db w1))" "same_record r r1"
    using served_keeps_finished [OF assms(4,1-3)] by blast
  have "records_inv (fst (view w1))" using served_sound [OF assms(4,1)] by (simp add: sound_def)
  then have "row_of (request_of r1) (fst (view w1)) = Some r1" using r1(1) by (intro row_of_unique) (simp_all add: view_parts)
  then show ?thesis
    using request_replay [of "request_of r" w1 q w2 r1] assms(3,5) same_record_fields [OF r1(2)] by (simp add: finished_def)
qed


section \<open>The abstract machine\<close>

text \<open>To its clients the executor is a table of requests: not seen, open, or done with an answer.\<close>

datatype request_state = Absent | Open | Done mutation_outcome

definition register :: "service_world \<Rightarrow> string \<times> string \<Rightarrow> request_state" where
  "register w rq = (case row_of rq (fst (view w)) of
     None \<Rightarrow> Absent
   | Some r \<Rightarrow> if finished r then Done (outcome_of r True) else Open)"

definition settled :: "mutation_outcome \<Rightarrow> bool" where
  "settled x \<longleftrightarrow> mo_state x \<in> {''SUCCEEDED'', ''FAILED''} \<and> mo_code x \<noteq> Some ''AUDIT_INTEGRITY_DEGRADED''"

inductive register_step ::
  "string \<times> string \<Rightarrow> (string \<times> string \<Rightarrow> request_state) \<Rightarrow> mutation_outcome res \<Rightarrow> (string \<times> string \<Rightarrow> request_state) \<Rightarrow> bool" where
  replays: "a rq = Done x \<Longrightarrow> register_step rq a (Inr x) a"
| refuses: "register_step rq a (Inl e) a"
| runs: "(\<And>x. a rq \<noteq> Done x) \<Longrightarrow> (a rq = Open \<Longrightarrow> st \<noteq> Absent) \<Longrightarrow> (\<And>x. q = Inr x \<Longrightarrow> settled x \<Longrightarrow> st = Done (x\<lparr>mo_replayed := True\<rparr>)) \<Longrightarrow>
    register_step rq a q (a(rq := st))"

lemma row_of_NoneD: "row_of rq t = None \<Longrightarrow> r \<in> set (fst t) \<Longrightarrow> request_of r \<noteq> rq"
  by (auto simp: row_of_def find_None_iff)

lemma row_of_SomeD: "row_of rq t = Some r \<Longrightarrow> r \<in> set (fst t) \<and> request_of r = rq"
  by (auto simp: row_of_def find_Some_iff)

lemma register_row:
  assumes "sound w" and "r \<in> set (mutations (sw_db w))"
  shows "register w (request_of r) = (if finished r then Done (outcome_of r True) else Open)"
  using row_of_unique [of "fst (view w)" r] assms by (simp add: register_def sound_def view_parts)

lemma register_others:
  assumes "sound w" and "request rq w q w'" and "rq' \<noteq> rq"
  shows "register w' rq' = register w rq'"
proof -
  have fin: "final_from rq (mutations (sw_db w)) (mutations (sw_db w'))" using request_sound(2) [OF assms(1,2)] .
  show ?thesis
  proof (cases "row_of rq' (fst (view w))")
    case None
    have "request_of r \<noteq> rq'" if "r \<in> set (mutations (sw_db w'))" for r
    proof
      assume "request_of r = rq'"
      with that fin assms(3) have "rq' \<in> request_of ` set (mutations (sw_db w))" by (auto simp: final_from_def)
      with row_of_NoneD [OF None] show False by (auto simp: view_parts)
    qed
    then have "row_of rq' (fst (view w')) = None" by (simp add: row_of_def find_None_iff view_parts)
    with None show ?thesis by (simp add: register_def)
  next
    case (Some r)
    then have r: "r \<in> set (mutations (sw_db w))" "request_of r = rq'" using row_of_SomeD [OF Some] by (simp_all add: view_parts)
    with fin assms(3) obtain r' where r': "r' \<in> set (mutations (sw_db w'))" "same_record r r'"
      by (auto simp: final_from_def follows_def)
    with register_row [OF request_sound(1) [OF assms(1,2)] r'(1)] register_row [OF assms(1) r(1)] r(2) same_record_fields [OF r'(2)]
    show ?thesis by (simp add: finished_def)
  qed
qed

lemma register_view: "view w' = view w \<Longrightarrow> register w' = register w"
  by (simp add: register_def fun_eq_iff)

text \<open>C3: the executor implements the register. One request, run however far, moves the table of requests by
  one step of the abstract machine: it changes the entry of no other request; an entry that is done is
  never changed, and an answer from it is the one recorded; an open request never becomes unknown; and a
  final answer is recorded as it is given.\<close>

theorem requests_refine_register:
  assumes "sound w" and "request rq w q w'"
  shows "register_step rq (register w) q (register w')"
proof (cases "\<exists>r. row_of rq (fst (view w)) = Some r \<and> finished r")
  case True
  then obtain r where r: "row_of rq (fst (view w)) = Some r" "finished r" by blast
  then have "register w rq = Done (outcome_of r True)" by (simp add: register_def)
  moreover from request_replay [OF assms(2) r] have "register w' = register w" "\<And>x. q = Inr x \<Longrightarrow> x = outcome_of r True"
    using register_view by blast+
  ultimately show ?thesis by (cases q) (auto intro: register_step.intros)
next
  case False
  have step: "register w' = (register w)(rq := register w' rq)"
    using register_others [OF assms] by (auto simp: fun_eq_iff)
  have open_kept: "register w' rq \<noteq> Absent" if entry: "register w rq = Open"
  proof -
    obtain r where r: "row_of rq (fst (view w)) = Some r" using entry by (auto simp: register_def split: option.splits)
    from row_of_SomeD [OF this] obtain r' where "r' \<in> set (mutations (sw_db w'))" "request_of r' = rq"
      using request_sound(2) [OF assms] by (auto simp: final_from_def follows_def view_parts)
    with register_row [OF request_sound(1) [OF assms]] show ?thesis by (auto split: if_splits)
  qed
  have answer: "register w' rq = Done (x\<lparr>mo_replayed := True\<rparr>)" if q: "q = Inr x" "settled x" for x
  proof -
    have "answered rq (mutations (sw_db w)) x (view w')"
      using request_inv [OF assms(2) sound_exec_inv [OF assms(1)]] q(1) by blast
    then obtain r where "r \<in> set (mutations (sw_db w'))" "request_of r = rq" "finished r" "outcome_of r True = x\<lparr>mo_replayed := True\<rparr>"
      using q(2) by (auto simp: answered_def settled_def view_parts)
    with register_row [OF request_sound(1) [OF assms]] show ?thesis by auto
  qed
  have "register w rq \<noteq> Done x" for x using False by (auto simp: register_def split: option.splits)
  then have "register_step rq (register w) q ((register w)(rq := register w' rq))"
    by (rule register_step.runs) (use open_kept answer in blast)+
  with step show ?thesis by simp
qed

section \<open>A reused request id\<close>

text \<open>C29: a request id is never reused for something else. A provider write whose client and request id
  name a recorded request with another digest returns an error, before it calls a provider or writes a
  record.\<close>

theorem reused_request_id_is_refused:
  assumes "find_mutation client rid (sw_db w) = Some r"
    and "request_digest (wr_crypto (ex_writer ex)) tool (digestible (wr_crypto (ex_writer ex)) (so_args op)) (provider_targets target op)
      \<noteq> Inr (mut_request_digest r)"
    and "provider ex client tool target op rid kind hook w = (q, w')"
  shows "(\<exists>e. q = Inl e) \<and> view w' = view w"
proof -
  let ?v = "\<lambda>v. v = view w"
  have row: "row_of (client, rid) (fst (view w)) = Some r" using assms(1) by (simp add: find_mutation_row view_def)
  have res: "triple ?v ?v (sio_res x) (\<lambda>y v. v = view w \<and> x = Inr y)" for x :: "'x res" by (rule triple_res)
  have res': "triple ?v ?v (sio_res x) (\<lambda>_. ?v)" for x :: "'x res" by (rule triple_quiet) (simp_all add: quiet_def sio_res_def)
  have refused: "triple ?v ?v (io_raise e :: mutation_outcome sio) Q" for e Q by (rule triple_raise)
  have body: "triple ?v (\<lambda>v. v = view w \<and> request_digest (wr_crypto (ex_writer ex)) tool
        (digestible (wr_crypto (ex_writer ex)) (so_args op)) (provider_targets target op) = Inr digest)
      (transaction (ex_writer ex) (provider_body client tool target op sem digest rid)) (\<lambda>_ _. False)" for sem digest
  proof (cases "digest = mut_request_digest r")
    case True
    with assms(2) show ?thesis by (auto simp: triple_def)
  next
    case False
    then have "triple (\<lambda>v. v = (fst (view w), snd (view w))) (\<lambda>v. v = (fst (view w), snd (view w)))
        (transaction (ex_writer ex) (provider_body client tool target op sem digest rid))
        (\<lambda>(x, ok) v. v = (fst (view w), snd (view w)) \<and> ok \<and> False)"
      using row by (intro read_only_triple) (auto simp: provider_body_def tx_bind_Inr tx_then_Inr tx_guard_Inr find_mutation_row)
    then show ?thesis unfolding prod.collapse by (rule triple_conseq) auto
  qed
  have none: "triple ?v (\<lambda>_. False) m (Q :: mutation_outcome \<Rightarrow> view \<Rightarrow> bool)" for m Q by (simp add: triple_def)
  have "triple ?v ?v (provider ex client tool target op rid kind hook) (\<lambda>_ _. False)"
    unfolding provider_def
    by (rule triple_then [OF res'], rule triple_then [OF res'],
        cases "SEMANTICS (so_capability op) (pt_actor target)"; cases "ex_admin ex (pt_actor target)";
        simp only: prod.case option.case refused)
      (rule triple_if [OF refused], rule triple_then [OF res'], rule triple_bind [OF res], rule triple_bind [OF body],
        rule none)
  from tripleD [OF this _ assms(3)] show ?thesis by (cases q) auto
qed

section \<open>Concrete runs\<close>

text \<open>A bot adapter that accepts everything, and a request to ban a member, in a world where the request was
  recorded and its only step is \<open>st\<close>.\<close>

definition demo_admin :: admin_operations where
  "demo_admin = \<lparr>ao_validate = (\<lambda>_ _. Inr ()),
     ao_invoke = (\<lambda>_ _ _ _. Inr \<lparr>pr_outcome = ''SUCCEEDED'', pr_code = None, pr_provider_ref = None, pr_detail = []\<rparr>)\<rparr>"

definition demo_executor :: "string option \<Rightarrow> executor" where
  "demo_executor crash_at = \<lparr>ex_writer = demo_writer, ex_admin = (\<lambda>_. Some demo_admin), ex_crash_at = crash_at\<rparr>"

definition demo_target :: provider_target where
  "demo_target = \<lparr>pt_transport = ''telegram'', pt_actor = BOT, pt_destination_ref = ''dst_aaaaaaaaaaaaaaaaaaaaaaaaaa'',
     pt_identity = ''1''\<rparr>"

definition demo_request :: string where "demo_request = ''req_aaaaaaaaaaaaaaaaaaaaaaaaaa''"

definition demo_operation :: semantic_operation where
  "demo_operation = \<lparr>so_capability = ''member.ban'', so_args = []\<rparr>"

definition demo_ban :: "string option \<Rightarrow> mutation_outcome sio" where
  "demo_ban crash_at = provider (demo_executor crash_at) ''cli'' ''comms_member_ban'' demo_target demo_operation demo_request None None"

definition demo_row :: mutation_row where
  "demo_row = \<lparr>mut_id = 1, mut_op_ref = ''op_aaaaaaaaaaaaaaaaaaaaaaaaaa'', mut_client = ''cli'', mut_request_id = demo_request,
     mut_request_digest = zero_hex 64, mut_tool = ''comms_member_ban'', mut_scope = ''provider'', mut_target_refs = [],
     mut_actor = Some BOT, mut_retry_class = ''SET_STATE'', mut_ambiguity_policy = ''retry_same_key'', mut_state = ''IN_FLIGHT'',
     mut_audit_status = ''ANCHORED'', mut_provider_code = None, mut_result = None, mut_result_digest = None,
     mut_retried = False, mut_created_at = demo_stamp, mut_finished_at = None\<rparr>"

definition demo_step :: "string \<Rightarrow> step_row" where
  "demo_step st = \<lparr>stp_mutation_id = 1, stp_no = 1, stp_capability = ''member.ban'', stp_state = st,
     stp_request_key = (if st = ''PENDING'' then None else Some (request_key (zero_hex 64) 1)), stp_provider_code = None\<rparr>"

definition demo_call :: provider_call where
  "demo_call = \<lparr>pc_mutation = 1, pc_step = 1, pc_op = demo_operation, pc_target = demo_target, pc_key = zero_hex 64\<rparr>"

definition ban_world :: "nat \<Rightarrow> mutation_row \<Rightarrow> string \<Rightarrow> provider_call list \<Rightarrow> service_world" where
  "ban_world n row st calls = \<lparr>sw_db = empty_db\<lparr>mutations := [row], mutation_steps := [demo_step st]\<rparr>,
     sw_calls = calls, sw_anchors = [], sw_ticks = n\<rparr>"

lemma demo_checks: "check_request demo_request = Inr ()" "''member.ban'' \<in> set CAPABILITIES"
  by code_simp+

lemma demo_semantics: "SEMANTICS ''member.ban'' BOT = Some (simple_semantics ''SET_STATE'' ''natural'' ''retry_same_key'')"
  by code_simp

lemma demo_sha: "sha256_hex demo_crypto b = zero_hex 64"
  by (simp add: demo_crypto_def)

lemma demo_digest: "request_digest demo_crypto ''comms_member_ban'' [] (provider_targets demo_target demo_operation) = Inr (zero_hex 64)"
proof -
  have "is_ok (jcs_dumps (JObj [(jstr ''args'', payload_json []),
      (jstr ''targets'', payload_json (provider_targets demo_target demo_operation)), (jstr ''tool'', jstr ''comms_member_ban'')]))"
    by code_simp
  then show ?thesis by (auto simp: request_digest_def demo_sha res_bind_def is_ok_Inr)
qed

lemma demo_key: "op_key demo_crypto ''cli'' demo_request = Inr (zero_hex 64)"
proof -
  have "is_ok (jcs_dumps (JObj [(jstr ''client'', jstr ''cli''), (jstr ''request'', jstr demo_request)]))" by code_simp
  then show ?thesis by (auto simp: op_key_def demo_sha res_bind_def is_ok_Inr)
qed

text \<open>A transaction that appends no event.\<close>

lemma plain_transaction:
  assumes "\<not> in_transaction (sw_db w)"
    and "\<And>tx. body tx ((sw_db w)\<lparr>in_transaction := True, audit_appended := False\<rparr>) = Inr (x, v)" and "\<not> audit_appended v"
  shows "transaction demo_writer body w = (Inr (x, True), w\<lparr>sw_ticks := Suc (sw_ticks w), sw_db := v\<lparr>in_transaction := False\<rparr>\<rparr>)"
  using assms by (simp add: transaction_def io_bind_def writer_now_def demo_writer_def demo_utc(1) sio_res_def sio_db_def
    audited_tx_def write_tx_def tx_then_def tx_bind_def tx_modify_def tx_reads_def tx_return_def io_return_def)

lemma ban_found:
  assumes "request_of row = (''cli'', demo_request)" and "mut_request_digest row = zero_hex 64"
  shows "transaction demo_writer (provider_body ''cli'' tool target op sem (zero_hex 64) demo_request) (ban_world n row st calls)
    = (Inr (Inl row, True), ban_world (Suc n) row st calls)"
proof -
  let ?s = "(sw_db (ban_world n row st calls))\<lparr>in_transaction := True, audit_appended := False\<rparr>"
  have "provider_body ''cli'' tool target op sem (zero_hex 64) demo_request tx ?s = Inr (Inl row, ?s)" for tx
    using assms by (simp add: provider_body_def tx_bind_def tx_then_def tx_reads_def tx_guard_def tx_return_def find_mutation_def
        ban_world_def request_of_def)
  from plain_transaction [where w = "ban_world n row st calls" and body = "provider_body ''cli'' tool target op sem (zero_hex 64) demo_request", OF _ this] show ?thesis
    by (simp add: ban_world_def empty_db_def)
qed

lemma ban_started:
  assumes "st = ''PENDING'' \<or> st = ''IN_FLIGHT''"
  shows "transaction demo_writer (\<lambda>_. start_step 1 1 (request_key (zero_hex 64) 1)) (ban_world n row st calls)
    = (Inr ((), True), ban_world (Suc n) row ''IN_FLIGHT'' calls)"
proof -
  let ?s = "\<lambda>st. (sw_db (ban_world n row st calls))\<lparr>in_transaction := True, audit_appended := False\<rparr>"
  have "start_step 1 1 (request_key (zero_hex 64) 1) (?s st) = Inr ((), ?s ''IN_FLIGHT'')"
    using assms by (auto simp: start_step_def need_tx_def tx_then_def tx_bind_def update_steps_def update_where_def is_step_def
        step_forward_def MUTATION_STATES_def demo_step_def ban_world_def)
  from plain_transaction [where w = "ban_world n row st calls" and body = "\<lambda>_. start_step 1 1 (request_key (zero_hex 64) 1)", OF _ this] show ?thesis
    by (simp add: ban_world_def empty_db_def)
qed

lemma demo_validates:
  "validate_steps demo_admin (simple_semantics ''SET_STATE'' ''natural'' ''retry_same_key'') demo_operation demo_target = Inr ()"
  by (simp add: validate_steps_def steps_of_def simple_semantics_def demo_operation_def step_extra_def demo_admin_def res_bind_def)

text \<open>Cut short after the call, a request leaves the step in flight and the call made.\<close>

lemma ban_cut_short:
  assumes st: "st = ''PENDING'' \<or> st = ''IN_FLIGHT''"
  shows "demo_ban (Some ''after_call'') (ban_world n demo_row st calls)
    = (Inl (MutationCrash ''after_call''), ban_world (Suc (Suc n)) demo_row ''IN_FLIGHT'' (calls @ [demo_call]))"
proof -
  let ?sem = "simple_semantics ''SET_STATE'' ''natural'' ''retry_same_key''"
  let ?ex = "demo_executor (Some ''after_call'')"
  define sg where "sg = \<lparr>sg_mutation = 1, sg_op_ref = mut_op_ref demo_row, sg_target = demo_target, sg_op = demo_operation,
    sg_step_args = [], sg_client = ''cli'', sg_request = demo_request, sg_adapter = demo_admin, sg_replayed = True,
    sg_object_kind = None, sg_on_created = None\<rparr>"
  have row: "request_of demo_row = (''cli'', demo_request)" "mut_request_digest demo_row = zero_hex 64" "mut_state demo_row = ''IN_FLIGHT''"
    "mut_id demo_row = 1"
    by (simp_all add: demo_row_def request_of_def)
  have op: "so_capability demo_operation = ''member.ban''" "so_args demo_operation = []" "pt_actor demo_target = BOT"
    "step_operation demo_operation ''member.ban'' [] = demo_operation"
    by (simp_all add: demo_operation_def demo_target_def step_operation_def dict_update_def)
  have sem: "os_retry_class ?sem = ''SET_STATE''" "os_step_args ?sem = []" "os_policy ?sem = ''retry_same_key''"
    by (simp_all add: simple_semantics_def)
  have ex: "ex_writer ?ex = demo_writer" "ex_admin ?ex = (\<lambda>_. Some demo_admin)" "ex_crash_at ?ex = Some ''after_call''"
    by (simp_all add: demo_executor_def)
  have wr: "wr_crypto demo_writer = demo_crypto" by (simp add: demo_writer_def)
  have "demo_ban (Some ''after_call'') (ban_world n demo_row st calls) = run_saga ?ex sg (ban_world (Suc n) demo_row st calls)"
    by (simp add: demo_ban_def provider_def demo_checks op demo_semantics ex wr sem io_then_def io_bind_def sio_res_def demo_validates
        digestible_def demo_digest ban_found [OF row(1,2)] Let_def resume_def row sg_def io_return_def)
  moreover have steps: "steps 1 (sw_db (ban_world m demo_row st calls)) = [demo_step st]" for m
    by (simp add: ban_world_def steps_def demo_step_def)
  moreover have "run_step ?ex sg (zero_hex 64) 1 0 (demo_step st) [] k (ban_world m demo_row st calls)
      = (Inl (MutationCrash ''after_call''), ban_world (Suc m) demo_row ''IN_FLIGHT'' (calls @ [demo_call]))" for m k
  proof -
    have stp: "stp_state (demo_step st) = st" "stp_capability (demo_step st) = ''member.ban''" "stp_no (demo_step st) = 1"
      by (simp_all add: demo_step_def)
    have sgf: "sg_target sg = demo_target" "sg_mutation sg = 1" "sg_step_args sg = []" "sg_op sg = demo_operation" "sg_adapter sg = demo_admin"
      by (simp_all add: sg_def)
    have clean: "\<not> is_degraded (sw_db (ban_world i r s c))" "\<not> in_transaction (sw_db (ban_world i r s c))"
      "sw_calls (ban_world i r s c) = c" "ban_world i r s c\<lparr>sw_db := sw_db (ban_world i r s c)\<rparr> = ban_world i r s c"
      "ban_world i r s c\<lparr>sw_calls := c'\<rparr> = ban_world i r s c'" for i r s c c'
      by (simp_all add: ban_world_def is_degraded_def empty_db_def)
    have call: "sio_db before_call (ban_world i r s c) = (Inr (), ban_world i r s c)" for i r s c
      by (simp add: sio_db_def before_call_def io_guard_def clean)
    have "invoke_io sg 1 demo_operation (zero_hex 64) (ban_world i r s c) = (Inr \<lparr>pr_outcome = ''SUCCEEDED'', pr_code = None,
        pr_provider_ref = None, pr_detail = []\<rparr>, ban_world i r s (c @ [demo_call]))" for i r s c
      by (simp add: invoke_io_def sgf clean demo_call_def demo_admin_def)
    moreover have "st \<noteq> ''SUCCEEDED''" "st \<noteq> ''FAILED''" using st by auto
    ultimately show ?thesis
      by (simp add: run_step_def stp sgf op demo_checks demo_semantics sem io_then_def io_bind_def io_return_def clean
        crash_def ex start_io_def ban_started [OF st, unfolded One_nat_def] call_step_def step_extra_def sio_res_def call io_raise_def)
  qed
  ultimately show ?thesis
    by (simp add: run_saga_def io_bind_def sio_res_def sio_db_def tx_reads_def demo_key ex wr sg_def ban_world_def)
qed

text \<open>Resumed with its step done, the request finishes.\<close>

lemma ban_finishes:
  "\<exists>w'. demo_ban None (ban_world n demo_row ''SUCCEEDED'' []) = (Inr \<lparr>mo_op_ref = mut_op_ref demo_row, mo_state = ''SUCCEEDED'',
     mo_code = None, mo_result = [(''state'', jstr ''SUCCEEDED''), (''code'', JNull)], mo_replayed = True\<rparr>, w')"
proof -
  let ?sem = "simple_semantics ''SET_STATE'' ''natural'' ''retry_same_key''"
  let ?ex = "demo_executor None"
  let ?result = "[(''state'', jstr ''SUCCEEDED''), (''code'', JNull)]"
  let ?w = "\<lambda>m. ban_world m demo_row ''SUCCEEDED'' []"
  define sg where "sg = \<lparr>sg_mutation = 1, sg_op_ref = mut_op_ref demo_row, sg_target = demo_target, sg_op = demo_operation,
    sg_step_args = [], sg_client = ''cli'', sg_request = demo_request, sg_adapter = demo_admin, sg_replayed = True,
    sg_object_kind = None, sg_on_created = None\<rparr>"
  have row: "request_of demo_row = (''cli'', demo_request)" "mut_request_digest demo_row = zero_hex 64" "mut_state demo_row = ''IN_FLIGHT''"
    "mut_id demo_row = 1" "mut_retried demo_row = False"
    by (simp_all add: demo_row_def request_of_def)
  have op: "so_capability demo_operation = ''member.ban''" "so_args demo_operation = []" "pt_actor demo_target = BOT"
    by (simp_all add: demo_operation_def demo_target_def)
  have sem: "os_retry_class ?sem = ''SET_STATE''" "os_step_args ?sem = []" by (simp_all add: simple_semantics_def)
  have ex: "ex_writer ?ex = demo_writer" "ex_admin ?ex = (\<lambda>_. Some demo_admin)" by (simp_all add: demo_executor_def)
  have wr: "wr_crypto demo_writer = demo_crypto" by (simp add: demo_writer_def)
  have "demo_ban None (?w n) = run_saga ?ex sg (?w (Suc n))"
    by (simp add: demo_ban_def provider_def demo_checks op demo_semantics ex wr sem io_then_def io_bind_def sio_res_def demo_validates
        digestible_def demo_digest ban_found [OF row(1,2)] Let_def resume_def row sg_def io_return_def)
  moreover have "run_saga ?ex sg w = finish_io ?ex sg ''SUCCEEDED'' None [] w" if "steps 1 (sw_db w) = [demo_step ''SUCCEEDED'']" for w
    using that by (simp add: run_saga_def io_bind_def sio_res_def sio_db_def tx_reads_def demo_key ex wr sg_def run_step_def demo_step_def)
  moreover have "steps 1 (sw_db (?w m)) = [demo_step ''SUCCEEDED'']" for m by (simp add: ban_world_def steps_def demo_step_def)
  ultimately have run: "demo_ban None (?w n) = finish_io ?ex sg ''SUCCEEDED'' None [] (?w (Suc n))" by metis
  have "\<exists>w'. transaction demo_writer (finish_body 1 (mut_op_ref demo_row) ''SUCCEEDED'' None ?result) (?w m) = (Inr ((), True), w')" for m
  proof -
    let ?dt = "(2026, 1, 2, 3, 4, 5, 6)"
    let ?tx = "open_tx demo_writer ''k'' (Aware ?dt)"
    let ?s = "(sw_db (?w m))\<lparr>in_transaction := True, audit_appended := False\<rparr>"
    have tx: "atx_now ?tx = Aware ?dt" "atx_crypto ?tx = demo_crypto" by (simp_all add: open_tx_def demo_writer_def)
    have "is_ok (jcs_dumps (payload_json ?result))" by code_simp
    then obtain ms where fin: "finish demo_crypto 1 ''SUCCEEDED'' None ?result demo_stamp ?s = Inr (zero_hex 64, ?s\<lparr>mutations := ms\<rparr>)"
      by (auto simp: is_ok_Inr finish_def need_tx_def tx_then_def tx_bind_def tx_lift_def tx_return_def demo_sha update_mutations_def
          update_where_def mutation_forward_def MUTATION_STATES_def row ban_world_def Let_def)
    let ?t = "?s\<lparr>mutations := ms\<rparr>"
    have "validate_audit_event ''admin.mutation_finished'' (Some (mut_op_ref demo_row)) (Some (zero_hex 64))
        [(''state'', jstr ''SUCCEEDED''), (''provider_code'', JNull)] = Inr ()"
      "is_ok (jcs_dumps (payload_json [(''state'', jstr ''SUCCEEDED''), (''provider_code'', JNull)]))" by code_simp+
    moreover have "in_transaction ?t" "chain_room ?t" "fresh_event_id ?t"
      by (simp_all add: ban_world_def empty_db_def chain_room_def head_def chain_rows_def fresh_event_id_def)
    ultimately obtain e t where ap: "audit_append ?tx ''admin.mutation_finished'' (Some (mut_op_ref demo_row)) (Some (zero_hex 64))
        [(''state'', jstr ''SUCCEEDED''), (''provider_code'', JNull)] ?t = Inr (e, t)"
      using audit_append_succeeds [of ?t "''admin.mutation_finished''" "Some (mut_op_ref demo_row)" "Some (zero_hex 64)"
          "[(''state'', jstr ''SUCCEEDED''), (''provider_code'', JNull)]" ?tx demo_stamp]
      unfolding tx using demo_hex demo_utc(2) by blast
    have body: "finish_body 1 (mut_op_ref demo_row) ''SUCCEEDED'' None ?result ?tx ?s = Inr ((), t)"
      unfolding finish_body_def tx_stamp_def tx_bind_def tx_then_def tx_lift_def tx demo_utc(2) sum.case prod.case fin jopt_def option.case
        ap tx_return_def ..
    have "\<exists>w'. transaction demo_writer (finish_body 1 (mut_op_ref demo_row) ''SUCCEEDED'' None ?result) (?w m) = (Inr ((), True), w')
        \<and> sw_db w' = t\<lparr>in_transaction := False\<rparr> \<and> sw_calls w' = sw_calls (?w m)"
      by (rule transaction_returns [where w = "?w m" and body = "finish_body 1 (mut_op_ref demo_row) ''SUCCEEDED'' None ?result", OF _ demo_utc(2) _ _ _ _ body])
        (simp_all add: demo_writer_def demo_utc ban_world_def empty_db_def)
    then show ?thesis by blast
  qed
  then obtain w' where fin: "transaction demo_writer (finish_body 1 (mut_op_ref demo_row) ''SUCCEEDED'' None ?result) (?w (Suc n)) = (Inr ((), True), w')"
    by blast
  have sgf: "sg_mutation sg = 1" "sg_op_ref sg = mut_op_ref demo_row" "sg_replayed sg = True" by (simp_all add: sg_def)
  have result: "dict_update [(''state'', jstr ''SUCCEEDED''), (''code'', jopt None)] [] = ?result"
    by (simp add: dict_update_def jopt_def)
  have "finish_io ?ex sg ''SUCCEEDED'' None [] (?w (Suc n)) = (Inr \<lparr>mo_op_ref = mut_op_ref demo_row, mo_state = ''SUCCEEDED'',
      mo_code = None, mo_result = ?result, mo_replayed = True\<rparr>, w')"
    unfolding finish_io_def Let_def result sgf ex io_bind_def fin prod.case sum.case if_True io_return_def ..
  with run show ?thesis by metis
qed

lemma ban_request: "demo_ban crash_at w = (q, w') \<Longrightarrow> request (''cli'', demo_request) w q w'"
  unfolding demo_ban_def by (rule request.provider_write) (simp_all add: hook_keeps_def)

lemma ban_sound: "mut_id row = 1 \<Longrightarrow> st = ''PENDING'' \<or> st = ''SUCCEEDED'' \<Longrightarrow> sound (ban_world n row st [])"
  by (auto simp: sound_def records_inv_def calls_recorded_def repeats_allowed_def ban_world_def view_def tables_def demo_step_def
      step_key_def MUTATION_STATES_def)

text \<open>A request cut short twice after its call: the second run repeats it.\<close>

theorem steps_are_repeated_only_when_allowed_witness:
  "\<exists>w'. served (ban_world 0 demo_row ''PENDING'' []) w' \<and> sw_calls w' = [demo_call, demo_call]
     \<and> call_key (sw_calls w' ! 0) = call_key (sw_calls w' ! 1)
     \<and> retryable (so_capability (pc_op (sw_calls w' ! 1))) (pt_actor (pc_target (sw_calls w' ! 1)))"
proof -
  let ?w = "ban_world 4 demo_row ''IN_FLIGHT'' [demo_call, demo_call]"
  have runs: "demo_ban (Some ''after_call'') (ban_world 0 demo_row ''PENDING'' []) = (Inl (MutationCrash ''after_call''), ban_world 2 demo_row ''IN_FLIGHT'' [demo_call])"
    "demo_ban (Some ''after_call'') (ban_world 2 demo_row ''IN_FLIGHT'' [demo_call]) = (Inl (MutationCrash ''after_call''), ?w)"
    using ban_cut_short [of "''PENDING''" 0 "[]"] ban_cut_short [of "''IN_FLIGHT''" 2 "[demo_call]"]
    by (simp_all add: eval_nat_numeral)
  have served: "served (ban_world 0 demo_row ''PENDING'' []) ?w"
    by (rule served_request [OF served_request [OF served_none ban_request [OF runs(1)]] ban_request [OF runs(2)]])
  have calls: "sw_calls ?w = [demo_call, demo_call]" by (simp add: ban_world_def)
  have "mut_id demo_row = 1" by (simp add: demo_row_def)
  then have "sound (ban_world 0 demo_row ''PENDING'' [])" by (intro ban_sound) simp_all
  from steps_are_repeated_only_when_allowed [OF this served] calls
  have "call_key (sw_calls ?w ! 0) = call_key (sw_calls ?w ! 1) \<longrightarrow>
      retryable (so_capability (pc_op (sw_calls ?w ! 1))) (pt_actor (pc_target (sw_calls ?w ! 1)))" by (metis One_nat_def length_Cons lessI less_Suc_eq list.size(3))
  with served calls show ?thesis by (intro exI [of _ ?w]) simp
qed


theorem requests_refine_register_witness:
  "\<exists>x w'. demo_ban None (ban_world 0 demo_row ''SUCCEEDED'' []) = (Inr x, w')
     \<and> register (ban_world 0 demo_row ''SUCCEEDED'' []) (''cli'', demo_request) = Open
     \<and> register_step (''cli'', demo_request) (register (ban_world 0 demo_row ''SUCCEEDED'' [])) (Inr x) (register w')"
proof -
  let ?w = "ban_world 0 demo_row ''SUCCEEDED'' []"
  obtain x w' where run: "demo_ban None ?w = (Inr x, w')" using ban_finishes [of 0] by blast
  have "mut_id demo_row = 1" by (simp add: demo_row_def)
  then have sound: "sound ?w" by (intro ban_sound) simp_all
  have "register ?w (''cli'', demo_request) = Open"
    using register_row [OF sound, of demo_row] by (simp add: ban_world_def demo_row_def request_of_def finished_def)
  with run requests_refine_register [OF sound ban_request [OF run]] show ?thesis by blast
qed

theorem reused_request_id_is_refused_witness:
  "\<exists>e w'. provider (demo_executor None) ''cli'' ''comms_member_ban'' demo_target demo_operation demo_request None None
      (ban_world 0 (demo_row\<lparr>mut_request_digest := replicate 64 (CHR ''f'')\<rparr>) ''PENDING'' []) = (Inl e, w') \<and> sw_calls w' = []"
proof -
  let ?row = "demo_row\<lparr>mut_request_digest := replicate 64 (CHR ''f'')\<rparr>"
  let ?w = "ban_world 0 ?row ''PENDING'' []"
  obtain q w' where run: "provider (demo_executor None) ''cli'' ''comms_member_ban'' demo_target demo_operation demo_request None None ?w = (q, w')"
    by fastforce
  have found: "find_mutation ''cli'' demo_request (sw_db ?w) = Some ?row"
    by (simp add: ban_world_def find_mutation_def demo_row_def)
  have other: "request_digest (wr_crypto (ex_writer (demo_executor None))) ''comms_member_ban''
      (digestible (wr_crypto (ex_writer (demo_executor None))) (so_args demo_operation)) (provider_targets demo_target demo_operation)
      \<noteq> Inr (mut_request_digest ?row)"
    using demo_digest by (simp add: demo_executor_def demo_writer_def digestible_def demo_operation_def zero_hex_def)
  from reused_request_id_is_refused [OF found other run] obtain e where "q = Inl e" "view w' = view ?w" by blast
  with run show ?thesis by (auto simp: view_def ban_world_def)
qed

section \<open>What interruptions cost\<close>

text \<open>The documentation says that a mutation is re-invoked at most once. The mark that a mutation was retried
  is set, and looked at, only for an ambiguous outcome: a mutation that a crash left in flight is called
  again at every replay that crashes.\<close>

lemma interrupted_mutation_is_reinvoked_twice:
  "\<exists>w'. served (ban_world 0 demo_row ''PENDING'' []) w' \<and> sw_calls w' = [demo_call, demo_call, demo_call]
     \<and> mutations (sw_db w') = [demo_row] \<and> \<not> mut_retried demo_row"
proof -
  let ?w = "ban_world 6 demo_row ''IN_FLIGHT'' [demo_call, demo_call, demo_call]"
  have runs: "demo_ban (Some ''after_call'') (ban_world 0 demo_row ''PENDING'' []) = (Inl (MutationCrash ''after_call''), ban_world 2 demo_row ''IN_FLIGHT'' [demo_call])"
    "demo_ban (Some ''after_call'') (ban_world 2 demo_row ''IN_FLIGHT'' [demo_call]) = (Inl (MutationCrash ''after_call''), ban_world 4 demo_row ''IN_FLIGHT'' [demo_call, demo_call])"
    "demo_ban (Some ''after_call'') (ban_world 4 demo_row ''IN_FLIGHT'' [demo_call, demo_call]) = (Inl (MutationCrash ''after_call''), ?w)"
    using ban_cut_short [of "''PENDING''" 0 "[]"] ban_cut_short [of "''IN_FLIGHT''" 2 "[demo_call]"]
      ban_cut_short [of "''IN_FLIGHT''" 4 "[demo_call, demo_call]"]
    by (simp_all add: eval_nat_numeral)
  have "served (ban_world 0 demo_row ''PENDING'' []) ?w"
    by (rule served_request [OF served_request [OF served_request [OF served_none ban_request [OF runs(1)]] ban_request [OF runs(2)]]
          ban_request [OF runs(3)]])
  then show ?thesis by (intro exI [of _ ?w]) (simp add: ban_world_def demo_row_def)
qed

text \<open>A request whose steps were all recorded as done before it was cut short finishes on a replay with an
  empty result: what the last step created was known only to the run that was lost.\<close>

lemma resumed_saga_forgets_what_it_created:
  assumes "\<forall>st\<in>set (steps (sg_mutation sg) (sw_db w)). stp_state st = ''SUCCEEDED''"
    and "op_key (wr_crypto (ex_writer ex)) (sg_client sg) (sg_request sg) = Inr key"
  shows "run_saga ex sg w = finish_io ex sg ''SUCCEEDED'' None [] w"
proof -
  have "\<forall>st\<in>set sts. stp_state st = ''SUCCEEDED'' \<Longrightarrow> run_steps ex sg key n i sts [] = finish_io ex sg ''SUCCEEDED'' None []" for n i sts
    by (induction sts arbitrary: i) (simp_all add: run_step_def)
  with assms show ?thesis by (simp add: run_saga_def io_bind_def sio_res_def sio_db_def tx_reads_def)
qed

end
