(* ===== verification/Comms_Trail.thy ===== *)
theory Comms_Trail
  imports Comms_Executor
begin

text \<open>
  What an event of the audit trail may say. Its kind, subject and payload pass the specification of the
  kind, its id is an audit event reference, its stamp a canonical time and its payload canonical JSON; and
  whatever an audited transaction commits, the trail keeps to it.
\<close>

definition typed_event :: "audit_event_row \<Rightarrow> bool" where
  "typed_event row \<longleftrightarrow> check (aev_event_id row) ''audit_event'' = Inr (aev_event_id row)
     \<and> (\<exists>now. iso now = Inr (aev_ts row))
     \<and> (\<exists>payload. validate_audit_event (aev_kind row) (aev_subject_ref row) (aev_subject_digest row) payload = Inr ()
          \<and> jcs_dumps (payload_json payload) = Inr (aev_payload row))"

definition typed_trail :: "comms_db \<Rightarrow> bool" where
  "typed_trail s \<longleftrightarrow> (\<forall>row\<in>set (audit_events s). typed_event row)"

lemma audit_append_typed:
  assumes "audit_append tx kind sref sdig payload s = Inr (row, t)"
  shows "typed_event row \<and> audit_events t = audit_events s @ [row]"
proof -
  from assms obtain e u v where event: "audit_event_of tx kind sref sdig payload s = Inr (e, u)"
    and app: "chain_append (atx_crypto tx) (atx_key tx) e u = Inr (row, v)" and t: "t = v\<lparr>audit_appended := True\<rparr>"
    by (auto simp: audit_append_def tx_inr)
  from event obtain ref where mint: "mint_ref ''audit_event'' s = Inr (ref, u)"
    and e: "ev_event_id e = ref" "iso (atx_now tx) = Inr (ev_ts e)" "ev_kind e = kind" "ev_subject_ref e = sref" "ev_subject_digest e = sdig"
      "jcs_dumps (payload_json payload) = Inr (ev_payload e)" "validate_audit_event kind sref sdig payload = Inr ()"
    by (auto simp: audit_event_of_def tx_inr)
  have "audit_events u = audit_events s" using mint by (auto simp: mint_ref_def split: sum.splits prod.splits)
  moreover from chain_append_run [OF app] have "v = u\<lparr>audit_events := audit_events u @ [row]\<rparr>" "event_of_row row = e" by auto
  moreover have "check ref ''audit_event'' = Inr ref" using mint_ref_kind [OF mint] by (simp add: check_def)
  ultimately show ?thesis
    using e t by (auto simp: typed_event_def event_of_row_def)
qed

section \<open>Transactions\<close>

abbreviation keeps_trail :: "'a db_tx \<Rightarrow> bool" where
  "keeps_trail m \<equiv> tx_within (kept typed_trail) m"

definition trail_order :: "service_world \<Rightarrow> service_world \<Rightarrow> bool" where
  "trail_order w w' \<longleftrightarrow> (typed_trail (sw_db w) \<longrightarrow> typed_trail (sw_db w'))"

interpretation trail_order: io_preorder trail_order
  by unfold_locales (auto simp: trail_order_def)

abbreviation keeps_world :: "'a sio \<Rightarrow> bool" where
  "keeps_world m \<equiv> io_within trail_order m"

lemma same_events_typed: "audit_events t = audit_events s \<Longrightarrow> kept typed_trail s t"
  by (simp add: kept_def typed_trail_def)

lemma keeps_trailI: "(\<And>s x t. m s = Inr (x, t) \<Longrightarrow> audit_events t = audit_events s) \<Longrightarrow> keeps_trail m"
  by (rule tx_withinI) (blast intro: same_events_typed)

lemma append_keeps_trail: "keeps_trail (audit_append tx kind sref sdig payload)"
  by (rule tx_withinI) (auto simp: kept_def typed_trail_def dest!: audit_append_typed)

lemma db_keeps_world: "keeps_trail m \<Longrightarrow> keeps_world (sio_db m)"
  by (rule io_withinI) (auto simp: sio_db_def trail_order_def kept_def dest: tx_withinD split: sum.splits)

lemma res_keeps_world: "keeps_world (sio_res x)"
  by (rule io_withinI) (simp add: sio_res_def trail_order_def)

lemma now_keeps_world: "keeps_world (writer_now wr)"
  by (rule io_withinI) (auto simp: trail_order_def dest: writer_now_frame)

lemma refresh_keeps_world: "keeps_world (refresh wr h now)"
proof (rule io_withinI)
  fix w r w' assume run: "refresh wr h now w = (r, w')"
  obtain q w1 where a: "anchor_committed wr h now w = (q, w1)" by fastforce
  then obtain as where w1: "w1 = w\<lparr>sw_anchors := as\<rparr>" using anchor_committed_frame by blast
  have latch: "keeps_world (sio_db (latch_degraded ''ANCHOR_REFRESH_FAILED'' now))"
  proof (rule db_keeps_world, rule keeps_trailI)
    fix s x t assume "latch_degraded ''ANCHOR_REFRESH_FAILED'' now s = Inr (x, t)"
    then have "t = s\<lparr>audit_integrity := audit_integrity t\<rparr>" using latch_degraded_run by blast
    then have "audit_events t = audit_events (s\<lparr>audit_integrity := audit_integrity t\<rparr>)" by (rule arg_cong)
    then show "audit_events t = audit_events s" by simp
  qed
  show "trail_order w w'"
  proof (cases q)
    case (Inl e)
    have "keeps_world (io_then (sio_db (latch_degraded ''ANCHOR_REFRESH_FAILED'' now)) (io_return False))"
      by (intro trail_order.run_intros latch)
    moreover have "io_then (sio_db (latch_degraded ''ANCHOR_REFRESH_FAILED'' now)) (io_return False) w1 = (r, w')"
      using run a Inl by (simp add: refresh_def)
    ultimately have "trail_order w1 w'" by (rule io_withinD)
    then show ?thesis by (simp add: trail_order_def w1)
  next
    case (Inr u)
    with run a w1 show ?thesis by (auto simp: refresh_def trail_order_def)
  qed
qed

lemma transaction_keeps_world:
  assumes "\<And>tx. keeps_trail (body tx)"
  shows "keeps_world (transaction wr body)"
proof -
  have "keeps_trail (audited_tx tx body)" for tx
  proof (rule tx_withinI)
    fix s p t assume run: "audited_tx tx body s = Inr (p, t)"
    obtain x committed where p: "p = (x, committed)" by fastforce
    from run [unfolded p] show "kept typed_trail s t"
    proof (rule audited_tx_run)
      fix v assume "body tx (s\<lparr>in_transaction := True, audit_appended := False\<rparr>) = Inr (x, v)" and t: "t = v\<lparr>in_transaction := False\<rparr>"
      from tx_withinD [OF assms this(1)] t show "kept typed_trail s t" by (simp add: kept_def typed_trail_def)
    qed
  qed
  note tx = db_keeps_world [OF this]
  have key: "keeps_world (\<lambda>w. io_bind (sio_res (wr_current wr (sw_db w))) f w)" if "\<And>k. keeps_world (f k)" for f :: "bytes \<Rightarrow> ('a \<times> bool) sio"
  proof (rule io_withinI)
    fix w r w' assume "io_bind (sio_res (wr_current wr (sw_db w))) f w = (r, w')"
    moreover have "keeps_world (io_bind (sio_res (wr_current wr (sw_db w))) f)" by (intro trail_order.run_intros res_keeps_world that)
    ultimately show "trail_order w w'" by (rule io_withinD [rotated])
  qed
  show ?thesis
    unfolding transaction_def by (intro trail_order.run_intros now_keeps_world key tx refresh_keeps_world)
qed

section \<open>The executor\<close>

definition trail_safe :: "(audit_tx \<Rightarrow> 'a db_tx) \<Rightarrow> bool" where
  "trail_safe apply \<longleftrightarrow> (\<forall>tx. keeps_trail (apply tx))"

definition trail_safe_hook :: "(string \<Rightarrow> (comms_db, 'a) run) option \<Rightarrow> bool" where
  "trail_safe_hook hook \<longleftrightarrow> (\<forall>h ref s r t. hook = Some h \<longrightarrow> h ref s = (r, t) \<longrightarrow> kept typed_trail s t)"

lemma records_keep_trail:
  "keeps_trail need_tx" "keeps_trail require_healthy" "keeps_trail (mint_ref kind)" "keeps_trail (insert_mutation_row m)"
  "keeps_trail (update_mutations p f)" "keeps_trail (insert_step_row r)" "keeps_trail (update_steps p' f')" "keeps_trail before_call"
  by (rule keeps_trailI, auto simp: need_tx_def require_healthy_def require_not_degraded_def mint_ref_def insert_mutation_row_def
      update_mutations_def insert_step_row_def update_steps_def before_call_def io_guard_Inr violates_def split: sum.splits if_splits)+

lemmas trail_steps = kept.within_intros records_keep_trail append_keeps_trail

lemma mutations_keep_trail:
  "keeps_trail (insert_mutation a b c d e f g h i j k)" "keeps_trail (add_steps mid cs)" "keeps_trail (start_step mid n key)"
  "keeps_trail (finish_step mid n st code)" "keeps_trail (finish cr mid st code result stamp)" "keeps_trail (mark_retried mid)"
  "keeps_trail (mark_degraded mid)"
  unfolding insert_mutation_def add_steps_def start_step_def finish_step_def finish_def mark_retried_def mark_degraded_def Let_def
  by (intro trail_steps)+

lemma object_ref_keeps_trail: "keeps_trail (object_ref kind tr actor d identity now)"
proof -
  have ins: "keeps_trail (insert_object r)" for r
    by (rule keeps_trailI) (auto simp: insert_object_def violates_def split: if_splits)
  have upd: "keeps_trail (tx_modify (\<lambda>s. s\<lparr>provider_objects := f s\<rparr>))" for f
    by (rule keeps_trailI) auto
  have body: "keeps_trail (object_ref_body kind tr actor d identity stamp)" for stamp
    unfolding object_ref_body_def Let_def by (intro trail_steps ins upd)
  have "keeps_trail (write_tx (object_ref_body kind tr actor d identity stamp))" for stamp
    using tx_withinD [OF body [of stamp]]
    by (fastforce intro!: tx_withinI simp: write_tx_def kept_def typed_trail_def split: if_splits sum.splits)
  then show ?thesis unfolding object_ref_def by (intro kept.within_intros)
qed

lemmas world_steps = trail_order.run_intros res_keeps_world now_keeps_world transaction_keeps_world

lemma audited_keeps_world: "(\<And>tx. keeps_trail (body tx)) \<Longrightarrow> keeps_world (audited wr body)"
  unfolding audited_def by (intro world_steps)

lemma local_keeps_world:
  assumes "trail_safe apply"
  shows "keeps_world (local ex client tool targets args rid apply)"
proof -
  have app: "keeps_trail (apply tx)" for tx using assms by (simp add: trail_safe_def)
  have "keeps_trail (local_body client tool targets digest rid apply tx)" for digest tx
    unfolding local_body_def local_new_def tx_stamp_def by (intro trail_steps mutations_keep_trail app)
  then show ?thesis unfolding local_def by (intro world_steps audited_keeps_world)
qed

lemma degraded_keeps_world: "keeps_world (degraded ex mid op_ref st replayed)"
  unfolding degraded_def by (intro world_steps audited_keeps_world mutations_keep_trail)

lemma crash_keeps_world: "keeps_world (crash ex point)"
  unfolding crash_def by (intro world_steps)

lemma finish_io_keeps_world: "keeps_world (finish_io ex sg st code extra)"
  unfolding finish_io_def finish_body_def tx_stamp_def Let_def
  by (intro world_steps trail_steps mutations_keep_trail degraded_keeps_world)

lemma record_step_keeps_trail: "keeps_trail (record_step_body mid op_ref n capability current st code tx)"
  unfolding record_step_body_def by (intro trail_steps mutations_keep_trail)

lemma settle_keeps_world:
  assumes "trail_safe_hook (sg_on_created sg)"
  shows "keeps_world (settle_result ex sg is_last r created)"
proof -
  have name: "keeps_world (name_object ex sg kind r c)" for kind c
    unfolding name_object_def Let_def
    by (cases "pr_provider_ref r"; (simp split: list.split option.split)?)
      (intro allI impI conjI world_steps db_keeps_world kept.within_reads object_ref_keeps_trail)+
  have io: "keeps_world (hook_io h ref)" if "sg_on_created sg = Some h" for h ref
    by (rule io_withinI) (use assms that in \<open>auto simp: trail_safe_hook_def hook_io_def trail_order_def kept_def split: prod.splits\<close>)
  have hook: "keeps_world (run_hook sg r c)" for c
    unfolding run_hook_def
    by (cases "sg_on_created sg"; cases "pr_provider_ref r"; (simp split: list.split)?)
      (intro allI impI conjI world_steps io; simp)+
  show ?thesis unfolding settle_result_def Let_def by (intro world_steps name hook)
qed

lemma invoke_keeps_world: "keeps_world (invoke_io sg n operation key)"
  by (rule io_withinI) (auto simp: invoke_io_def Let_def trail_order_def)

lemma call_keeps_world:
  assumes "trail_safe_hook (sg_on_created sg)" and "\<And>c. keeps_world (k c)"
  shows "keeps_world (start_io ex sg key st (call_step ex sg key nsteps index st created k))"
  unfolding start_io_def call_step_def
  by (intro world_steps mutations_keep_trail degraded_keeps_world db_keeps_world records_keep_trail invoke_keeps_world crash_keeps_world
      settle_keeps_world assms record_step_keeps_trail finish_io_keeps_world)

lemma run_step_keeps_world:
  assumes "trail_safe_hook (sg_on_created sg)" and "\<And>c. keeps_world (k c)"
  shows "keeps_world (run_step ex sg key nsteps index st created k)"
proof -
  have branch: "keeps_world (\<lambda>w. if b w then m w else m' w)" if "keeps_world m" "keeps_world m'" for b and m m' :: "mutation_outcome sio"
    using that by (auto intro!: io_withinI dest: io_withinD split: if_splits)
  show ?thesis
    unfolding run_step_def
    by (intro world_steps assms audited_keeps_world record_step_keeps_trail finish_io_keeps_world crash_keeps_world branch call_keeps_world)
qed

lemma run_saga_keeps_world:
  assumes "trail_safe_hook (sg_on_created sg)"
  shows "keeps_world (run_saga ex sg)"
proof -
  have "keeps_world (run_steps ex sg key n i sts c)" for key n i sts c
    by (induction sts arbitrary: i c) (simp_all add: finish_io_keeps_world run_step_keeps_world [OF assms])
  then show ?thesis unfolding run_saga_def by (intro world_steps db_keeps_world kept.within_reads)
qed

lemma provider_keeps_world:
  assumes "trail_safe_hook hook"
  shows "keeps_world (provider ex client tool target op rid kind hook)"
proof -
  have body: "keeps_trail (provider_body client tool target op sem digest rid tx)" for sem digest tx
    unfolding provider_body_def provider_new_def tx_stamp_def by (intro trail_steps mutations_keep_trail)
  have answer: "keeps_world (let f = mk in case x of
         Inl row \<Rightarrow> if ok then resume ex f row else degraded ex 0 [] ''IN_FLIGHT'' False
       | Inr (mid, op_ref) \<Rightarrow> if ok then run_saga ex (f mid op_ref False) else degraded ex mid op_ref ''IN_FLIGHT'' False)"
    if mk: "\<And>mid op_ref b. sg_on_created (mk mid op_ref b) = hook" for mk x ok
  proof -
    have run: "keeps_world (run_saga ex (mk mid op_ref b))" for mid op_ref b
      by (rule run_saga_keeps_world) (simp add: mk assms)
    then have "keeps_world (resume ex mk row)" for row
      unfolding resume_def by (intro world_steps audited_keeps_world mutations_keep_trail)
    with run degraded_keeps_world show ?thesis by (auto split: sum.split prod.split)
  qed
  show ?thesis
    unfolding provider_def
    by (cases "SEMANTICS (so_capability op) (pt_actor target)"; cases "ex_admin ex (pt_actor target)"; simp only: prod.case option.case)
      (intro world_steps body answer; simp)+
qed

text \<open>C30: the audit trail is typed. From a trail whose every event has a reference of its kind, a canonical
  stamp, and a subject and payload that pass the specification of its kind, recorded as canonical JSON,
  an audited transaction, a local write and a provider write all end, however they end, in such a trail:
  it is enough that the change they apply, or the directory hook, only appends through the audit
  transaction.\<close>

theorem audit_trail_is_typed:
  assumes "typed_trail (sw_db w)"
  shows "((\<forall>tx. keeps_trail (body tx)) \<longrightarrow> typed_trail (sw_db (snd (transaction wr body w))))
    \<and> (trail_safe app \<longrightarrow> typed_trail (sw_db (snd (local ex client tool targets args rid app w))))
    \<and> (trail_safe_hook hook \<longrightarrow> typed_trail (sw_db (snd (provider ex client tool target op rid kind hook w))))"
proof -
  have after: "typed_trail (sw_db (snd (m w)))" if "keeps_world m" for m :: "'x sio"
    using io_withinD [OF that, of w "fst (m w)" "snd (m w)"] assms by (simp add: trail_order_def)
  show ?thesis
  proof (intro conjI impI)
    assume "\<forall>tx. keeps_trail (body tx)"
    then show "typed_trail (sw_db (snd (transaction wr body w)))" by (intro after transaction_keeps_world) simp
  next
    assume "trail_safe app"
    then show "typed_trail (sw_db (snd (local ex client tool targets args rid app w)))" by (intro after local_keeps_world)
  next
    assume "trail_safe_hook hook"
    then show "typed_trail (sw_db (snd (provider ex client tool target op rid kind hook w)))" by (intro after provider_keeps_world)
  qed
qed

definition quiet_executor :: executor where
  "quiet_executor = \<lparr>ex_writer = demo_writer, ex_admin = (\<lambda>_. None), ex_crash_at = None\<rparr>"

theorem audit_trail_is_typed_witness:
  "\<exists>row w'. transaction demo_writer marker_body demo_world = (Inr (row, True), w') \<and> audit_events (sw_db w') = [row] \<and> typed_event row
     \<and> typed_trail (sw_db (snd (local quiet_executor ''cli'' ''comms_status'' [] [] (''req_'' @ replicate 26 (CHR ''a''))
          (\<lambda>_. tx_return []) demo_world)))"
proof -
  obtain row w' where run: "transaction demo_writer marker_body demo_world = (Inr (row, True), w')" "audit_events (sw_db w') = [row]"
    using marker_body_runs by blast
  have start: "typed_trail (sw_db demo_world)" by (simp add: typed_trail_def demo_world_def empty_db_def)
  have marker: "\<forall>tx. keeps_trail (marker_body tx)" unfolding marker_body_def by (intro allI append_keeps_trail)
  note typed = audit_trail_is_typed [where body = marker_body and app = "\<lambda>_. tx_return []", OF start]
  have "typed_trail (sw_db (snd (transaction demo_writer marker_body demo_world)))"
    by (rule typed [THEN conjunct1, THEN mp, OF marker])
  moreover have "typed_trail (sw_db (snd (local quiet_executor ''cli'' ''comms_status'' [] [] (''req_'' @ replicate 26 (CHR ''a''))
          (\<lambda>_. tx_return []) demo_world)))"
    by (rule typed [THEN conjunct2, THEN conjunct1, THEN mp]) (auto simp: trail_safe_def)
  moreover have "typed_trail (sw_db w')" if "transaction demo_writer marker_body demo_world = (Inr (row, True), w')"
    using calculation(1) that by simp
  moreover have "typed_event row" using calculation(3) [OF run(1)] run(2) by (simp add: typed_trail_def)
  ultimately show ?thesis using run by blast
qed

end
