(* ===== verification/Spec2Isabelle.thy ===== *)
theory Spec2Isabelle
  imports Comms_Core Comms_Providers Comms_Objects Comms_Requests Comms_Trail
begin

text \<open>
  A verification of the core of the comms server (\<open>src/src/comms\<close>), a messaging server that plans
  campaigns, delivers them over Telegram and WhatsApp, and records every change in an audit chain.

  \<^bold>\<open>The program and the theories.\<close> All state is one encrypted SQLite database, \<open>comms.db\<close>. The record
  \<open>comms_db\<close> of \<open>Comms_Schema\<close> has one field per table the modelled code reads or writes; each
  \<open>INSERT\<close> and \<open>UPDATE\<close> is a function that checks the table's CHECK clauses, unique indexes, foreign
  keys and triggers (\<open>core/storage/migrations.py\<close>). Code inside a transaction is a function from the
  database to an exception or a value and the new database (\<open>('s, 'a) tx\<close>, \<open>Comms_Prelude\<close>): an
  exception carries no state because the transaction is rolled back. Code that spans several
  transactions or calls the outside is a run (\<open>Comms_Runs\<close>): an exception leaves the world as the
  steps before it made it, which is how crashes are modelled.

  \<^item> \<open>Comms_Refs\<close>, \<open>Comms_Refs_Props\<close>: opaque references (\<open>core/opaque.py\<close>, \<open>core/refs.py\<close>). Minting and
    recognising a kind are inverse, and a kind has at most \<open>2 ^ 124\<close> references.
  \<^item> \<open>Comms_Json\<close>, \<open>Comms_Time\<close>: canonical JSON, byte by byte (\<open>core/canonical.py\<close>), and canonical time
    strings (\<open>core/timeutil.py\<close>), whose text order is the order of time.
  \<^item> \<open>Comms_Validators\<close>, \<open>Comms_Chain\<close>, \<open>Comms_Events\<close>, \<open>Comms_Chain_Props\<close>: the audit event
    specifications (\<open>core/validators.py\<close>, \<open>core/audit/specs.py\<close>), the MAC chain, its epochs, seals and
    checkpoints (\<open>core/audit/chain.py\<close>), the integrity latch (\<open>core/audit/integrity.py\<close>), \<open>AuditTx\<close> and
    the campaign journal (\<open>core/campaigns/events.py\<close>). An append keeps the chain verifiable, and a valid
    event is always appended.
  \<^item> \<open>Comms_Writer\<close>: \<open>AuditWriter\<close> and the external head anchor (\<open>core/audit/writer.py\<close>,
    \<open>core/audit/anchor.py\<close>). A transaction is anchored or the latch is set; the verdict of the next
    start.
  \<^item> \<open>Comms_Reducer\<close>, \<open>Comms_Reducer_Props\<close>, \<open>Comms_Delivery\<close>: the delivery reducer
    (\<open>core/delivery/reducer.py\<close>): the decision table, compare-and-set transitions, attempts, summary and
    completion, and the delivery invariant every call keeps.
  \<^item> \<open>Comms_Directory\<close>, \<open>Comms_Directory_Props\<close>: people, locations, destinations, audiences and groups
    (\<open>core/campaigns/directory.py\<close>, \<open>core/groups.py\<close>); their invariant, acyclicity of the audiences, and
    the permanence of an opt-out.
  \<^item> \<open>Comms_Resolve\<close>, \<open>Comms_Resolve_Props\<close>: target resolution (\<open>core/campaigns/resolve.py\<close>) against
    its specification by directory paths.
  \<^item> \<open>Comms_Drafts\<close>, \<open>Comms_Freeze\<close>, \<open>Comms_Operations\<close>: drafts, templates and rendering, freezing a
    campaign into a generation of jobs with its commitment, and the operator's and provider's
    operations on a sent campaign (\<open>core/campaigns\<close>, \<open>core/delivery\<close>).
  \<^item> \<open>Comms_Engine\<close>: the delivery engine, recovery after a crash and scheduled starts
    (\<open>core/delivery/engine.py\<close>, \<open>recovery.py\<close>, \<open>scheduling.py\<close>), over a world that also holds the calls
    made to the transports.
  \<^item> \<open>Comms_System\<close>, \<open>Comms_Invariants\<close>, \<open>Comms_Generations\<close>, \<open>Comms_World\<close>, \<open>Comms_Recovery\<close>,
    \<open>Comms_Core\<close>: the system invariant, that every operation keeps it, the log of deliveries, and the
    step relation of the whole core with the properties of its reachable states.
  \<^item> \<open>Comms_Providers\<close>, \<open>Comms_Objects\<close>, \<open>Comms_Mutations\<close>, \<open>Comms_Executor\<close>: capabilities and the
    idempotency table (\<open>core/providers\<close>), durable object references (\<open>core/objects.py\<close>), the records of
    write requests (\<open>core/mutations.py\<close>) and the executor with its replay contract
    (\<open>services/mutations.py\<close>).
  \<^item> \<open>Comms_Service_Logic\<close>, \<open>Comms_Executor_Props\<close>, \<open>Comms_Requests\<close>: triples over the mutation tables and the
    provider calls, the invariant of the executor by them, and what it promises over any sequence of
    requests, replays and crashes: it refines a register of requests, final answers are final, and a
    step is called again only where its policy allows it.
  \<^item> \<open>Comms_Trail\<close>: the writer and the executor keep every event of the audit trail typed.
  \<^item> \<open>Comms_Demo\<close>: the small databases and worlds the witnesses evaluate.

  \<^bold>\<open>Interfaces.\<close> \<open>tx_preorder\<close>, \<open>io_preorder\<close> and \<open>world_preorder\<close> are the contracts between a sequence of
  steps and a property of the whole run: a component proves the preorder of its primitive writes and
  gets it for every composition. \<open>audit_client\<close> and \<open>journal_client\<close> extend them by the writes of an
  append, \<open>directory_client\<close> and \<open>contact_client\<close> by those of the directory. Each is interpreted on the
  model's own definitions.

  \<^bold>\<open>Parameters.\<close> The hash, MAC and signature functions (\<open>crypto\<close>), the random source (a sequence of draws
  in the database record), the clock (by number of reads), the chain keys, the disk under the anchor,
  the transports and provider adapters, the identity normalizers, the hooks and local changes given to
  the executor. Where a property needs documented behaviour of one of them (digests are hexadecimal, a
  hook leaves the mutation tables alone) it is a named hypothesis with a witness.

  \<^bold>\<open>Bounds and fuel.\<close> No definition takes fuel. The walk over audiences terminates by the measure of
  \<open>expand_rank\<close>; the code's cycle error is a branch, and \<open>resolution_always_returns\<close> shows it is not met
  on a directory built by the modelled operations. Integers are unbounded as in Python; the 8-byte
  encodings of the chain raise above \<open>2 ^ 64\<close> as \<open>int.to_bytes\<close> does.

  \<^bold>\<open>Not modelled.\<close> Text is 8-bit except inside JSON values, where it is a list of code points. JSON columns
  hold values, so the text round trip of \<open>json.loads\<close> is not modelled. Runs are sequential: the writer
  lock and the single-runtime lease are taken as held. The key slots and their rotation, local leases
  and OAuth, backup, retention, cutover, the migration runner, the service facades, the MCP server and
  the transports' network code are I/O over libraries outside the repository or procedures over several
  databases; they are listed in the manifest with that reason.
\<close>

end
